(* ===== verification/Prelude.thy ===== *)
theory Prelude
  imports Main "HOL-Library.Word"
begin

text \<open>
  Shared vocabulary of the development: the machine integers of the Rust sources as words, byte
  strings and their big- and little-endian readings, the result type of fallible operations, the
  concurrent hash index that the server keeps its clients and channels in, and the generic facts
  on words, lists and maps that the component theories use.

  Integers are those of the release profile: \<open>+\<close>, \<open>-\<close> and \<open>*\<close> wrap around. A panic is a value
  of the result type, never an unspecified HOL term.
\<close>

unbundle bit_operations_syntax

named_theorems byte_simps "evaluation and round-trip rules for byte strings"
named_theorems index_simps "lookup rules of the hash index"
named_theorems index_wf "preservation of the distinctness of hash index keys"

section \<open>Machine integers and byte strings\<close>

type_synonym u8 = "8 word"
type_synonym u16 = "16 word"
type_synonym u32 = "32 word"
type_synonym u64 = "64 word"
type_synonym u128 = "128 word"
type_synonym bytes = "u8 list"

text \<open>
  An \<open>Instant\<close> is a number of nanoseconds on the monotonic clock, a \<open>Duration\<close> a natural number of
  nanoseconds; \<open>duration_since\<close> saturates at zero.
\<close>

type_synonym instant = int

definition secs :: "nat \<Rightarrow> nat" where
  "secs n = n * 10 ^ 9"

definition duration_since :: "instant \<Rightarrow> instant \<Rightarrow> nat" where
  "duration_since now earlier = nat (now - earlier)"

text \<open>
  \<open>le_bytes n w\<close> are the \<open>n\<close> low bytes of \<open>w\<close>, least significant first; \<open>of_le\<close> reads such a
  string back (bytes beyond the width are lost, missing ones are zero). The big-endian readings
  are the reversed ones.
\<close>

primrec le_bytes :: "nat \<Rightarrow> 'a::len word \<Rightarrow> bytes" where
  "le_bytes 0 w = []"
| "le_bytes (Suc n) w = ucast w # le_bytes n (drop_bit 8 w)"

primrec of_le :: "bytes \<Rightarrow> 'a::len word" where
  "of_le [] = 0"
| "of_le (b # bs) = ucast b OR push_bit 8 (of_le bs)"

definition be_bytes :: "nat \<Rightarrow> 'a::len word \<Rightarrow> bytes" where
  "be_bytes n w = rev (le_bytes n w)"

definition of_be :: "bytes \<Rightarrow> 'a::len word" where
  "of_be bs = of_le (rev bs)"

lemma length_le_bytes [simp]: "length (le_bytes n w) = n"
  by (induction n arbitrary: w) auto

lemma length_be_bytes [simp]: "length (be_bytes n w) = n"
  by (simp add: be_bytes_def)

lemma nth_le_bytes:
  "i < n \<Longrightarrow> le_bytes n w ! i = (ucast (drop_bit (8 * i) w) :: u8)"
proof (induction n arbitrary: w i)
  case 0
  then show ?case by simp
next
  case (Suc n)
  then show ?case
    by (cases i) (simp_all add: drop_bit_drop_bit add.commute)
qed

lemma bit_of_le:
  "bit (of_le bs :: 'a::len word) i \<longleftrightarrow>
     i < LENGTH('a) \<and> i < 8 * length bs \<and> bit (bs ! (i div 8)) (i mod 8)"
proof (induction bs arbitrary: i)
  case Nil
  then show ?case by simp
next
  case (Cons b bs)
  show ?case
  proof (cases "i < 8")
    case True
    then show ?thesis by (auto simp: bit_simps)
  next
    case False
    then have "i div 8 = Suc ((i - 8) div 8)" and "i mod 8 = (i - 8) mod 8"
      by (simp_all add: le_div_geq le_mod_geq)
    with False show ?thesis
      by (auto simp: bit_simps Cons.IH dest: bit_imp_le_length)
  qed
qed

text \<open>A word below \<open>2 ^ k\<close> has no bit set from \<open>k\<close> on.\<close>

lemma bit_less_exp:
  fixes w :: "'a::len word"
  assumes "unat w < 2 ^ k" and "bit w i"
  shows "i < k"
proof (rule ccontr)
  assume "\<not> i < k"
  have "2 ^ i \<le> unat w"
  proof -
    have "bit (unat w) i" using assms(2) by (simp add: bit_unsigned_iff)
    then have "odd (unat w div 2 ^ i)" by (simp add: bit_iff_odd)
    then have "unat w div 2 ^ i \<noteq> 0" by (metis even_zero)
    then show ?thesis by (meson div_less not_le)
  qed
  moreover have "(2 :: nat) ^ k \<le> 2 ^ i" using \<open>\<not> i < k\<close> by simp
  ultimately show False using assms(1) by linarith
qed

lemma of_le_le_bytes_small:
  fixes w :: "'a::len word"
  assumes "unat w < 2 ^ (8 * n)"
  shows "of_le (le_bytes n w) = w"
proof (rule bit_word_eqI)
  fix i
  assume i: "i < LENGTH('a)"
  show "bit (of_le (le_bytes n w) :: 'a word) i = bit w i"
  proof (cases "i < 8 * n")
    case True
    then have "i div 8 < n" by (simp add: less_mult_imp_div_less mult.commute)
    with True i show ?thesis
      by (simp add: bit_of_le nth_le_bytes bit_simps)
  next
    case False
    with bit_less_exp [OF assms, of i] show ?thesis by (auto simp: bit_of_le)
  qed
qed

lemma of_le_le_bytes [simp]:
  "LENGTH('a) \<le> 8 * n \<Longrightarrow> of_le (le_bytes n (w :: 'a::len word)) = w"
  by (rule of_le_le_bytes_small)
    (metis order_less_le_trans unsigned_less power_increasing_iff one_less_numeral_iff semiring_norm(76))

lemma of_be_be_bytes_small:
  "unat (w :: 'a::len word) < 2 ^ (8 * n) \<Longrightarrow> of_be (be_bytes n w) = w"
  by (simp add: be_bytes_def of_be_def of_le_le_bytes_small)

lemma le_bytes_of_le [simp]:
  "8 * length bs \<le> LENGTH('a) \<Longrightarrow> le_bytes (length bs) (of_le bs :: 'a::len word) = bs"
proof (rule nth_equalityI)
  fix i
  assume len: "8 * length bs \<le> LENGTH('a)"
    and i: "i < length (le_bytes (length bs) (of_le bs :: 'a word))"
  show "le_bytes (length bs) (of_le bs :: 'a word) ! i = bs ! i"
  proof (rule bit_word_eqI)
    fix j
    assume j: "j < LENGTH(8)"
    then have "(8 * i + j) div 8 = i" and "(8 * i + j) mod 8 = j" by simp_all
    with len i j show "bit (le_bytes (length bs) (of_le bs :: 'a word) ! i) j = bit (bs ! i) j"
      by (auto simp: nth_le_bytes bit_simps bit_of_le)
  qed
qed simp

lemma of_be_be_bytes [simp]:
  "LENGTH('a) \<le> 8 * n \<Longrightarrow> of_be (be_bytes n (w :: 'a::len word)) = w"
  by (simp add: be_bytes_def of_be_def)

lemma be_bytes_of_be [simp]:
  "8 * length bs \<le> LENGTH('a) \<Longrightarrow> be_bytes (length bs) (of_be bs :: 'a::len word) = bs"
  using le_bytes_of_le [of "rev bs", where 'a = 'a] by (simp add: be_bytes_def of_be_def)

lemma and_exp_eq_exp_iff:
  "n < LENGTH('a) \<Longrightarrow> w AND 2 ^ n = 2 ^ n \<longleftrightarrow> bit (w :: 'a::len word) n"
  by (auto intro!: bit_word_eqI simp: bit_simps dest: arg_cong [where f = "\<lambda>w. bit w n"])

lemma flag_mask:
  fixes w :: "'a::len word"
  assumes "k < LENGTH('a)" and "\<not> bit w k"
  shows "((if t then 2 ^ k else 0) OR w) AND NOT (2 ^ k) = w"
    and "((if t then 2 ^ k else 0) OR w) AND 2 ^ k = 2 ^ k \<longleftrightarrow> t"
proof -
  show "((if t then 2 ^ k else 0) OR w) AND NOT (2 ^ k) = w"
    by (rule bit_word_eqI) (use assms in \<open>auto simp: bit_simps\<close>)
  show "((if t then 2 ^ k else 0) OR w) AND 2 ^ k = 2 ^ k \<longleftrightarrow> t"
    by (subst and_exp_eq_exp_iff) (use assms in \<open>auto simp: bit_simps\<close>)
qed

lemma unat_less_exp_if_le:
  "w \<le> m \<Longrightarrow> unat m < 2 ^ k \<Longrightarrow> unat (w :: 'a::len word) < 2 ^ k"
  by (meson le_less_trans word_le_nat_alt)

section \<open>Results\<close>

text \<open>Rust's \<open>Result\<close>: \<open>Inl\<close> is \<open>Err\<close>, \<open>Inr\<close> is \<open>Ok\<close>; \<open>rbind\<close> is the \<open>?\<close> operator.\<close>

definition rbind :: "'e + 'a \<Rightarrow> ('a \<Rightarrow> 'e + 'b) \<Rightarrow> 'e + 'b" where
  "rbind r f = (case r of Inl e \<Rightarrow> Inl e | Inr a \<Rightarrow> f a)"

lemma rbind_simps [simp]:
  "rbind (Inl e) f = Inl e"
  "rbind (Inr a) f = f a"
  by (simp_all add: rbind_def)

lemma rbind_Inr_iff: "rbind r f = Inr b \<longleftrightarrow> (\<exists>a. r = Inr a \<and> f a = Inr b)"
  by (cases r) auto

definition map_err :: "('e \<Rightarrow> 'f) \<Rightarrow> 'e + 'a \<Rightarrow> 'f + 'a" where
  "map_err h r = (case r of Inl e \<Rightarrow> Inl (h e) | Inr a \<Rightarrow> Inr a)"

lemma map_err_simps [simp]:
  "map_err h (Inl e) = Inl (h e)"
  "map_err h (Inr a) = Inr a"
  by (simp_all add: map_err_def)

lemma map_err_Inr_iff [simp]: "map_err h r = Inr a \<longleftrightarrow> r = Inr a"
  by (cases r) auto

section \<open>The concurrent hash index\<close>

text \<open>
  The server keeps clients, channels, voice targets and the disconnect queue in \<open>scc::HashIndex\<close>
  (\<open>ConcurrentHashMap\<close> of \<open>server/constants.rs\<close>), a third-party container. The code relies on
  its documented contract: \<open>insert\<close> refuses a key that is present (it never overwrites),
  \<open>remove\<close> deletes a key, \<open>get\<close>, \<open>peek\<close> and \<open>contains\<close> look one up, and an iteration visits every
  entry once, in an order the caller does not control. The contract is the locale \<open>hash_index\<close>.
  A state of the model holds the index as an association list with distinct keys, the list order
  being the iteration order. A theorem about every state is therefore about every iteration order.
\<close>

type_synonym ('k, 'v) hindex = "('k \<times> 'v) list"

definition hi_wf :: "('k, 'v) hindex \<Rightarrow> bool" where
  "hi_wf m \<longleftrightarrow> distinct (map fst m)"

definition hi_get :: "('k, 'v) hindex \<Rightarrow> 'k \<Rightarrow> 'v option" where
  "hi_get m k = map_of m k"

definition hi_contains :: "('k, 'v) hindex \<Rightarrow> 'k \<Rightarrow> bool" where
  "hi_contains m k \<longleftrightarrow> hi_get m k \<noteq> None"

definition hi_insert :: "'k \<Rightarrow> 'v \<Rightarrow> ('k, 'v) hindex \<Rightarrow> ('k, 'v) hindex" where
  "hi_insert k v m = (if hi_contains m k then m else m @ [(k, v)])"

definition hi_remove :: "'k \<Rightarrow> ('k, 'v) hindex \<Rightarrow> ('k, 'v) hindex" where
  "hi_remove k m = filter (\<lambda>(k', v). k' \<noteq> k) m"

text \<open>In-place mutation of the object an entry refers to.\<close>

definition hi_modify :: "'k \<Rightarrow> ('v \<Rightarrow> 'v) \<Rightarrow> ('k, 'v) hindex \<Rightarrow> ('k, 'v) hindex" where
  "hi_modify k f m = map (\<lambda>(k', v). (k', if k' = k then f v else v)) m"

text \<open>\<open>HashMap::insert\<close> of the standard library, which does overwrite.\<close>

definition hm_put :: "'k \<Rightarrow> 'v \<Rightarrow> ('k, 'v) hindex \<Rightarrow> ('k, 'v) hindex" where
  "hm_put k v m = (if hi_contains m k then hi_modify k (\<lambda>_. v) m else m @ [(k, v)])"

text \<open>\<open>retain\<close> keeps the entries that satisfy a predicate.\<close>

definition hi_retain :: "('k \<Rightarrow> 'v \<Rightarrow> bool) \<Rightarrow> ('k, 'v) hindex \<Rightarrow> ('k, 'v) hindex" where
  "hi_retain p m = filter (\<lambda>(k, v). p k v) m"

lemma hi_wf_distinct: "hi_wf m \<Longrightarrow> distinct (map fst m)"
  by (simp add: hi_wf_def)

lemma hi_wf_Nil [simp, index_wf]: "hi_wf []"
  by (simp add: hi_wf_def)

lemma hi_get_Nil [simp, index_simps]: "hi_get [] k = None"
  by (simp add: hi_get_def)

lemma hi_get_insert [index_simps]:
  "hi_get (hi_insert k v m) k' =
     (if k' = k \<and> hi_get m k = None then Some v else hi_get m k')"
  by (auto simp: hi_get_def hi_insert_def hi_contains_def map_add_def split: option.splits)

lemma hi_get_remove [index_simps]:
  "hi_get (hi_remove k m) k' = (if k' = k then None else hi_get m k')"
  by (induction m) (auto simp: hi_get_def hi_remove_def)

lemma hi_get_modify [index_simps]:
  "hi_get (hi_modify k f m) k' = (if k' = k then map_option f (hi_get m k) else hi_get m k')"
  by (induction m) (auto simp: hi_get_def hi_modify_def)

lemma map_fst_modify [simp]: "map fst (hi_modify k f m) = map fst m"
  by (auto simp: hi_modify_def)

lemma length_hi_modify [simp]: "length (hi_modify k f m) = length m"
  by (simp add: hi_modify_def)

lemma hi_get_eq_Some_iff: "hi_wf m \<Longrightarrow> hi_get m k = Some v \<longleftrightarrow> (k, v) \<in> set m"
  by (simp add: hi_get_def hi_wf_def map_of_eq_Some_iff)

lemma hi_get_eq_None_iff: "hi_get m k = None \<longleftrightarrow> k \<notin> fst ` set m"
  by (simp add: hi_get_def map_of_eq_None_iff)

lemma hi_get_SomeD: "hi_get m k = Some v \<Longrightarrow> (k, v) \<in> set m"
  by (simp add: hi_get_def map_of_SomeD)

lemma hi_wf_insert [index_wf]: "hi_wf m \<Longrightarrow> hi_wf (hi_insert k v m)"
  by (auto simp: hi_wf_def hi_insert_def hi_contains_def hi_get_def map_of_eq_None_iff)

lemma hi_wf_remove [index_wf]: "hi_wf m \<Longrightarrow> hi_wf (hi_remove k m)"
  by (auto simp: hi_wf_def hi_remove_def distinct_map_filter)

lemma hi_wf_modify [index_wf]: "hi_wf m \<Longrightarrow> hi_wf (hi_modify k f m)"
  by (simp add: hi_wf_def)

lemma hi_get_put [index_simps]: "hi_get (hm_put k v m) k' = (if k' = k then Some v else hi_get m k')"
  by (auto simp: hm_put_def hi_get_modify hi_contains_def) (auto simp: hi_get_def map_add_def split: option.splits)

lemma hi_wf_put [index_wf]: "hi_wf m \<Longrightarrow> hi_wf (hm_put k v m)"
  by (auto simp: hm_put_def hi_wf_modify) (auto simp: hi_wf_def hi_contains_def hi_get_eq_None_iff)

lemma hi_wf_retain [index_wf]: "hi_wf m \<Longrightarrow> hi_wf (hi_retain p m)"
  by (auto simp: hi_wf_def hi_retain_def distinct_map_filter)

lemma hi_get_retain [index_simps]:
  "hi_wf m \<Longrightarrow> hi_get (hi_retain p m) k = (case hi_get m k of Some v \<Rightarrow> if p k v then Some v else None | None \<Rightarrow> None)"
  by (induction m) (auto simp: hi_wf_def hi_get_def hi_retain_def split: option.splits
      dest: map_of_SomeD intro: rev_image_eqI)

lemma length_hi_retain_le: "length (hi_retain p m) \<le> length m"
  by (simp add: hi_retain_def)

lemma hi_remove_absent: "\<not> hi_contains m k \<Longrightarrow> hi_remove k m = m"
  by (force simp: hi_contains_def hi_get_eq_None_iff hi_remove_def intro: filter_True)

locale hash_index =
  fixes emp :: 'm
    and ins :: "'k \<Rightarrow> 'v \<Rightarrow> 'm \<Rightarrow> 'm"
    and rem :: "'k \<Rightarrow> 'm \<Rightarrow> 'm"
    and look :: "'m \<Rightarrow> 'k \<Rightarrow> 'v option"
    and entries :: "'m \<Rightarrow> ('k \<times> 'v) list"
    and wf :: "'m \<Rightarrow> bool"
  assumes wf_emp: "wf emp"
    and wf_ins: "wf m \<Longrightarrow> wf (ins k v m)"
    and wf_rem: "wf m \<Longrightarrow> wf (rem k m)"
    and look_emp: "look emp k = None"
    and look_ins: "wf m \<Longrightarrow> look (ins k v m) k' =
          (if k' = k \<and> look m k = None then Some v else look m k')"
    and look_rem: "wf m \<Longrightarrow> look (rem k m) k' = (if k' = k then None else look m k')"
    and entries_look: "wf m \<Longrightarrow> (k, v) \<in> set (entries m) \<longleftrightarrow> look m k = Some v"
    and entries_once: "wf m \<Longrightarrow> distinct (map fst (entries m))"
begin

text \<open>An iteration meets each key once, so its length is the number of keys.\<close>

lemma length_entries:
  assumes "wf m"
  shows "length (entries m) = card (dom (look m))"
proof -
  have "dom (look m) = fst ` set (entries m)"
    using entries_look [OF assms] by (force simp: dom_def)
  then have "dom (look m) = set (map fst (entries m))" by simp
  with entries_once [OF assms] show ?thesis
    by (metis distinct_card length_map)
qed

lemma finite_dom: "wf m \<Longrightarrow> finite (dom (look m))"
proof -
  assume "wf m"
  then have "dom (look m) = fst ` set (entries m)"
    using entries_look by (force simp: dom_def)
  then show ?thesis by simp
qed

lemma length_entries_ins:
  assumes "wf m"
  shows "length (entries (ins k v m)) =
    (if look m k = None then Suc (length (entries m)) else length (entries m))"
proof (cases "look m k")
  case None
  then have "dom (look (ins k v m)) = insert k (dom (look m))"
    using look_ins [OF assms] by (auto simp: dom_def)
  with None show ?thesis
    using finite_dom [OF assms] by (simp add: length_entries assms wf_ins domIff)
next
  case (Some a)
  then have "look (ins k v m) = look m"
    using look_ins [OF assms] by auto
  with Some show ?thesis
    by (simp add: length_entries assms wf_ins)
qed

lemma length_entries_rem:
  assumes "wf m"
  shows "length (entries (rem k m)) =
    (if look m k = None then length (entries m) else length (entries m) - 1)"
proof -
  have "dom (look (rem k m)) = dom (look m) - {k}"
    using look_rem [OF assms] by (auto simp: dom_def)
  then show ?thesis
    using finite_dom [OF assms]
    by (simp add: length_entries assms wf_rem domIff card_Diff_singleton_if)
qed

lemma entries_pos: "wf m \<Longrightarrow> look m k \<noteq> None \<Longrightarrow> 0 < length (entries m)"
  using entries_look by fastforce

end

interpretation hx: hash_index "[]" hi_insert hi_remove hi_get "\<lambda>m. m" hi_wf
  by unfold_locales
    (auto simp: index_simps hi_get_eq_Some_iff hi_wf_distinct intro: index_wf)

lemmas hi_length_insert = hx.length_entries_ins
lemmas hi_length_remove = hx.length_entries_rem

end
