(* ===== verification/Varint.thy ===== *)
theory Varint
  imports Prelude
begin

text \<open>
  Mumble's variable-length integers (\<open>varint.rs\<close>). A reader is a byte string; reading returns the
  value and the bytes left over, or the I/O error of an exhausted reader.
\<close>

section \<open>Reading and writing\<close>

datatype io_error = UnexpectedEof | InvalidData | OtherError

text \<open>\<open>ReadBytesExt::read_u8\<close> of a cursor.\<close>

fun read_u8 :: "bytes \<Rightarrow> io_error + u8 \<times> bytes" where
  "read_u8 [] = Inl UnexpectedEof"
| "read_u8 (b # bs) = Inr (b, bs)"

lemma read_u8_shorter [termination_simp]: "read_u8 bs = Inr (b, r) \<Longrightarrow> length r < length bs"
  by (cases bs) auto

fun read_varint :: "bytes \<Rightarrow> io_error + u64 \<times> bytes" where
  "read_varint bs0 =
    (case read_u8 bs0 of Inl e \<Rightarrow> Inl e | Inr (b0, bs1) \<Rightarrow>
     if b0 AND 0xFC = 0xF8 then
       (case read_varint bs1 of Inl e \<Rightarrow> Inl e | Inr (v, r) \<Rightarrow> Inr (NOT v, r))
     else if b0 AND 0xFC = 0xFC then Inr (NOT (ucast (b0 AND 0x03)), bs1)
     else if b0 AND 0x80 = 0 then Inr (ucast (b0 AND 0x7F), bs1)
     else rbind (read_u8 bs1) (\<lambda>(b1, bs2).
       if b0 AND 0x40 = 0 then
         Inr (push_bit 8 (ucast (b0 AND 0x3F)) OR ucast b1, bs2)
       else rbind (read_u8 bs2) (\<lambda>(b2, bs3).
         if b0 AND 0x20 = 0 then
           Inr (push_bit 16 (ucast (b0 AND 0x1F)) OR push_bit 8 (ucast b1) OR ucast b2, bs3)
         else rbind (read_u8 bs3) (\<lambda>(b3, bs4).
           if b0 AND 0x10 = 0 then
             Inr (push_bit 24 (ucast (b0 AND 0x0F)) OR push_bit 16 (ucast b1)
                    OR push_bit 8 (ucast b2) OR ucast b3, bs4)
           else rbind (read_u8 bs4) (\<lambda>(b4, bs5).
             if b0 AND 0x04 = 0 then
               Inr (push_bit 24 (ucast b1) OR push_bit 16 (ucast b2)
                      OR push_bit 8 (ucast b3) OR ucast b4, bs5)
             else rbind (read_u8 bs5) (\<lambda>(b5, bs6). rbind (read_u8 bs6) (\<lambda>(b6, bs7).
                  rbind (read_u8 bs7) (\<lambda>(b7, bs8). rbind (read_u8 bs8) (\<lambda>(b8, bs9).
               Inr (push_bit 56 (ucast b1) OR push_bit 48 (ucast b2) OR push_bit 40 (ucast b3)
                      OR push_bit 32 (ucast b4) OR push_bit 24 (ucast b5) OR push_bit 16 (ucast b6)
                      OR push_bit 8 (ucast b7) OR ucast b8, bs9))))))))))"

declare read_varint.simps [simp del]

text \<open>Writing returns the bytes appended to the writer, which never fails (\<open>put_varint\<close>).\<close>

function write_varint :: "u64 \<Rightarrow> bytes" where
  "write_varint v =
    (if v AND 0xFFFFFFFFFFFFFFFC = 0xFFFFFFFFFFFFFFFC then [0xFC OR ucast (NOT v)]
     else if v AND 0x8000000000000000 = 0x8000000000000000 then 0xF8 # write_varint (NOT v)
     else if v > 0xFFFFFFFF then
       [0xF4, ucast (drop_bit 56 v), ucast (drop_bit 48 v), ucast (drop_bit 40 v),
        ucast (drop_bit 32 v), ucast (drop_bit 24 v), ucast (drop_bit 16 v),
        ucast (drop_bit 8 v), ucast v]
     else if v > 0x0FFFFFFF then
       [0xF0, ucast (drop_bit 24 v), ucast (drop_bit 16 v), ucast (drop_bit 8 v), ucast v]
     else if v > 0x001FFFFF then
       [0xE0 OR ucast (drop_bit 24 v), ucast (drop_bit 16 v), ucast (drop_bit 8 v), ucast v]
     else if v > 0x00003FFF then
       [0xC0 OR ucast (drop_bit 16 v), ucast (drop_bit 8 v), ucast v]
     else if v > 0x0000007F then [0x80 OR ucast (drop_bit 8 v), ucast v]
     else [ucast v])"
  by pat_completeness auto

text \<open>The top bit, which the second branch tests; complementing clears it, so the recursion is one deep.\<close>

lemma top_bit_iff: "v AND 0x8000000000000000 = 0x8000000000000000 \<longleftrightarrow> bit (v :: u64) 63"
  using and_exp_eq_exp_iff [of 63 v] by simp

termination write_varint
  by (relation "measure (\<lambda>v. of_bool (bit v 63))") (auto simp: top_bit_iff bit_simps)

declare write_varint.simps [simp del]

section \<open>Control bits of the first byte\<close>

lemma all_less_8: "(\<forall>n<8. P n) \<longleftrightarrow> P 0 \<and> P 1 \<and> P 2 \<and> P 3 \<and> P 4 \<and> P 5 \<and> P 6 \<and> P (7::nat)"
  by (simp add: numeral_eq_Suc All_less_Suc conj_ac)

lemma u8_eq_iff: "(a :: u8) = b \<longleftrightarrow> (\<forall>n<8. bit a n = bit b n)"
  by (auto intro: bit_word_eqI)

lemma u8_masks:
  fixes b :: u8
  shows "b AND 0xFC = 0xF8 \<longleftrightarrow> bit b 7 \<and> bit b 6 \<and> bit b 5 \<and> bit b 4 \<and> bit b 3 \<and> \<not> bit b 2"
    and "b AND 0xFC = 0xFC \<longleftrightarrow> bit b 7 \<and> bit b 6 \<and> bit b 5 \<and> bit b 4 \<and> bit b 3 \<and> bit b 2"
    and "b AND 0x80 = 0 \<longleftrightarrow> \<not> bit b 7"
    and "b AND 0x40 = 0 \<longleftrightarrow> \<not> bit b 6"
    and "b AND 0x20 = 0 \<longleftrightarrow> \<not> bit b 5"
    and "b AND 0x10 = 0 \<longleftrightarrow> \<not> bit b 4"
    and "b AND 0x04 = 0 \<longleftrightarrow> \<not> bit b 2"
  by (auto simp: u8_eq_iff all_less_8 bit_simps)

lemma NOT_small_mask: "v AND 0xFFFFFFFFFFFFFFFC = 0xFFFFFFFFFFFFFFFC \<longleftrightarrow> (\<forall>n<64. 2 \<le> n \<longrightarrow> bit (v :: u64) n)"
proof -
  have m: "(0xFFFFFFFFFFFFFFFC :: u64) = NOT (mask 2)"
    by (simp add: mask_numeral)
  show ?thesis
    unfolding m by (auto simp: bit_eq_iff bit_simps)
qed

section \<open>Round trip\<close>

text \<open>The shifted sums of the reader are big-endian readings.\<close>

lemmas be_unfold = of_be_def push_bit_or push_bit_push_bit

lemma be_reading:
  "push_bit 8 (ucast b0) OR ucast b1 = (of_be [b0, b1] :: u64)"
  "push_bit 16 (ucast b0) OR push_bit 8 (ucast b1) OR ucast b2 = (of_be [b0, b1, b2] :: u64)"
  "push_bit 24 (ucast b0) OR push_bit 16 (ucast b1) OR push_bit 8 (ucast b2) OR ucast b3
     = (of_be [b0, b1, b2, b3] :: u64)"
  "push_bit 56 (ucast b0) OR push_bit 48 (ucast b1) OR push_bit 40 (ucast b2) OR push_bit 32 (ucast b3)
     OR push_bit 24 (ucast b4) OR push_bit 16 (ucast b5) OR push_bit 8 (ucast b6) OR ucast b7
     = (of_be [b0, b1, b2, b3, b4, b5, b6, b7] :: u64)"
  by (simp_all add: be_unfold or.commute or.left_commute)

text \<open>The payload bits of the first byte, with the length prefix masked off again.\<close>

lemma prefix_payload:
  fixes v :: u64
  shows "\<forall>i. bit v i \<longrightarrow> i < 28 \<Longrightarrow> (0xE0 OR ucast (drop_bit 24 v) :: u8) AND 0x0F = ucast (drop_bit 24 v)"
    and "\<forall>i. bit v i \<longrightarrow> i < 21 \<Longrightarrow> (0xC0 OR ucast (drop_bit 16 v) :: u8) AND 0x1F = ucast (drop_bit 16 v)"
    and "\<forall>i. bit v i \<longrightarrow> i < 14 \<Longrightarrow> (0x80 OR ucast (drop_bit 8 v) :: u8) AND 0x3F = ucast (drop_bit 8 v)"
    and "\<forall>i. bit v i \<longrightarrow> i < 7 \<Longrightarrow> (ucast v :: u8) AND 0x7F = ucast v"
  by (force simp: u8_eq_iff all_less_8 bit_simps)+

lemma prefix_bits:
  fixes v :: u64
  shows "\<forall>i. bit v i \<longrightarrow> i < 28 \<Longrightarrow> \<not> bit (0xE0 OR ucast (drop_bit 24 v) :: u8) 4"
    and "\<forall>i. bit v i \<longrightarrow> i < 21 \<Longrightarrow> \<not> bit (0xC0 OR ucast (drop_bit 16 v) :: u8) 5"
    and "\<forall>i. bit v i \<longrightarrow> i < 14 \<Longrightarrow> \<not> bit (0x80 OR ucast (drop_bit 8 v) :: u8) 6"
    and "\<forall>i. bit v i \<longrightarrow> i < 7 \<Longrightarrow> \<not> bit (ucast v :: u8) 7"
  by (force simp: bit_simps)+

lemma prefix_ones:
  "bit (0xE0 OR x :: u8) 7" "bit (0xE0 OR x :: u8) 6" "bit (0xE0 OR x :: u8) 5"
  "bit (0xC0 OR x :: u8) 7" "bit (0xC0 OR x :: u8) 6" "bit (0x80 OR x :: u8) 7"
  by (simp_all add: bit_simps)

lemma bits_below:
  fixes v :: u64
  shows "\<not> v > 0xFFFFFFFF \<Longrightarrow> \<forall>i. bit v i \<longrightarrow> i < 32"
    and "\<not> v > 0x0FFFFFFF \<Longrightarrow> \<forall>i. bit v i \<longrightarrow> i < 28"
    and "\<not> v > 0x001FFFFF \<Longrightarrow> \<forall>i. bit v i \<longrightarrow> i < 21"
    and "\<not> v > 0x00003FFF \<Longrightarrow> \<forall>i. bit v i \<longrightarrow> i < 14"
    and "\<not> v > 0x0000007F \<Longrightarrow> \<forall>i. bit v i \<longrightarrow> i < 7"
  using bit_less_exp [of v 32] bit_less_exp [of v 28] bit_less_exp [of v 21]
    bit_less_exp [of v 14] bit_less_exp [of v 7]
  by (auto simp: not_less word_le_nat_alt)

lemma of_be_be_bytes_u64:
  fixes v :: u64
  shows "\<forall>i. bit v i \<longrightarrow> i < 8 * n \<Longrightarrow> of_be (be_bytes n v) = v"
  by (rule bit_word_eqI)
    (auto simp: be_bytes_def of_be_def bit_of_le nth_le_bytes bit_simps less_mult_imp_div_less mult.commute)

lemma be_list_u64:
  fixes v :: u64
  shows "\<forall>i. bit v i \<longrightarrow> i < 8 \<Longrightarrow> of_be [ucast v] = v"
    and "\<forall>i. bit v i \<longrightarrow> i < 16 \<Longrightarrow> of_be [ucast (drop_bit 8 v), ucast v] = v"
    and "\<forall>i. bit v i \<longrightarrow> i < 24 \<Longrightarrow> of_be [ucast (drop_bit 16 v), ucast (drop_bit 8 v), ucast v] = v"
    and "\<forall>i. bit v i \<longrightarrow> i < 32 \<Longrightarrow>
      of_be [ucast (drop_bit 24 v), ucast (drop_bit 16 v), ucast (drop_bit 8 v), ucast v] = v"
    and "of_be [ucast (drop_bit 56 v), ucast (drop_bit 48 v), ucast (drop_bit 40 v), ucast (drop_bit 32 v),
      ucast (drop_bit 24 v), ucast (drop_bit 16 v), ucast (drop_bit 8 v), ucast v] = v"
  using of_be_be_bytes_u64 [of v 1] of_be_be_bytes_u64 [of v 2] of_be_be_bytes_u64 [of v 3]
    of_be_be_bytes_u64 [of v 4] of_be_be_bytes [of 8 v]
  by (simp_all add: be_bytes_def numeral_eq_Suc)

text \<open>What the reader does on each length prefix.\<close>

lemma read_varint_1:
  "\<not> bit b0 7 \<Longrightarrow> read_varint (b0 # r) = Inr (ucast (b0 AND 0x7F), r)"
  by (simp add: read_varint.simps u8_masks)

lemma read_varint_2:
  "bit b0 7 \<Longrightarrow> \<not> bit b0 6 \<Longrightarrow> read_varint (b0 # b1 # r) = Inr (of_be [b0 AND 0x3F, b1], r)"
  by (simp add: read_varint.simps u8_masks be_reading(1))

lemma read_varint_3:
  "bit b0 7 \<Longrightarrow> bit b0 6 \<Longrightarrow> \<not> bit b0 5 \<Longrightarrow>
   read_varint (b0 # b1 # b2 # r) = Inr (of_be [b0 AND 0x1F, b1, b2], r)"
  by (simp add: read_varint.simps u8_masks be_reading(2))

lemma read_varint_4:
  "bit b0 7 \<Longrightarrow> bit b0 6 \<Longrightarrow> bit b0 5 \<Longrightarrow> \<not> bit b0 4 \<Longrightarrow>
   read_varint (b0 # b1 # b2 # b3 # r) = Inr (of_be [b0 AND 0x0F, b1, b2, b3], r)"
  by (simp add: read_varint.simps u8_masks be_reading(3))

lemma read_varint_5: "read_varint (0xF0 # b1 # b2 # b3 # b4 # r) = Inr (of_be [b1, b2, b3, b4], r)"
  by (simp add: read_varint.simps be_reading(3))

lemma read_varint_9:
  "read_varint (0xF4 # b1 # b2 # b3 # b4 # b5 # b6 # b7 # b8 # r) =
     Inr (of_be [b1, b2, b3, b4, b5, b6, b7, b8], r)"
  by (simp add: read_varint.simps be_reading(4))

lemma read_varint_complement:
  "read_varint (0xF8 # r) = (case read_varint r of Inl e \<Rightarrow> Inl e | Inr (v, r') \<Rightarrow> Inr (NOT v, r'))"
  by (subst read_varint.simps) simp

lemma read_varint_small_negative:
  "bit b0 7 \<Longrightarrow> bit b0 6 \<Longrightarrow> bit b0 5 \<Longrightarrow> bit b0 4 \<Longrightarrow> bit b0 3 \<Longrightarrow> bit b0 2 \<Longrightarrow>
   read_varint (b0 # r) = Inr (NOT (ucast (b0 AND 0x03)), r)"
  by (simp add: read_varint.simps u8_masks)

lemma not_above: "\<not> v > a \<Longrightarrow> a \<le> b \<Longrightarrow> \<not> v > (b :: u64)"
  by simp

text \<open>A value without the top bit, on each of the six lengths.\<close>

lemma read_write_varint_pos:
  assumes "\<not> bit v 63"
  shows "read_varint (write_varint v @ r) = Inr (v, r)"
proof -
  have n1: "\<not> v AND 0xFFFFFFFFFFFFFFFC = 0xFFFFFFFFFFFFFFFC"
    unfolding NOT_small_mask using assms by (auto intro!: exI [of _ 63])
  note w = write_varint.simps [of v] n1 top_bit_iff assms
  consider (c8) "v > 0xFFFFFFFF"
    | (c4) "\<not> v > 0xFFFFFFFF" "v > 0x0FFFFFFF"
    | (c3) "\<not> v > 0x0FFFFFFF" "v > 0x001FFFFF"
    | (c2) "\<not> v > 0x001FFFFF" "v > 0x00003FFF"
    | (c1) "\<not> v > 0x00003FFF" "v > 0x0000007F"
    | (c0) "\<not> v > 0x0000007F"
    by blast
  then show ?thesis
  proof cases
    case c8
    then show ?thesis by (simp add: w read_varint_9 be_list_u64(5))
  next
    case c4
    with bits_below(1) show ?thesis by (simp add: w read_varint_5 be_list_u64(4))
  next
    case c3
    note b = bits_below(2) [OF c3(1)]
    then have "\<forall>i. bit v i \<longrightarrow> i < 32" by auto
    moreover from not_above [OF c3(1)] have "\<not> v > 0xFFFFFFFF" by simp_all
    ultimately show ?thesis
      using c3 b by (simp add: w read_varint_4 prefix_ones prefix_bits prefix_payload be_list_u64(4))
  next
    case c2
    note b = bits_below(3) [OF c2(1)]
    then have "\<forall>i. bit v i \<longrightarrow> i < 24" by auto
    moreover from not_above [OF c2(1)] have "\<not> v > 0xFFFFFFFF" "\<not> v > 0x0FFFFFFF" by simp_all
    ultimately show ?thesis
      using c2 b by (simp add: w read_varint_3 prefix_ones prefix_bits prefix_payload be_list_u64(3))
  next
    case c1
    note b = bits_below(4) [OF c1(1)]
    then have "\<forall>i. bit v i \<longrightarrow> i < 16" by auto
    moreover from not_above [OF c1(1)] have "\<not> v > 0xFFFFFFFF" "\<not> v > 0x0FFFFFFF" "\<not> v > 0x001FFFFF" by simp_all
    ultimately show ?thesis
      using c1 b by (simp add: w read_varint_2 prefix_ones prefix_bits prefix_payload be_list_u64(2))
  next
    case c0
    note b = bits_below(5) [OF c0]
    then have "\<forall>i. bit v i \<longrightarrow> i < 8" by auto
    from be_list_u64(1) [OF this] have "ucast (ucast v :: u8) = v" by (simp add: of_be_def)
    moreover from not_above [OF c0] have "\<not> v > 0xFFFFFFFF" "\<not> v > 0x0FFFFFFF" "\<not> v > 0x001FFFFF" "\<not> v > 0x00003FFF" by simp_all
    ultimately show ?thesis
      using c0 b by (simp add: w read_varint_1 prefix_bits prefix_payload)
  qed
qed

lemma varint_round_trip: "read_varint (write_varint v @ r) = Inr (v, r)"
proof -
  consider (small) "v AND 0xFFFFFFFFFFFFFFFC = 0xFFFFFFFFFFFFFFFC"
    | (neg) "\<not> v AND 0xFFFFFFFFFFFFFFFC = 0xFFFFFFFFFFFFFFFC" "bit v 63"
    | (pos) "\<not> bit v 63"
    by blast
  then show ?thesis
  proof cases
    case small
    let ?b = "0xFC OR ucast (NOT v) :: u8"
    from small have high: "\<forall>n<64. 2 \<le> n \<longrightarrow> bit v n" by (simp add: NOT_small_mask)
    have "?b AND 0x03 = ucast (NOT v)"
      using high by (simp add: u8_eq_iff all_less_8 bit_simps)
    moreover have "ucast (ucast (NOT v) :: u8) = NOT v"
      using high by (intro bit_word_eqI) (auto simp: bit_simps not_less)
    ultimately show ?thesis
      using small by (simp add: write_varint.simps [of v] read_varint_small_negative bit_simps)
  next
    case neg
    have "\<not> bit (NOT v) 63" using neg by (simp add: bit_simps)
    then have "read_varint (write_varint (NOT v) @ r) = Inr (NOT v, r)" by (rule read_write_varint_pos)
    with neg show ?thesis
      by (simp add: write_varint.simps [of v] top_bit_iff read_varint_complement)
  next
    case pos
    then show ?thesis by (rule read_write_varint_pos)
  qed
qed

text \<open>
  C15: Reading back a written varint returns the value that was written, for every 64-bit value,
  and leaves exactly the bytes that follow it.
\<close>

theorem read_write_varint: "read_varint (write_varint v @ r) = Inr (v, r)"
  by (rule varint_round_trip)

text \<open>
  A written varint takes between one and ten bytes; ten is what \<open>encode_voice_packet\<close> reserves
  for the session id and for the sequence number.
\<close>

lemma length_write_varint: "1 \<le> length (write_varint v) \<and> length (write_varint v) \<le> 10"
proof -
  have pos: "1 \<le> length (write_varint w) \<and> length (write_varint w) \<le> 9" if "\<not> bit w 63" for w
  proof -
    have "\<not> w AND 0xFFFFFFFFFFFFFFFC = 0xFFFFFFFFFFFFFFFC"
      unfolding NOT_small_mask using that by (auto intro!: exI [of _ 63])
    with that show ?thesis by (simp add: write_varint.simps [of w] top_bit_iff)
  qed
  show ?thesis
  proof (cases "bit v 63")
    case True
    with pos [of "NOT v"] show ?thesis
      by (simp add: write_varint.simps [of v] top_bit_iff bit_simps)
  next
    case False
    with pos [of v] show ?thesis by simp
  qed
qed

text \<open>The reader takes a non-empty prefix of its input and fails only where the input ends.\<close>

lemma read_u8_split: "read_u8 bs = Inr (b, r) \<longleftrightarrow> bs = b # r"
  by (cases bs) auto

lemma read_u8_Inl: "read_u8 bs = Inl e \<longleftrightarrow> bs = [] \<and> e = UnexpectedEof"
  by (cases bs) auto

lemma read_varint_suffix:
  "read_varint bs = Inr (v, r) \<Longrightarrow> \<exists>p. p \<noteq> [] \<and> bs = p @ r"
proof (induction bs arbitrary: v r rule: length_induct)
  case (1 bs)
  then obtain b0 bs1 where bs: "bs = b0 # bs1"
    by (cases bs) (auto simp: read_varint.simps)
  show ?case
  proof (cases "b0 AND 0xFC = 0xF8")
    case True
    with "1.prems" bs obtain w where "read_varint bs1 = Inr (w, r)"
      by (auto simp: read_varint.simps [of "b0 # bs1"] split: sum.splits)
    with "1.IH" bs obtain p where "bs1 = p @ r" by fastforce
    with bs show ?thesis by (intro exI [of _ "b0 # p"]) simp
  next
    case False
    with "1.prems" bs show ?thesis
      by (auto simp: read_varint.simps [of "b0 # bs1"] rbind_Inr_iff read_u8_split Cons_eq_append_conv split: if_splits)
  qed
qed

end
