(* ===== verification/Voice.thy ===== *)
theory Voice
  imports Varint
begin

text \<open>
  The voice channel's packets and their codec (\<open>voice.rs\<close>). The direction of a packet, a type
  parameter of the source, is a record of its two trait functions: reading and writing the session
  id, which server-bound packets do not carry.
\<close>

section \<open>Packets\<close>

text \<open>\<open>error.rs\<close>: why a voice packet is refused.\<close>

datatype decrypt_error = Io io_error | Eof | Repeat | Late | Mac

datatype voice_packet_payload =
    CeltAlpha "bytes list"
  | CeltBeta "bytes list"
  | Speex "bytes list"
  | Opus bytes bool

datatype 'sid voice_packet =
    Ping u64
  | Audio (target: u8) (session_id: 'sid) (seq_num: u64) (payload: voice_packet_payload)
      (position_info: "bytes option")

record 'sid voice_packet_dst =
  read_session_id :: "bytes \<Rightarrow> io_error + 'sid \<times> bytes"
  write_session_id :: "'sid \<Rightarrow> bytes"

definition server_bound :: "unit voice_packet_dst" where
  "server_bound = \<lparr>read_session_id = (\<lambda>buf. Inr ((), buf)), write_session_id = (\<lambda>_. [])\<rparr>"

definition client_bound :: "u32 voice_packet_dst" where
  "client_bound = \<lparr>
     read_session_id = (\<lambda>buf. rbind (read_varint buf) (\<lambda>(var_int, r). Inr (ucast var_int, r))),
     write_session_id = (\<lambda>session_id. write_varint (ucast session_id))\<rparr>"

fun into_client_bound :: "unit voice_packet \<Rightarrow> u32 \<Rightarrow> bool \<Rightarrow> u32 voice_packet" where
  "into_client_bound (Ping timestamp) sid remove_positional_data = Ping timestamp"
| "into_client_bound (Audio tgt _ seq pl pos) sid remove_positional_data =
     Audio tgt sid seq pl (if remove_positional_data then None else pos)"

section \<open>Decoding\<close>

text \<open>The frame loop of the CELT and Speex kinds; \<open>frames\<close> is the vector filled so far.\<close>

function decode_frames :: "bytes list \<Rightarrow> bytes \<Rightarrow> decrypt_error + bytes list \<times> bytes" where
  "decode_frames frames [] = Inl Eof"
| "decode_frames frames (header # buf) =
     (let len = unat (header AND NOT 0x80) in
      if length buf < len then Inl Eof
      else
        let frames = frames @ [take len buf]; buf = drop len buf in
        if header AND 0x80 \<noteq> 0x80 then Inr (frames, buf) else decode_frames frames buf)"
  by pat_completeness auto
termination
  by (relation "measure (\<lambda>(_, buf). length buf)") auto

definition decode_payload :: "u8 \<Rightarrow> bytes \<Rightarrow> decrypt_error + voice_packet_payload \<times> bytes" where
  "decode_payload kind buf =
     (if kind = 0 \<or> kind = 2 \<or> kind = 3 then
        rbind (decode_frames [] buf) (\<lambda>(frames, rest).
          Inr (if kind = 0 then CeltAlpha frames
               else if kind = 2 then Speex frames else CeltBeta frames, rest))
      else if kind = 4 then
        rbind (map_err Io (read_varint buf)) (\<lambda>(header, rest).
          let termination_bit = (header AND 0x2000 = 0x2000);
              len = unat (header AND NOT 0x2000)
          in if length rest < len then Inl Eof
             else Inr (Opus (take len rest) termination_bit, drop len rest))
      else Inl (Io InvalidData))"

definition decode_voice_packet ::
    "'sid voice_packet_dst \<Rightarrow> bytes \<Rightarrow> decrypt_error + 'sid voice_packet" where
  "decode_voice_packet dst buf_mut =
     rbind (map_err Io (read_u8 buf_mut)) (\<lambda>(header, buf).
       let kind = drop_bit 5 header; tgt = header AND 0x1F in
       if kind = 1 then
         rbind (map_err Io (read_varint buf)) (\<lambda>(timestamp, _). Inr (Ping timestamp))
       else
         rbind (map_err Io (read_session_id dst buf)) (\<lambda>(sid, buf).
         rbind (map_err Io (read_varint buf)) (\<lambda>(seq, buf).
         rbind (decode_payload kind buf) (\<lambda>(pl, rest).
           Inr (Audio tgt sid seq pl (if rest = [] then None else Some rest))))))"

section \<open>Encoding\<close>

fun encode_frames :: "bytes list \<Rightarrow> bytes" where
  "encode_frames [] = []"
| "encode_frames (frame # iter) =
     (let continuation = (if iter = [] then 0 else 0x80 :: u8) in
      (continuation OR word_of_nat (length frame)) # frame @ encode_frames iter)"

fun payload_kind :: "voice_packet_payload \<Rightarrow> u8" where
  "payload_kind (CeltAlpha _) = 0"
| "payload_kind (Speex _) = 2"
| "payload_kind (CeltBeta _) = 3"
| "payload_kind (Opus _ _) = 4"

fun encode_payload :: "voice_packet_payload \<Rightarrow> bytes" where
  "encode_payload (CeltAlpha frames) = encode_frames frames"
| "encode_payload (Speex frames) = encode_frames frames"
| "encode_payload (CeltBeta frames) = encode_frames frames"
| "encode_payload (Opus frame termination_bit) =
     (let term_bit = (if termination_bit then 0x2000 else 0 :: u64) in
      write_varint (term_bit OR word_of_nat (length frame)) @ frame)"

fun encode_voice_packet :: "'sid voice_packet_dst \<Rightarrow> 'sid voice_packet \<Rightarrow> bytes" where
  "encode_voice_packet dst (Ping timestamp) = 0x20 # write_varint timestamp"
| "encode_voice_packet dst (Audio tgt sid seq pl pos) =
     (push_bit 5 (payload_kind pl) OR (tgt AND 0x1F)) #
     write_session_id dst sid @ write_varint seq @ encode_payload pl @
     (case pos of None \<Rightarrow> [] | Some bs \<Rightarrow> bs)"

section \<open>Well-formed packets\<close>

text \<open>
  The packets that the wire format can carry: a target of five bits, at least one frame and frames
  of at most 127 bytes, an Opus frame whose length does not use the bit of the termination flag,
  and positional data that is absent or not empty.
\<close>

definition wf_frames :: "bytes list \<Rightarrow> bool" where
  "wf_frames frames \<longleftrightarrow> frames \<noteq> [] \<and> (\<forall>f \<in> set frames. length f < 128)"

fun wf_payload :: "voice_packet_payload \<Rightarrow> bool" where
  "wf_payload (CeltAlpha frames) = wf_frames frames"
| "wf_payload (Speex frames) = wf_frames frames"
| "wf_payload (CeltBeta frames) = wf_frames frames"
| "wf_payload (Opus frame _) = (length frame < 2 ^ 64 \<and> \<not> bit (length frame) 13)"

fun wf_packet :: "'sid voice_packet \<Rightarrow> bool" where
  "wf_packet (Ping _) = True"
| "wf_packet (Audio tgt _ _ pl pos) = (tgt < 32 \<and> wf_payload pl \<and> pos \<noteq> Some [])"

section \<open>Headers\<close>

lemma kind_bits: "payload_kind pl \<in> {0, 2, 3, 4}"
  by (cases pl) auto

lemma header_kind:
  "k \<in> {0, 2, 3, 4 :: u8} \<Longrightarrow> drop_bit 5 (push_bit 5 k OR (t AND 0x1F)) = k"
  by (auto simp: u8_eq_iff all_less_8 bit_simps)

lemma target_bits: "(t :: u8) < 32 \<Longrightarrow> \<forall>i. bit t i \<longrightarrow> i < 5"
  using bit_less_exp [of t 5] by (auto simp: word_less_nat_alt)

lemma header_target:
  assumes "t < 32" and "k \<in> {0, 2, 3, 4 :: u8}"
  shows "(push_bit 5 k OR (t AND 0x1F)) AND 0x1F = t"
proof -
  have "\<not> bit t 5" "\<not> bit t 6" "\<not> bit t 7" using target_bits [OF assms(1)] by auto
  with assms(2) show ?thesis by (auto simp: u8_eq_iff all_less_8 bit_simps)
qed

lemma target_range: "(h AND 0x1F :: u8) < 32"
proof -
  have "h AND 0x1F \<le> (0x1F :: u8)" by (rule word_and_le1)
  then show ?thesis by (simp add: word_le_nat_alt word_less_nat_alt)
qed

lemma frame_header:
  assumes "n < 128"
  shows "unat (((0x80 :: u8) OR word_of_nat n) AND NOT 0x80) = n"
    and "unat ((word_of_nat n :: u8) AND NOT 0x80) = n"
    and "((0x80 :: u8) OR word_of_nat n) AND 0x80 = 0x80"
    and "(word_of_nat n :: u8) AND 0x80 \<noteq> 0x80"
proof -
  let ?x = "word_of_nat n :: u8"
  have n: "unat ?x = n" using assms by (simp add: unat_of_nat)
  then have b: "\<not> bit ?x 7" using bit_less_exp [of ?x 7 7] assms by auto
  then have "((0x80 :: u8) OR ?x) AND NOT 0x80 = ?x" and "?x AND NOT 0x80 = ?x"
    by (auto simp: u8_eq_iff all_less_8 bit_simps)
  with n show "unat (((0x80 :: u8) OR ?x) AND NOT 0x80) = n" and "unat (?x AND NOT 0x80) = n"
    by simp_all
  from b show "((0x80 :: u8) OR ?x) AND 0x80 = 0x80" and "?x AND 0x80 \<noteq> 0x80"
    by (auto simp: u8_eq_iff all_less_8 bit_simps)
qed

lemma opus_header:
  assumes "n < 2 ^ 64" and "\<not> bit n 13"
  shows "unat (((if t then 0x2000 else 0 :: u64) OR word_of_nat n) AND NOT 0x2000) = n"
    and "((if t then 0x2000 else 0 :: u64) OR word_of_nat n) AND 0x2000 = 0x2000 \<longleftrightarrow> t"
proof -
  let ?x = "word_of_nat n :: u64"
  have n: "unat ?x = n" using assms(1) by (simp add: unat_of_nat)
  have b: "\<not> bit ?x 13" using assms(2) by (simp add: bit_simps)
  have e: "(0x2000 :: u64) = 2 ^ 13" by simp
  show "unat (((if t then 0x2000 else 0 :: u64) OR ?x) AND NOT 0x2000) = n"
    and "((if t then 0x2000 else 0 :: u64) OR ?x) AND 0x2000 = 0x2000 \<longleftrightarrow> t"
    unfolding e using n flag_mask [where k = 13 and w = ?x and t = t, OF _ b] by simp_all
qed

section \<open>Round trip\<close>

lemma decode_encode_frames:
  "wf_frames fs \<Longrightarrow> decode_frames acc (encode_frames fs @ r) = Inr (acc @ fs, r)"
proof (induction fs arbitrary: acc)
  case Nil
  then show ?case by (simp add: wf_frames_def)
next
  case (Cons f fs)
  then have f: "length f < 128" by (simp add: wf_frames_def)
  note h = frame_header [OF f]
  show ?case
  proof (cases "fs = []")
    case True
    with h show ?thesis by simp
  next
    case False
    with Cons.prems have "wf_frames fs" by (simp add: wf_frames_def)
    from Cons.IH [OF this, of "acc @ [f]"] False h show ?thesis by simp
  qed
qed

lemma decode_encode_payload:
  assumes "wf_payload pl"
  shows "decode_payload (payload_kind pl) (encode_payload pl @ r) = Inr (pl, r)"
proof (cases pl)
  case (Opus f t)
  with assms have "length f < 2 ^ 64" and "\<not> bit (length f) 13" by simp_all
  note h = opus_header [OF this, of t]
  from Opus h show ?thesis
    by (cases t) (simp_all add: decode_payload_def varint_round_trip Let_def)
qed (use assms in \<open>simp_all add: decode_payload_def decode_encode_frames\<close>)

locale voice_dst =
  fixes dst :: "'sid voice_packet_dst"
  assumes session_round_trip: "read_session_id dst (write_session_id dst sid @ r) = Inr (sid, r)"
begin

lemma decode_encode:
  assumes "wf_packet p"
  shows "decode_voice_packet dst (encode_voice_packet dst p) = Inr p"
proof (cases p)
  case (Ping ts)
  have "drop_bit 5 (0x20 :: u8) = 1" by simp
  with Ping show ?thesis
    using varint_round_trip [of ts "[]"] by (simp add: decode_voice_packet_def)
next
  case (Audio tgt sid seq pl pos)
  from assms Audio have wf: "tgt < 32" "wf_payload pl" "pos \<noteq> Some []" by simp_all
  define h where "h = push_bit 5 (payload_kind pl) OR (tgt AND 0x1F)"
  have h: "drop_bit 5 h = payload_kind pl" "h AND 0x1F = tgt" "payload_kind pl \<noteq> 1"
    using kind_bits [of pl] wf by (auto simp: h_def header_kind header_target)
  have "encode_voice_packet dst p =
      h # write_session_id dst sid @ write_varint seq @ encode_payload pl @
      (case pos of None \<Rightarrow> [] | Some bs \<Rightarrow> bs)"
    by (simp add: Audio h_def)
  then show ?thesis
    using wf Audio h
    by (cases pos)
      (simp_all add: decode_voice_packet_def Let_def session_round_trip
         varint_round_trip decode_encode_payload decode_encode_payload [where r = "[]", simplified])
qed

end

interpretation sb: voice_dst server_bound
  by unfold_locales (simp add: server_bound_def)

lemma ucast_u32_u64 [simp]: "ucast (ucast (w :: u32) :: u64) = w"
  by (rule bit_word_eqI) (auto simp: bit_simps)

interpretation cb: voice_dst client_bound
  by unfold_locales (simp add: client_bound_def varint_round_trip)

section \<open>What decoding yields\<close>

lemma decode_frames_wf:
  "decode_frames acc buf = Inr (fs, r) \<Longrightarrow> \<forall>f \<in> set acc. length f < 128 \<Longrightarrow> wf_frames fs"
proof (induction acc buf rule: decode_frames.induct)
  case (1 frames)
  then show ?case by simp
next
  case (2 frames header buf)
  have "header AND NOT 0x80 \<le> NOT 0x80" by (rule word_and_le1)
  then have "unat (header AND NOT 0x80) < 128" by (simp add: word_le_nat_alt)
  with 2 show ?case
    by (auto simp: Let_def wf_frames_def split: if_splits)
qed

lemma opus_length_bit: "\<not> bit (unat (h AND NOT 0x2000 :: u64)) 13"
proof -
  have "\<not> bit (h AND NOT (2 ^ 13) :: u64) 13" by (simp add: bit_simps)
  then show ?thesis by (simp add: bit_unsigned_iff)
qed

lemma decode_payload_wf:
  assumes "decode_payload kind buf = Inr (pl, r)"
  shows "wf_payload pl"
proof -
  have len: "unat (h :: u64) < 2 ^ 64" for h
    using unsigned_less [of h, where 'a = nat] by simp
  from assms show ?thesis
    using len opus_length_bit
    by (auto simp: decode_payload_def rbind_Inr_iff Let_def min_def not_less
        dest: decode_frames_wf simp del: power_numeral split: if_splits)
qed

lemma decode_wf: "decode_voice_packet dst buf = Inr p \<Longrightarrow> wf_packet p"
  by (auto simp: decode_voice_packet_def rbind_Inr_iff Let_def target_range dest: decode_payload_wf
      split: if_splits)

lemma into_client_bound_wf: "wf_packet p \<Longrightarrow> wf_packet (into_client_bound p sid strip)"
  by (cases p) auto

section \<open>Properties\<close>

text \<open>
  C14: Decoding an encoded packet returns the packet, in both directions, for every packet that the
  format can carry.
\<close>

theorem voice_packet_round_trip:
  assumes "wf_packet p" and "wf_packet q"
  shows "decode_voice_packet client_bound (encode_voice_packet client_bound p) = Inr p \<and>
    decode_voice_packet server_bound (encode_voice_packet server_bound q) = Inr q"
  using assms by (simp add: cb.decode_encode sb.decode_encode)

theorem voice_packet_round_trip_witness:
  "decode_voice_packet client_bound (encode_voice_packet client_bound
      (Audio 3 7 300 (Speex [[1, 2], [], [9]]) (Some [4, 5]))) =
    Inr (Audio 3 7 300 (Speex [[1, 2], [], [9]]) (Some [4, 5])) \<and>
   decode_voice_packet server_bound (encode_voice_packet server_bound
      (Audio 31 () 0 (Opus [8, 8, 8] True) None)) = Inr (Audio 31 () 0 (Opus [8, 8, 8] True) None)"
  by (rule voice_packet_round_trip) (simp_all add: wf_frames_def bit_iff_odd)

text \<open>
  C16: The server relays voice faithfully: when it decodes a client's packet, stamps it with the
  session id it assigned and encodes it for a listener, the listener decodes the same target,
  sequence number, audio and (unless stripping is configured) position, under that session id.
\<close>

theorem relay_faithful:
  assumes "decode_voice_packet server_bound buf = Inr p"
  shows "decode_voice_packet client_bound (encode_voice_packet client_bound (into_client_bound p sid strip)) =
    Inr (case p of
        Ping timestamp \<Rightarrow> Ping timestamp
      | Audio tgt _ seq pl pos \<Rightarrow> Audio tgt sid seq pl (if strip then None else pos))"
proof -
  from assms have "wf_packet (into_client_bound p sid strip)"
    by (intro into_client_bound_wf decode_wf)
  from cb.decode_encode [OF this] show ?thesis by (cases p) simp_all
qed

theorem relay_faithful_witness:
  "decode_voice_packet client_bound (encode_voice_packet client_bound
      (into_client_bound (Audio 0 () 5 (Opus [11, 12] False) (Some [99])) 42 True)) =
    Inr (Audio 0 42 5 (Opus [11, 12] False) None)"
proof -
  have "decode_voice_packet server_bound [0x80, 5, 2, 11, 12, 99] =
      Inr (Audio 0 () 5 (Opus [11, 12] False) (Some [99]))"
    by code_simp
  from relay_faithful [OF this, of 42 True] show ?thesis by simp
qed

end
