(* ===== verification/Crypt.thy ===== *)
theory Crypt
  imports Voice
begin

text \<open>
  The encryption state of a client's UDP channel (\<open>crypt.rs\<close>): AES-128 in OCB mode with a
  128-bit nonce of which only the low byte travels, and the receiver's bookkeeping of late, lost
  and repeated packets. AES itself is the \<open>aes\<close> crate: a parameter of the definitions.
\<close>

section \<open>The block cipher\<close>

text \<open>\<open>Aes128\<close>: the block operations of the cipher keyed with the first argument.\<close>

record aes128 =
  encrypt_block :: "bytes \<Rightarrow> bytes \<Rightarrow> bytes"
  decrypt_block :: "bytes \<Rightarrow> bytes \<Rightarrow> bytes"

text \<open>The documented behaviour the code relies on: both map 16-byte blocks to 16-byte blocks, and
  decryption under a key inverts encryption under it.\<close>

definition aes_ok :: "aes128 \<Rightarrow> bool" where
  "aes_ok A \<longleftrightarrow> (\<forall>k b. length b = 16 \<longrightarrow>
     length (encrypt_block A k b) = 16 \<and> decrypt_block A k (encrypt_block A k b) = b)"

section \<open>State\<close>

record crypt_state =
  key :: bytes
  encrypt_nonce :: u128
  decrypt_nonce :: u128
  decrypt_history :: bytes
  good :: u32
  late :: u32
  lost :: u32
  resync :: u32
  last_good :: instant
  remote_late :: u32
  remote_good :: u32
  remote_lost :: u32
  remote_resync :: u32

text \<open>\<open>Default::default\<close>; the key is what the system's random source filled in, \<open>now\<close> the clock.\<close>

definition crypt_default :: "bytes \<Rightarrow> instant \<Rightarrow> crypt_state" where
  "crypt_default k now = \<lparr>key = k, encrypt_nonce = 0, decrypt_nonce = push_bit 127 1,
     decrypt_history = replicate 0x100 0, good = 0, late = 0, lost = 0, resync = 0, last_good = now,
     remote_late = 0, remote_good = 0, remote_lost = 0, remote_resync = 0\<rparr>"

definition crypt_reset :: "instant \<Rightarrow> crypt_state \<Rightarrow> crypt_state" where
  "crypt_reset now st = st\<lparr>encrypt_nonce := 0, decrypt_nonce := push_bit 127 1,
     decrypt_history := replicate 0x100 0, good := 0, late := 0, lost := 0, resync := 0,
     last_good := now\<rparr>"

definition get_encrypt_nonce :: "crypt_state \<Rightarrow> bytes" where
  "get_encrypt_nonce st = le_bytes 16 (encrypt_nonce st)"

definition get_decrypt_nonce :: "crypt_state \<Rightarrow> bytes" where
  "get_decrypt_nonce st = le_bytes 16 (decrypt_nonce st)"

text \<open>\<open>try_into().unwrap()\<close> panics (\<open>None\<close>) unless the slice has the 16 bytes of a nonce.\<close>

definition set_decrypt_nonce :: "bytes \<Rightarrow> crypt_state \<Rightarrow> crypt_state option" where
  "set_decrypt_nonce nonce st =
     (if length nonce = 16
      then Some (st\<lparr>decrypt_nonce := of_le nonce, resync := resync st + 1\<rparr>)
      else None)"

section \<open>AES-OCB\<close>

definition aes_encrypt :: "aes128 \<Rightarrow> crypt_state \<Rightarrow> u128 \<Rightarrow> u128" where
  "aes_encrypt A st data = of_be (encrypt_block A (key st) (be_bytes 16 data))"

definition aes_decrypt :: "aes128 \<Rightarrow> crypt_state \<Rightarrow> u128 \<Rightarrow> u128" where
  "aes_decrypt A st data = of_be (decrypt_block A (key st) (be_bytes 16 data))"

definition s2 :: "u128 \<Rightarrow> u128" where
  "s2 block = (let rot = word_rotl 1 block; carry = rot AND 1 in rot XOR (carry * 0x86))"

text \<open>\<open>u128::to_be\<close> on a little-endian target: the bytes swapped.\<close>

definition to_be :: "u128 \<Rightarrow> u128" where
  "to_be w = of_be (le_bytes 16 w)"

text \<open>
  The body of \<open>ocb_encrypt\<close> from the loop on: whole blocks while more than one is left, then the
  last one padded with keystream. The result is the tag and the buffer's new contents.
\<close>

function ocb_encrypt_from :: "aes128 \<Rightarrow> crypt_state \<Rightarrow> u128 \<Rightarrow> u128 \<Rightarrow> bytes \<Rightarrow> u128 \<times> bytes" where
  "ocb_encrypt_from A st offset checksum buf =
    (if length buf > 16 then
       let chunk = take 16 buf; remainder = drop 16 buf;
           offset = s2 offset;
           plain = of_be chunk;
           encrypted = aes_encrypt A st (offset XOR plain) XOR offset;
           (tag, out) = ocb_encrypt_from A st offset (checksum XOR plain) remainder
       in (tag, be_bytes 16 encrypted @ out)
     else
       let offset = s2 offset;
           len = length buf;
           pad = aes_encrypt A st (word_of_nat (len * 8) XOR offset);
           plain = of_be (buf @ drop len (be_bytes 16 pad));
           encrypted = pad XOR plain
       in (aes_encrypt A st (offset XOR s2 offset XOR (checksum XOR plain)),
           take len (be_bytes 16 encrypted)))"
  by pat_completeness auto
termination
  by (relation "measure (\<lambda>(_, _, _, _, buf). length buf)") auto

declare ocb_encrypt_from.simps [simp del]

definition ocb_encrypt :: "aes128 \<Rightarrow> crypt_state \<Rightarrow> bytes \<Rightarrow> u128 \<times> bytes" where
  "ocb_encrypt A st buf = ocb_encrypt_from A st (aes_encrypt A st (to_be (encrypt_nonce st))) 0 buf"

function ocb_decrypt_from :: "aes128 \<Rightarrow> crypt_state \<Rightarrow> u128 \<Rightarrow> u128 \<Rightarrow> bytes \<Rightarrow> u128 \<times> bytes" where
  "ocb_decrypt_from A st offset checksum buf =
    (if length buf > 16 then
       let chunk = take 16 buf; remainder = drop 16 buf;
           offset = s2 offset;
           encrypted = of_be chunk;
           plain = aes_decrypt A st (offset XOR encrypted) XOR offset;
           (tag, out) = ocb_decrypt_from A st offset (checksum XOR plain) remainder
       in (tag, be_bytes 16 plain @ out)
     else
       let offset = s2 offset;
           len = length buf;
           pad = aes_encrypt A st (word_of_nat (len * 8) XOR offset);
           plain = of_be (buf @ replicate (16 - len) 0) XOR pad
       in (aes_encrypt A st (offset XOR s2 offset XOR (checksum XOR plain)),
           take len (be_bytes 16 plain)))"
  by pat_completeness auto
termination
  by (relation "measure (\<lambda>(_, _, _, _, buf). length buf)") auto

declare ocb_decrypt_from.simps [simp del]

definition ocb_decrypt :: "aes128 \<Rightarrow> crypt_state \<Rightarrow> bytes \<Rightarrow> u128 \<times> bytes" where
  "ocb_decrypt A st buf = ocb_decrypt_from A st (aes_encrypt A st (to_be (decrypt_nonce st))) 0 buf"

section \<open>Packets\<close>

definition encrypt ::
    "aes128 \<Rightarrow> 'sid voice_packet_dst \<Rightarrow> crypt_state \<Rightarrow> 'sid voice_packet \<Rightarrow> crypt_state \<times> bytes" where
  "encrypt A dst st packet =
     (let st = st\<lparr>encrypt_nonce := encrypt_nonce st + 1\<rparr>;
          (tag, inner) = ocb_encrypt A st (encode_voice_packet dst packet)
      in (st, ucast (encrypt_nonce st) # take 3 (be_bytes 16 tag) @ inner))"

text \<open>
  \<open>nonce_step\<close> is the first half of \<open>decrypt\<close>: from the low nonce byte of the header it finds the
  full nonce to decrypt with, whether the packet is late, and the correction of the loss counter.
\<close>

definition nonce_step :: "crypt_state \<Rightarrow> u8 \<Rightarrow> decrypt_error + u128 \<times> bool \<times> int" where
  "nonce_step st nonce_0 =
     (if ucast (decrypt_nonce st + 1) = nonce_0 then Inr (decrypt_nonce st + 1, False, 0)
      else
        let diff = nonce_0 - ucast (decrypt_nonce st);
            nonce = decrypt_nonce st + scast diff
        in if sint diff > 0 then Inr (nonce, False, sint (diff - 1))
           else if sint diff > -30 then
             (if decrypt_history st ! unat nonce_0 = ucast (drop_bit 8 nonce) then Inl Repeat
              else Inr (nonce, True, -1))
           else Inl Late)"

definition decrypt ::
    "aes128 \<Rightarrow> 'sid voice_packet_dst \<Rightarrow> instant \<Rightarrow> crypt_state \<Rightarrow> bytes \<Rightarrow>
       crypt_state \<times> (decrypt_error + 'sid voice_packet)" where
  "decrypt A dst now st buf =
     (if length buf < 4 then (st, Inl Eof)
      else
        let header = take 4 buf; buf = drop 4 buf; nonce_0 = header ! 0;
            saved_nonce = decrypt_nonce st
        in case nonce_step st nonce_0 of
             Inl e \<Rightarrow> (st, Inl e)
           | Inr (nonce, is_late, n_lost) \<Rightarrow>
               let st1 = st\<lparr>decrypt_nonce := nonce\<rparr>;
                   (tag, plain) = ocb_decrypt A st1 buf
               in if drop 1 header \<noteq> take 3 (be_bytes 16 tag) then (st, Inl Mac)
                  else
                    let st2 = st1\<lparr>
                          decrypt_history := (decrypt_history st)[unat nonce_0 := ucast (drop_bit 8 nonce)],
                          good := good st + 1,
                          last_good := now\<rparr>;
                        st3 = (if is_late then st2\<lparr>late := late st + 1, decrypt_nonce := saved_nonce\<rparr> else st2);
                        st4 = st3\<lparr>lost := lost st + word_of_int n_lost\<rparr>
                    in (st4, decode_voice_packet dst plain))"

section \<open>The OCB round trip\<close>

lemma be_bytes_16 [simp]: "length bs = 16 \<Longrightarrow> be_bytes 16 (of_be bs :: u128) = bs"
  using be_bytes_of_be [of bs, where 'a = 128] by simp

lemma le_bytes_xor: "le_bytes n (a XOR b) = map2 (XOR) (le_bytes n a) (le_bytes n b)"
  by (induction n arbitrary: a b) (simp_all add: unsigned_xor_eq drop_bit_xor)

lemma be_bytes_xor: "be_bytes n (a XOR b) = map2 (XOR) (be_bytes n a) (be_bytes n b)"
  by (simp add: be_bytes_def le_bytes_xor rev_map zip_rev)

lemma map2_xor_self: "map2 (XOR) xs (xs :: u8 list) = replicate (length xs) 0"
  by (induction xs) simp_all

text \<open>The padded last block: behind the data the ciphertext block is zero, as the decoder assumes.\<close>

lemma padded_block:
  fixes pad :: u128
  assumes "length buf \<le> 16"
  defines "plain \<equiv> of_be (buf @ drop (length buf) (be_bytes 16 pad)) :: u128"
  shows "take (length buf) (be_bytes 16 (pad XOR plain)) @ replicate (16 - length buf) 0 =
    be_bytes 16 (pad XOR plain)"
proof -
  let ?P = "be_bytes 16 pad"
  have "be_bytes 16 plain = buf @ drop (length buf) ?P"
    unfolding plain_def using assms(1) by (intro be_bytes_16) simp
  then have "drop (length buf) (be_bytes 16 (pad XOR plain)) =
      map2 (XOR) (drop (length buf) ?P) (drop (length buf) ?P)"
    by (simp add: be_bytes_xor drop_map drop_zip)
  also have "\<dots> = replicate (16 - length buf) 0"
    by (simp add: map2_xor_self)
  finally show ?thesis by (metis append_take_drop_id)
qed

lemma aes_encrypt_key: "key st' = key st \<Longrightarrow> aes_encrypt A st' = aes_encrypt A st"
  by (simp add: aes_encrypt_def fun_eq_iff)

lemma aes_decrypt_encrypt:
  "aes_ok A \<Longrightarrow> key st' = key st \<Longrightarrow> aes_decrypt A st' (aes_encrypt A st x) = x"
  by (simp add: aes_decrypt_def aes_encrypt_def aes_ok_def)

lemma length_ocb_encrypt_from: "length (snd (ocb_encrypt_from A st off cs buf)) = length buf"
  by (induction A st off cs buf rule: ocb_encrypt_from.induct)
    (subst ocb_encrypt_from.simps, auto simp: Let_def case_prod_unfold)

lemma ocb_decrypt_encrypt_from:
  assumes "aes_ok A" and "key st' = key st"
  shows "ocb_decrypt_from A st' off cs (snd (ocb_encrypt_from A st off cs buf)) =
    (fst (ocb_encrypt_from A st off cs buf), buf)"
  using assms
proof (induction A st off cs buf rule: ocb_encrypt_from.induct)
  case (1 A st off cs buf)
  note key = aes_encrypt_key [OF \<open>key st' = key st\<close>]
  show ?case
  proof (cases "length buf > 16")
    case True
    define plain :: u128 where "plain = of_be (take 16 buf)"
    define enc where "enc = aes_encrypt A st (s2 off XOR plain) XOR s2 off"
    define rest where "rest = ocb_encrypt_from A st (s2 off) (cs XOR plain) (drop 16 buf)"
    have e: "ocb_encrypt_from A st off cs buf = (fst rest, be_bytes 16 enc @ snd rest)"
      using True by (subst ocb_encrypt_from.simps)
        (simp add: Let_def case_prod_unfold plain_def enc_def rest_def)
    have "length (snd rest) = length buf - 16"
      by (simp add: rest_def length_ocb_encrypt_from)
    then have long: "length (be_bytes 16 enc @ snd rest) > 16" using True by simp
    have p: "aes_decrypt A st' (s2 off XOR enc) XOR s2 off = plain"
      unfolding enc_def using "1.prems"
      by (simp add: aes_decrypt_encrypt ac_simps xor.assoc [symmetric] flip: xor.assoc)
    have "ocb_decrypt_from A st' (s2 off) (cs XOR plain) (snd rest) = (fst rest, drop 16 buf)"
      unfolding rest_def using "1.IH" True "1.prems" by (simp add: plain_def)
    with long p True show ?thesis
      unfolding e by (subst ocb_decrypt_from.simps) (simp add: Let_def plain_def)
  next
    case False
    define pad where "pad = aes_encrypt A st (word_of_nat (length buf * 8) XOR s2 off)"
    define plain :: u128 where "plain = of_be (buf @ drop (length buf) (be_bytes 16 pad))"
    have e: "ocb_encrypt_from A st off cs buf =
        (aes_encrypt A st (s2 off XOR s2 (s2 off) XOR (cs XOR plain)),
         take (length buf) (be_bytes 16 (pad XOR plain)))"
      using False by (subst ocb_encrypt_from.simps) (simp add: Let_def pad_def plain_def)
    have z: "take (length buf) (be_bytes 16 (pad XOR plain)) @ replicate (16 - length buf) 0 =
        be_bytes 16 (pad XOR plain)"
      unfolding plain_def by (rule padded_block) (use False in simp)
    have l: "length (take (length buf) (be_bytes 16 (pad XOR plain))) = length buf"
      using False by simp
    have b: "take (length buf) (be_bytes 16 plain) = buf"
      unfolding plain_def using False by (subst be_bytes_16) simp_all
    have pad: "aes_encrypt A st (word_of_nat (length buf) * 8 XOR s2 off) = pad"
      by (simp add: pad_def)
    show ?thesis
      unfolding e
      using False b z
      by (subst ocb_decrypt_from.simps)
        (simp add: Let_def l key pad xor.commute [of pad plain] xor.assoc)
  qed
qed

section \<open>Finding the nonce\<close>

lemma ucast_u8_plus: "(ucast (a + b :: u128) :: u8) = ucast a + ucast b"
proof (transfer fixing: , goal_cases)
  case (1 a b)
  have "take_bit 8 (take_bit 128 a + take_bit 128 b) =
      take_bit 8 (take_bit 8 (take_bit 128 a) + take_bit 8 (take_bit 128 b))"
    by (simp only: take_bit_add)
  also have "\<dots> = take_bit 8 (a + b)" by (simp add: take_bit_add)
  finally show ?case by simp
qed

lemma ucast_u8_of_int: "(ucast (word_of_int d :: u128) :: u8) = word_of_int d"
  by transfer simp

lemma i8_of_int:
  assumes "-128 \<le> d" and "d < 128"
  shows "sint (word_of_int d :: u8) = d"
    and "(scast (word_of_int d :: u8) :: u128) = word_of_int d"
    and "word_of_int d = (1 :: u8) \<longleftrightarrow> d = 1"
proof -
  show s: "sint (word_of_int d :: u8) = d"
    and "(scast (word_of_int d :: u8) :: u128) = word_of_int d"
    using assms by (simp_all add: signed_of_int signed_take_bit_int_eq_self)
  from s show "word_of_int d = (1 :: u8) \<longleftrightarrow> d = 1" by auto
qed

lemma i8_range: "-128 \<le> sint (x :: u8) \<and> sint x < 128"
  using sint_ge [of x] sint_lt [of x] by simp

text \<open>
  The specification of the window: a packet whose nonce lies \<open>d\<close> away from the receiver's, with
  \<open>d\<close> in the range of a signed byte, is classified by \<open>d\<close> alone, and the nonce found for it is the
  one it was sent with.
\<close>

lemma nonce_step_window:
  assumes n: "n = decrypt_nonce st + word_of_int d" and d: "-128 \<le> d" "d < 128"
  shows "nonce_step st (ucast n) =
    (if d > 0 then Inr (n, False, d - 1)
     else if d > -30 then
       (if decrypt_history st ! unat (ucast n :: u8) = ucast (drop_bit 8 n) then Inl Repeat
        else Inr (n, True, -1))
     else Inl Late)"
proof (cases "d = 1")
  case True
  then show ?thesis by (simp add: nonce_step_def n)
next
  case False
  have low: "ucast n = (ucast (decrypt_nonce st) + word_of_int d :: u8)"
    by (simp add: n ucast_u8_plus ucast_u8_of_int)
  have "ucast (decrypt_nonce st + 1) \<noteq> (ucast n :: u8)"
    using False i8_of_int(3) [OF d] by (auto simp: low ucast_u8_plus)
  moreover have diff: "ucast n - ucast (decrypt_nonce st) = (word_of_int d :: u8)"
    by (simp add: low)
  moreover have "sint (word_of_int d - 1 :: u8) = d - 1" if "d > 0"
    using i8_of_int(1) [of "d - 1"] that d by simp
  ultimately show ?thesis
    using d by (simp add: nonce_step_def Let_def i8_of_int flip: n)
qed

lemma nonce_step_cases:
  assumes "nonce_step st b = Inr (n, is_late, n_lost)"
  obtains d where "-30 < d" "d < 128" "n = decrypt_nonce st + word_of_int d" "ucast n = b"
    "is_late \<longleftrightarrow> d \<le> 0" "n_lost = (if d > 0 then d - 1 else -1)"
proof -
  define d where "d = sint (b - ucast (decrypt_nonce st))"
  define m where "m = decrypt_nonce st + word_of_int d"
  have d: "-128 \<le> d" "d < 128" using i8_range by (simp_all add: d_def)
  have "word_of_int d = b - ucast (decrypt_nonce st)" by (simp add: d_def)
  then have b: "ucast m = b" by (simp add: m_def ucast_u8_plus ucast_u8_of_int)
  from nonce_step_window [OF m_def d] b assms that [of d] d show ?thesis
    by (auto simp: m_def split: if_splits)
qed

section \<open>Delivery\<close>

definition crypt_wf :: "crypt_state \<Rightarrow> bool" where
  "crypt_wf st \<longleftrightarrow> length (key st) = 16 \<and> length (decrypt_history st) = 0x100"

text \<open>What an accepted packet does to the receiver's state.\<close>

definition accept :: "instant \<Rightarrow> crypt_state \<Rightarrow> u128 \<Rightarrow> bool \<Rightarrow> int \<Rightarrow> crypt_state" where
  "accept now st n is_late n_lost = st\<lparr>
     decrypt_nonce := (if is_late then decrypt_nonce st else n),
     decrypt_history := (decrypt_history st)[unat (ucast n :: u8) := ucast (drop_bit 8 n)],
     good := good st + 1, last_good := now,
     late := (if is_late then late st + 1 else late st),
     lost := lost st + word_of_int n_lost\<rparr>"

lemma decrypt_cases:
  "decrypt A dst now st buf =
    (if length buf < 4 then (st, Inl Eof)
     else case nonce_step st (buf ! 0) of
       Inl e \<Rightarrow> (st, Inl e)
     | Inr (n, is_late, n_lost) \<Rightarrow>
         (let (tag, plain) = ocb_decrypt A (st\<lparr>decrypt_nonce := n\<rparr>) (drop 4 buf) in
          if drop 1 (take 4 buf) \<noteq> take 3 (be_bytes 16 tag) then (st, Inl Mac)
          else (accept now st n is_late n_lost, decode_voice_packet dst plain)))"
  by (auto simp: decrypt_def Let_def accept_def case_prod_unfold elim!: nonce_step_cases
      split: sum.splits)

lemma decrypt_encrypted:
  assumes "aes_ok A" and "key r = key s" and "voice_dst dst" and "wf_packet p"
    and "encrypt A dst s p = (s', bs)"
    and "nonce_step r (ucast (encrypt_nonce s + 1)) = Inr (encrypt_nonce s + 1, is_late, n_lost)"
  shows "decrypt A dst now r bs = (accept now r (encrypt_nonce s + 1) is_late n_lost, Inr p)"
proof -
  let ?s = "s\<lparr>encrypt_nonce := encrypt_nonce s + 1\<rparr>"
  let ?r = "r\<lparr>decrypt_nonce := encrypt_nonce s + 1\<rparr>"
  obtain tag inner where o: "ocb_encrypt A ?s (encode_voice_packet dst p) = (tag, inner)"
    by (cases "ocb_encrypt A ?s (encode_voice_packet dst p)")
  have bs: "bs = ucast (encrypt_nonce s + 1) # take 3 (be_bytes 16 tag) @ inner"
    using assms(5) o by (simp add: encrypt_def Let_def)
  have "key ?r = key ?s" using assms(2) by simp
  from ocb_decrypt_encrypt_from [OF assms(1) this] o
  have "ocb_decrypt A ?r inner = (tag, encode_voice_packet dst p)"
    using aes_encrypt_key [OF \<open>key ?r = key ?s\<close>]
    by (simp add: ocb_decrypt_def ocb_encrypt_def) (metis fst_conv snd_conv)
  moreover have "drop 4 bs = inner" and "drop 1 (take 4 bs) = take 3 (be_bytes 16 tag)"
    and "bs ! 0 = ucast (encrypt_nonce s + 1)" and "\<not> length bs < 4"
    by (simp_all add: bs)
  ultimately show ?thesis
    using assms(6) voice_dst.decode_encode [OF assms(3,4)]
    by (simp add: decrypt_cases)
qed

text \<open>
  A sender and a receiver joined by a channel that may drop packets: each packet comes with whether
  it arrives. The result is the two final states and what the receiver made of each arrival.
\<close>

fun lossy :: "aes128 \<Rightarrow> 'sid voice_packet_dst \<Rightarrow> instant \<Rightarrow> crypt_state \<Rightarrow> crypt_state \<Rightarrow>
    (bool \<times> 'sid voice_packet) list \<Rightarrow>
    crypt_state \<times> crypt_state \<times> (decrypt_error + 'sid voice_packet) list" where
  "lossy A dst now s r [] = (s, r, [])"
| "lossy A dst now s r ((arrives, p) # ps) =
     (let (s, bs) = encrypt A dst s p in
      if arrives then
        let (r, res) = decrypt A dst now r bs; (s, r, out) = lossy A dst now s r ps
        in (s, r, res # out)
      else lossy A dst now s r ps)"

text \<open>No more than 126 packets in a row are dropped before one arrives; \<open>k\<close> were dropped just before.\<close>

fun bursts_ok :: "nat \<Rightarrow> (bool \<times> 'p) list \<Rightarrow> bool" where
  "bursts_ok k [] = True"
| "bursts_ok k ((arrives, _) # ps) =
     (if arrives then k \<le> 126 \<and> bursts_ok 0 ps else bursts_ok (Suc k) ps)"

text \<open>The number of dropped packets that a later arrival lets the receiver notice.\<close>

fun noticed :: "nat \<Rightarrow> (bool \<times> 'p) list \<Rightarrow> nat" where
  "noticed k [] = 0"
| "noticed k ((arrives, _) # ps) = (if arrives then k + noticed 0 ps else noticed (Suc k) ps)"

lemma encrypt_state [simp]:
  "fst (encrypt A dst s p) = s\<lparr>encrypt_nonce := encrypt_nonce s + 1\<rparr>"
  by (simp add: encrypt_def Let_def case_prod_unfold)

lemma encrypted_nonce: "encrypt A dst s p = (s', bs) \<Longrightarrow> encrypt_nonce s' = encrypt_nonce s + 1"
  using encrypt_state [of A dst s p] by (cases s') (auto simp del: encrypt_state)

lemma nonce_step_ahead:
  assumes "encrypt_nonce s = decrypt_nonce r + word_of_nat k" and "k \<le> 126"
  shows "nonce_step r (ucast (encrypt_nonce s + 1)) = Inr (encrypt_nonce s + 1, False, int k)"
proof -
  have "encrypt_nonce s + 1 = decrypt_nonce r + word_of_int (int k + 1)"
    using assms(1) by (simp add: add.assoc)
  from nonce_step_window [OF this] assms(2) show ?thesis by simp
qed

lemma lossy_step:
  assumes "aes_ok A" and "voice_dst dst" and "key r = key s" and "encrypt_nonce s = decrypt_nonce r + word_of_nat k"
    and "arrives \<longrightarrow> k \<le> 126 \<and> wf_packet p" and "lossy A dst now s r ((arrives, p) # ps) = (s', r', out)"
  obtains (arrived) out' where "arrives" "k \<le> 126" "out = Inr p # out'"
      "lossy A dst now (s\<lparr>encrypt_nonce := encrypt_nonce s + 1\<rparr>)
         (accept now r (encrypt_nonce s + 1) False (int k)) ps = (s', r', out')"
      "key (accept now r (encrypt_nonce s + 1) False (int k)) = key s"
      "encrypt_nonce s + 1 = decrypt_nonce (accept now r (encrypt_nonce s + 1) False (int k)) + word_of_nat 0"
  | (dropped) "\<not> arrives" "lossy A dst now (s\<lparr>encrypt_nonce := encrypt_nonce s + 1\<rparr>) r ps = (s', r', out)"
      "encrypt_nonce s + 1 = decrypt_nonce r + word_of_nat (Suc k)"
proof (cases arrives)
  case True
  let ?s = "s\<lparr>encrypt_nonce := encrypt_nonce s + 1\<rparr>" and ?r = "accept now r (encrypt_nonce s + 1) False (int k)"
  obtain bs where e: "encrypt A dst s p = (?s, bs)" by (metis encrypt_state prod.collapse)
  from True assms(5) have k: "k \<le> 126" and wf: "wf_packet p" by simp_all
  have d: "decrypt A dst now r bs = (?r, Inr p)"
    by (rule decrypt_encrypted [OF assms(1,3,2) wf e nonce_step_ahead [OF assms(4) k]])
  obtain s1 r1 out' where l: "lossy A dst now ?s ?r ps = (s1, r1, out')" by (metis prod_cases3)
  have "lossy A dst now s r ((arrives, p) # ps) = (s1, r1, Inr p # out')"
    unfolding lossy.simps Let_def e prod.case if_P [OF True] d l by (rule refl)
  with assms(6) l k True show thesis using assms(3) by (intro arrived) (simp_all add: accept_def)
next
  case False
  obtain bs where e: "encrypt A dst s p = (s\<lparr>encrypt_nonce := encrypt_nonce s + 1\<rparr>, bs)"
    by (metis encrypt_state prod.collapse)
  have "lossy A dst now (s\<lparr>encrypt_nonce := encrypt_nonce s + 1\<rparr>) r ps = (s', r', out)"
    using assms(6) unfolding lossy.simps Let_def e prod.case if_not_P [OF False] .
  with False assms(4) show thesis by (intro dropped) (simp_all add: add.assoc add.commute)
qed

lemma lossy_delivery:
  assumes "aes_ok A" and "voice_dst dst"
  shows "key r = key s \<Longrightarrow> encrypt_nonce s = decrypt_nonce r + word_of_nat k \<Longrightarrow> bursts_ok k ps \<Longrightarrow>
    \<forall>(_, p) \<in> set ps. wf_packet p \<Longrightarrow> lossy A dst now s r ps = (s', r', out) \<Longrightarrow>
    out = map (Inr \<circ> snd) (filter fst ps) \<and> lost r' = lost r + word_of_nat (noticed k ps) \<and>
    late r' = late r \<and> good r' = good r + word_of_nat (length (filter fst ps))"
proof (induction ps arbitrary: s r k s' r' out)
  case (Cons x ps)
  obtain arrives p where x: "x = (arrives, p)" by (cases x)
  have ok: "arrives \<longrightarrow> k \<le> 126 \<and> wf_packet p" using Cons.prems(3,4) x by auto
  let ?s = "s\<lparr>encrypt_nonce := encrypt_nonce s + 1\<rparr>" and ?r = "accept now r (encrypt_nonce s + 1) False (int k)"
  from assms Cons.prems(1,2) ok Cons.prems(5) [unfolded x] show ?case
  proof (cases rule: lossy_step)
    case (arrived out')
    have "lost ?r = lost r + word_of_nat k" "late ?r = late r" "good ?r = good r + 1"
      by (simp_all add: accept_def)
    with Cons.IH [of ?r ?s 0 s' r' out'] arrived Cons.prems(3,4) x show ?thesis by (auto simp: add.assoc)
  next
    case dropped
    with Cons.IH [of r ?s "Suc k" s' r' out] Cons.prems(1,3,4) x show ?thesis by simp
  qed
qed simp

lemma bursts_ok_short: "k + length ps \<le> 127 \<Longrightarrow> bursts_ok k ps"
  by (induction k ps rule: bursts_ok.induct) auto

text \<open>Where the two ends are after a short run, and which slots of the history it leaves alone.\<close>

lemma lossy_sync:
  assumes "aes_ok A" and "voice_dst dst"
  shows "key r = key s \<Longrightarrow> encrypt_nonce s = decrypt_nonce r + word_of_nat k \<Longrightarrow> k + length ps \<le> 126 \<Longrightarrow>
    \<forall>(_, p) \<in> set ps. wf_packet p \<Longrightarrow> lossy A dst now s r ps = (s', r', out) \<Longrightarrow>
    key r' = key s' \<and> key s' = key s \<and> encrypt_nonce s' = encrypt_nonce s + word_of_nat (length ps) \<and>
    (\<exists>j \<le> k + length ps. encrypt_nonce s' = decrypt_nonce r' + word_of_nat j) \<and>
    (\<forall>i. (\<forall>m < length ps. i \<noteq> unat (ucast (encrypt_nonce s + word_of_nat (Suc m)) :: u8)) \<longrightarrow>
       decrypt_history r' ! i = decrypt_history r ! i)"
proof (induction ps arbitrary: s r k s' r' out)
  case Nil
  then show ?case by auto
next
  case (Cons x ps)
  obtain arrives p where x: "x = (arrives, p)" by (cases x)
  have ok: "arrives \<longrightarrow> k \<le> 126 \<and> wf_packet p" using Cons.prems(3,4) x by auto
  let ?s = "s\<lparr>encrypt_nonce := encrypt_nonce s + 1\<rparr>" and ?r = "accept now r (encrypt_nonce s + 1) False (int k)"
  have wf: "\<forall>(_, p) \<in> set ps. wf_packet p" using Cons.prems(4) by simp
  have shift: "(\<forall>m < length ps. i \<noteq> unat (ucast (encrypt_nonce s + 1 + word_of_nat (Suc m)) :: u8)) \<and>
      i \<noteq> unat (ucast (encrypt_nonce s + 1) :: u8)"
    if "\<forall>m < length (x # ps). i \<noteq> unat (ucast (encrypt_nonce s + word_of_nat (Suc m)) :: u8)" for i
    using that by (auto simp: add.assoc dest: spec [of _ 0] spec [of _ "Suc _"])
  from assms Cons.prems(1,2) ok Cons.prems(5) [unfolded x] show ?case
  proof (cases rule: lossy_step)
    case (arrived out')
    have "decrypt_history ?r ! i = decrypt_history r ! i" if "i \<noteq> unat (ucast (encrypt_nonce s + 1) :: u8)" for i
      using that by (simp add: accept_def)
    moreover obtain j where "j \<le> length ps" "encrypt_nonce s' = decrypt_nonce r' + word_of_nat j"
      using Cons.IH [of ?r ?s 0 s' r' out'] arrived Cons.prems(3) wf by auto
    then have "\<exists>j \<le> k + length (x # ps). encrypt_nonce s' = decrypt_nonce r' + word_of_nat j"
      by (intro exI [of _ j]) simp
    ultimately show ?thesis using Cons.IH [of ?r ?s 0 s' r' out'] arrived Cons.prems(3) wf shift
      by (simp add: add.assoc)
  next
    case dropped
    have "key r = key ?s" "encrypt_nonce ?s = decrypt_nonce r + word_of_nat (Suc k)" "Suc k + length ps \<le> 126"
      using dropped(3) Cons.prems(1,3) by simp_all
    from Cons.IH [OF this wf dropped(2)] shift show ?thesis by (elim conjE, intro conjI) (simp_all add: add.assoc)
  qed
qed

section \<open>No nonce is accepted twice\<close>

text \<open>
  The nonces of the packets a receiver accepts out of a sequence of datagrams, each with its time
  of arrival. An accepted packet is one that raises the counter of good packets.
\<close>

fun accepted_nonces :: "aes128 \<Rightarrow> 'sid voice_packet_dst \<Rightarrow> crypt_state \<Rightarrow> (instant \<times> bytes) list \<Rightarrow>
    u128 list" where
  "accepted_nonces A dst st [] = []"
| "accepted_nonces A dst st ((now, buf) # bufs) =
     (let st' = fst (decrypt A dst now st buf) in
      if good st' = good st then accepted_nonces A dst st' bufs
      else (case nonce_step st (buf ! 0) of Inr (n, _) \<Rightarrow> [n] | Inl _ \<Rightarrow> []) @
        accepted_nonces A dst st' bufs)"

lemma low_byte_inj:
  assumes "(ucast (b + word_of_int s :: u128) :: u8) = ucast (b + word_of_int t :: u128)"
    and "\<bar>s - t\<bar> < 256"
  shows "s = t"
proof -
  from assms(1) have "(word_of_int s :: u8) = word_of_int t"
    by (simp add: ucast_u8_plus ucast_u8_of_int)
  then have "take_bit 8 s = take_bit 8 t" by transfer simp
  then have "256 dvd s - t" by (simp add: take_bit_eq_mod mod_eq_dvd_iff)
  with assms(2) show ?thesis using zdvd_imp_le [of 256 "\<bar>s - t\<bar>"] by fastforce
qed

lemma u128_inj:
  assumes "(b + word_of_int s :: u128) = b + word_of_int t" and "\<bar>s - t\<bar> < 2 ^ 128"
  shows "s = t"
proof -
  from assms(1) have "(word_of_int s :: u128) = word_of_int t" by simp
  then have "take_bit 128 s = take_bit 128 t" by transfer simp
  then have "2 ^ 128 dvd s - t" by (simp add: take_bit_eq_mod mod_eq_dvd_iff)
  with assms(2) show ?thesis using zdvd_imp_le [of "2 ^ 128" "\<bar>s - t\<bar>"] by fastforce
qed

text \<open>
  The invariant of the replay window, with nonces as signed distances from a base nonce \<open>b\<close>: the
  receiver's nonce is the greatest accepted distance \<open>D\<close>, and the history remembers every accepted
  nonce that is fewer than 30 behind.
\<close>

definition window_ok :: "u128 \<Rightarrow> int \<Rightarrow> int set \<Rightarrow> crypt_state \<Rightarrow> bool" where
  "window_ok b D S st \<longleftrightarrow> decrypt_nonce st = b + word_of_int D \<and>
     length (decrypt_history st) = 0x100 \<and>
     (\<forall>s \<in> S. s \<le> D \<and> (D - s < 30 \<longrightarrow>
        decrypt_history st ! unat (ucast (b + word_of_int s :: u128) :: u8) =
          ucast (drop_bit 8 (b + word_of_int s :: u128))))"

lemma window_ok_slot:
  assumes "window_ok b D S st" and "s \<in> S" and "t \<notin> S" and "-30 < t - D" and "t - D < 128"
  shows "s \<le> D \<and> (D - s < 30 \<longrightarrow> unat (ucast (b + word_of_int s :: u128) :: u8) \<noteq>
    unat (ucast (b + word_of_int t :: u128) :: u8))"
proof -
  have "s \<le> D" "s \<noteq> t" using assms(1-3) by (auto simp: window_ok_def)
  moreover have "(ucast (b + word_of_int s :: u128) :: u8) \<noteq> ucast (b + word_of_int t :: u128)" if "D - s < 30"
    using low_byte_inj [of b s t] \<open>s \<le> D\<close> \<open>s \<noteq> t\<close> that assms(4,5) by linarith
  ultimately show ?thesis by (simp only: word_unat_eq_iff) simp
qed

lemma window_ok_accept:
  assumes w: "window_ok b D S st" and n: "nonce_step st x = Inr (n, is_late, n_lost)"
  obtains d where "-30 < d" "d < 128" "n = b + word_of_int (D + d)" "D + d \<notin> S"
    "window_ok b (max D (D + d)) (insert (D + d) S) (accept now st n is_late n_lost)"
proof -
  from nonce_step_cases [OF n] obtain d where d: "-30 < d" "d < 128"
    "n = decrypt_nonce st + word_of_int d" "ucast n = x" "is_late \<longleftrightarrow> d \<le> 0" by metis
  from w have b: "decrypt_nonce st = b + word_of_int D" by (simp add: window_ok_def)
  have nb: "n = b + word_of_int (D + d)" by (simp add: d(3) b add.assoc)
  have "nonce_step st (ucast n) = (if d > 0 then Inr (n, False, d - 1)
     else if decrypt_history st ! unat (ucast n :: u8) = ucast (drop_bit 8 n) then Inl Repeat
        else Inr (n, True, -1))"
    using nonce_step_window [OF d(3)] d(1,2) by simp
  with n d(4) have fresh:
    "d > 0 \<or> decrypt_history st ! unat (ucast n :: u8) \<noteq> ucast (drop_bit 8 n)"
    by (auto split: if_splits)
  have new: "D + d \<notin> S"
    using fresh w d(1) by (auto simp: window_ok_def nb)
  have le: "unat (ucast n :: u8) < 0x100" using unsigned_less [of "ucast n :: u8", where 'a = nat] by simp
  note keep = window_ok_slot [OF w _ new, folded nb]
  have "window_ok b (max D (D + d)) (insert (D + d) S) (accept now st n is_late n_lost)"
    unfolding window_ok_def
  proof (intro conjI ballI impI)
    show "decrypt_nonce (accept now st n is_late n_lost) = b + word_of_int (max D (D + d))"
      using d(5) b nb by (simp add: accept_def max_def)
    show "length (decrypt_history (accept now st n is_late n_lost)) = 0x100"
      using w by (simp add: window_ok_def accept_def)
  next
    fix s assume s: "s \<in> insert (D + d) S"
    with keep d(1,2) show "s \<le> max D (D + d)" by fastforce
    assume near: "max D (D + d) - s < 30"
    show "decrypt_history (accept now st n is_late n_lost) !
        unat (ucast (b + word_of_int s :: u128) :: u8) = ucast (drop_bit 8 (b + word_of_int s :: u128))"
    proof (cases "s = D + d")
      case True
      then show ?thesis using le w nb by (simp add: accept_def window_ok_def)
    next
      case False
      with s have "s \<in> S" by simp
      moreover have "D - s < 30" using near by simp
      ultimately show ?thesis
        using keep [of s] d(1,2) w by (simp add: accept_def window_ok_def)
    qed
  qed
  with that d nb new show ?thesis by blast
qed

lemma decrypt_accept_cases:
  obtains (unchanged) "fst (decrypt A dst now st buf) = st"
  | (accepted) n is_late n_lost where "nonce_step st (buf ! 0) = Inr (n, is_late, n_lost)"
      "fst (decrypt A dst now st buf) = accept now st n is_late n_lost"
proof (cases "nonce_step st (buf ! 0)")
  case (Inl e)
  then show ?thesis by (intro unchanged) (simp add: decrypt_cases)
next
  case (Inr y)
  obtain n is_late n_lost where y: "y = (n, is_late, n_lost)" by (cases y)
  show ?thesis
  proof (cases "fst (decrypt A dst now st buf) = st")
    case False
    with Inr y have "fst (decrypt A dst now st buf) = accept now st n is_late n_lost"
      by (simp add: decrypt_cases case_prod_unfold Let_def split: if_splits)
    with Inr y accepted show ?thesis by simp
  qed (rule unchanged)
qed

lemma accepted_nonces_fresh:
  assumes "window_ok b D S st" and "S \<subseteq> {-30<..D}" and "-1 < D"
    and "D + 127 * int (length bufs) + 30 < 2 ^ 128"
  shows "distinct (accepted_nonces A dst st bufs) \<and>
    set (accepted_nonces A dst st bufs) \<inter> (\<lambda>s. b + word_of_int s) ` S = {}"
  using assms
proof (induction bufs arbitrary: st D S)
  case Nil
  then show ?case by simp
next
  case (Cons x bufs)
  obtain now buf where x: "x = (now, buf)" by (cases x)
  show ?case
  proof (cases rule: decrypt_accept_cases [of A dst now st buf])
    case unchanged
    with Cons.IH [OF Cons.prems(1,2,3)] Cons.prems(4) show ?thesis
      by (simp add: x Let_def)
  next
    case (accepted n is_late n_lost)
    let ?st = "accept now st n is_late n_lost"
    from window_ok_accept [OF Cons.prems(1) accepted(1)] obtain d where d: "-30 < d" "d < 128"
      "n = b + word_of_int (D + d)" "D + d \<notin> S"
      "window_ok b (max D (D + d)) (insert (D + d) S) ?st" by metis
    have sub: "insert (D + d) S \<subseteq> {-30<..max D (D + d)}" using Cons.prems(2,3) d(1) by fastforce
    have small: "max D (D + d) + 127 * int (length bufs) + 30 < 2 ^ 128"
      using Cons.prems(4) d(2) by simp
    have "-1 < max D (D + d)" using Cons.prems(3) by simp
    note IH = Cons.IH [OF d(5) sub this small]
    have acc: "accepted_nonces A dst st (x # bufs) = n # accepted_nonces A dst ?st bufs"
      using accepted by (simp add: x Let_def) (simp add: accept_def)
    have "n \<notin> (\<lambda>s. b + word_of_int s) ` S"
    proof
      assume "n \<in> (\<lambda>s. b + word_of_int s) ` S"
      then obtain s where s: "s \<in> S" "b + word_of_int (D + d) = b + word_of_int s"
        using d(3) by auto
      have "\<bar>D + d - s\<bar> < 2 ^ 128"
        using Cons.prems(2,3) sub small s(1) by fastforce
      from u128_inj [OF s(2) this] s(1) d(4) show False by simp
    qed
    with IH show ?thesis unfolding acc using d(3) by auto
  qed
qed

section \<open>Packets in the wrong order\<close>

text \<open>
  A packet \<open>p\<close> is overtaken by \<open>q\<close>, which was sent \<open>d\<close> packets later, at a receiver that has missed the last
  \<open>j\<close> packets before \<open>p\<close>: what the receiver makes of \<open>q\<close> and then of \<open>p\<close>.
\<close>

lemma overtaken:
  assumes "aes_ok A" and "voice_dst dst" and "key r = key s" and "encrypt_nonce s = decrypt_nonce r + word_of_nat j"
    and "0 < d" and "j + d \<le> 126" and "wf_packet q" and "encrypt A dst s p = (sa, pb)"
    and "encrypt A dst (s\<lparr>encrypt_nonce := encrypt_nonce s + word_of_nat d\<rparr>) q = (sb, qb)"
    and "r1 = accept now r (encrypt_nonce s + word_of_nat d + 1) False (int (j + d))"
  shows "decrypt A dst now r qb = (r1, Inr q)"
    and "wf_packet p \<Longrightarrow> d < 30 \<Longrightarrow>
      decrypt_history r ! unat (ucast (encrypt_nonce s + 1) :: u8) \<noteq> ucast (drop_bit 8 (encrypt_nonce s + 1)) \<Longrightarrow>
      decrypt A dst now' r1 pb = (accept now' r1 (encrypt_nonce s + 1) True (-1), Inr p)"
    and "30 \<le> d \<or> decrypt_history r ! unat (ucast (encrypt_nonce s + 1) :: u8) = ucast (drop_bit 8 (encrypt_nonce s + 1)) \<Longrightarrow>
      decrypt A dst now' r1 pb = (r1, Inl (if d < 30 then Repeat else Late))"
proof -
  let ?n = "encrypt_nonce s" and ?sq = "s\<lparr>encrypt_nonce := encrypt_nonce s + word_of_nat d\<rparr>"
  have "encrypt_nonce ?sq = decrypt_nonce r + word_of_nat (j + d)" "key r = key ?sq"
    using assms(3,4) by (simp_all add: add.assoc)
  from decrypt_encrypted [OF assms(1) this(2) assms(2,7,9) nonce_step_ahead [OF this(1) assms(6)], of now]
  show "decrypt A dst now r qb = (r1, Inr q)" by (simp add: assms(10))
  have dn: "?n + 1 = decrypt_nonce r1 + word_of_int (- int d)" by (simp add: assms(10) accept_def)
  have "unat (ucast (?n + word_of_nat d + 1) :: u8) \<noteq> unat (ucast (?n + 1) :: u8)"
    using low_byte_inj [of ?n "int d + 1" 1] assms(5,6) by (auto simp: word_unat_eq_iff [symmetric] add.assoc)
  then have "decrypt_history r1 ! unat (ucast (?n + 1) :: u8) = decrypt_history r ! unat (ucast (?n + 1) :: u8)"
    by (simp add: assms(10) accept_def)
  with nonce_step_window [OF dn] assms(5,6)
  have step: "nonce_step r1 (ucast (?n + 1)) =
      (if d < 30 then if decrypt_history r ! unat (ucast (?n + 1) :: u8) = ucast (drop_bit 8 (?n + 1))
         then Inl Repeat else Inr (?n + 1, True, -1) else Inl Late)" by auto
  have "key r1 = key s" using assms(3) by (simp add: assms(10) accept_def)
  from decrypt_encrypted [OF assms(1) this assms(2) _ assms(8)] step
  show "decrypt A dst now' r1 pb = (accept now' r1 (?n + 1) True (-1), Inr p)"
    if "wf_packet p" "d < 30" "decrypt_history r ! unat (ucast (?n + 1) :: u8) \<noteq> ucast (drop_bit 8 (?n + 1))"
    using that by simp
  have "\<not> length pb < 4" "pb ! 0 = ucast (?n + 1)"
    using assms(8) by (auto simp: encrypt_def Let_def case_prod_unfold)
  with step show "decrypt A dst now' r1 pb = (r1, Inl (if d < 30 then Repeat else Late))"
    if "30 \<le> d \<or> decrypt_history r ! unat (ucast (?n + 1) :: u8) = ucast (drop_bit 8 (?n + 1))"
    using that by (auto simp: decrypt_cases)
qed

text \<open>The first nonces of a connection: their second byte is 0.\<close>

lemma first_nonces:
  assumes "n < 256"
  shows "(ucast (drop_bit 8 (push_bit 127 1 + word_of_nat n :: u128)) :: u8) = 0"
    and "unat (ucast (push_bit 127 1 + word_of_nat n :: u128) :: u8) = n"
proof -
  have "(2 :: nat) ^ 127 + n < 2 ^ 128" using assms by simp
  then have u: "unat (push_bit 127 1 + word_of_nat n :: u128) = 2 ^ 127 + n"
    using unat_of_nat [where 'a = 128, of "2 ^ 127 + n"] by (simp add: take_bit_nat_eq_self)
  have "unat (ucast (drop_bit 8 (push_bit 127 1 + word_of_nat n :: u128)) :: u8) = (2 ^ 127 + n) div 256 mod 256"
    using u by (simp add: unsigned_ucast_eq take_bit_eq_mod drop_bit_eq_div unat_div)
  also have "\<dots> = 0" using assms by (simp add: div_add1_eq)
  finally show "(ucast (drop_bit 8 (push_bit 127 1 + word_of_nat n :: u128)) :: u8) = 0" by (simp add: unat_eq_zero)
  have "unat (ucast (push_bit 127 1 + word_of_nat n :: u128) :: u8) = (2 ^ 127 + n) mod 256"
    using u by (simp add: unsigned_ucast_eq take_bit_eq_mod)
  also have "\<dots> = n" using assms by (simp add: mod_add_eq [symmetric])
  finally show "unat (ucast (push_bit 127 1 + word_of_nat n :: u128) :: u8) = n" .
qed

section \<open>Properties\<close>

text \<open>
  C13: AES-OCB decryption inverts encryption: with the same key and nonce the receiver recovers the
  buffer and computes the same tag, and the ciphertext has the length of the plaintext.
\<close>

theorem ocb_round_trip:
  assumes "aes_ok A" and "key r = key s" and "decrypt_nonce r = encrypt_nonce s"
  shows "ocb_decrypt A r (snd (ocb_encrypt A s buf)) = (fst (ocb_encrypt A s buf), buf) \<and>
    length (snd (ocb_encrypt A s buf)) = length buf"
  using ocb_decrypt_encrypt_from [OF assms(1,2)] assms(3) aes_encrypt_key [OF assms(2)]
  by (simp add: ocb_decrypt_def ocb_encrypt_def length_ocb_encrypt_from)

text \<open>A block cipher for the witnesses: exclusive or with the key.\<close>

definition xor_cipher :: aes128 where
  "xor_cipher = \<lparr>encrypt_block = (\<lambda>k b. map2 (XOR) b (take 16 (k @ replicate 16 0))),
     decrypt_block = (\<lambda>k b. map2 (XOR) b (take 16 (k @ replicate 16 0)))\<rparr>"

lemma map2_xor_cancel:
  "length b \<le> length k \<Longrightarrow> map2 (XOR) (map2 (XOR) b k) k = (b :: u8 list)"
  by (induction b k rule: list_induct2') (simp_all add: xor.assoc)

lemma xor_cipher_ok: "aes_ok xor_cipher"
  by (simp add: aes_ok_def xor_cipher_def map2_xor_cancel)

theorem ocb_round_trip_witness:
  "ocb_decrypt xor_cipher ((crypt_default (replicate 16 7) 0)\<lparr>decrypt_nonce := 0\<rparr>)
     (snd (ocb_encrypt xor_cipher (crypt_default (replicate 16 7) 0) [1, 2, 3])) =
   (fst (ocb_encrypt xor_cipher (crypt_default (replicate 16 7) 0) [1, 2, 3]), [1, 2, 3])"
  using ocb_round_trip [OF xor_cipher_ok,
      of "(crypt_default (replicate 16 7) 0)\<lparr>decrypt_nonce := 0\<rparr>" "crypt_default (replicate 16 7) 0"
        "[1, 2, 3]"]
  by (simp add: crypt_default_def)

text \<open>
  C4: Delivery over a channel that loses packets. Once the receiver's nonce is the sender's, every
  packet that arrives is decrypted to what was sent, however many were lost before it, as long as
  no 127 packets in a row are lost; the loss counter grows by exactly the number of lost packets
  that a later arrival revealed, the good counter by the arrivals, and nothing counts as late.
\<close>

theorem lossy_channel_delivers:
  assumes "aes_ok A" and "key r = key s" and "decrypt_nonce r = encrypt_nonce s"
    and "bursts_ok 0 ps" and "\<forall>(_, p) \<in> set ps. wf_packet p"
    and "lossy A client_bound now s r ps = (s', r', out)"
  shows "out = map (Inr \<circ> snd) (filter fst ps) \<and> lost r' = lost r + word_of_nat (noticed 0 ps) \<and>
    late r' = late r \<and> good r' = good r + word_of_nat (length (filter fst ps))"
  using lossy_delivery [OF assms(1) cb.voice_dst_axioms assms(2) _ assms(4,5,6)] assms(3) by simp


theorem lossy_channel_delivers_witness:
  "snd (snd (lossy xor_cipher client_bound 9 (crypt_default (replicate 16 7) 0)
      ((crypt_default (replicate 16 7) 0)\<lparr>decrypt_nonce := 0\<rparr>)
      [(True, Ping 5), (False, Ping 6), (True, Ping 7)])) = [Inr (Ping 5), Inr (Ping 7)]"
proof -
  let ?s = "crypt_default (replicate 16 7) 0"
  let ?r = "?s\<lparr>decrypt_nonce := 0\<rparr>"
  let ?ps = "[(True, Ping 5), (False, Ping 6), (True, Ping 7)] :: (bool \<times> u32 voice_packet) list"
  obtain s' r' out where l: "lossy xor_cipher client_bound 9 ?s ?r ?ps = (s', r', out)"
    by (rule prod_cases3)
  have "out = map (Inr \<circ> snd) (filter fst ?ps)"
    using lossy_channel_delivers [OF xor_cipher_ok _ _ _ _ l] by (simp add: crypt_default_def)
  then show ?thesis unfolding l by simp
qed

text \<open>
  C18: A packet that a later one overtakes. The later packet, sent \<open>d\<close> packets after it, is delivered and
  counts the missing ones as lost. The overtaken packet is then delivered too, counted as late and taken
  off the losses, if \<open>d\<close> is below 30 and the history does not hold the second byte of its nonce in its slot;
  otherwise it is refused without any change, as \<open>Late\<close> from 30 on and as \<open>Repeat\<close> below.
\<close>

theorem overtaken_packet_outcome:
  assumes "aes_ok A" and "key r = key s" and "encrypt_nonce s = decrypt_nonce r + word_of_nat j"
    and "0 < d" and "j + d \<le> 126" and "wf_packet p" and "wf_packet q"
    and "encrypt A server_bound s p = (sa, pb)"
    and "encrypt A server_bound (s\<lparr>encrypt_nonce := encrypt_nonce s + word_of_nat d\<rparr>) q = (sb, qb)"
    and "decrypt A server_bound now r qb = (r1, res1)" and "decrypt A server_bound now' r1 pb = (r2, res2)"
  shows "res1 = Inr q \<and> decrypt_nonce r1 = encrypt_nonce sb \<and> lost r1 = lost r + word_of_nat (j + d) \<and>
    (if d < 30 \<and> decrypt_history r ! unat (ucast (encrypt_nonce sa) :: u8) \<noteq> ucast (drop_bit 8 (encrypt_nonce sa))
     then res2 = Inr p \<and> lost r2 = lost r1 - 1 \<and> late r2 = late r + 1 \<and> good r2 = good r + 2 \<and>
       decrypt_nonce r2 = encrypt_nonce sb
     else r2 = r1 \<and> res2 = Inl (if d < 30 then Repeat else Late))"
proof -
  let ?n = "encrypt_nonce s" and ?r1 = "accept now r (encrypt_nonce s + word_of_nat d + 1) False (int (j + d))"
  have sa: "encrypt_nonce sa = ?n + 1" and sb: "encrypt_nonce sb = ?n + word_of_nat d + 1"
    using encrypted_nonce [OF assms(8)] encrypted_nonce [OF assms(9)] by simp_all
  note o = overtaken [OF assms(1) sb.voice_dst_axioms assms(2-5,7-9) refl, where now = now]
  have r1: "r1 = ?r1" "res1 = Inr q" using o(1) assms(10) by simp_all
  have acc: "decrypt_nonce ?r1 = ?n + word_of_nat d + 1" "lost ?r1 = lost r + word_of_nat (j + d)" "late ?r1 = late r"
    "good ?r1 = good r + 1" by (simp_all add: accept_def)
  show ?thesis
  proof (cases "d < 30 \<and> decrypt_history r ! unat (ucast (?n + 1) :: u8) \<noteq> ucast (drop_bit 8 (?n + 1))")
    case True
    with o(2) assms(6,11) have r2: "r2 = accept now' ?r1 (?n + 1) True (-1)" "res2 = Inr p" by (simp_all add: r1)
    then have "lost r2 = lost ?r1 - 1" "late r2 = late ?r1 + 1" "good r2 = good ?r1 + 1" "decrypt_nonce r2 = decrypt_nonce ?r1"
      by (simp_all add: accept_def)
    with True acc r1 r2(2) show ?thesis unfolding sa sb by simp
  next
    case False
    with o(3) assms(11) have "r2 = r1" "res2 = Inl (if d < 30 then Repeat else Late)" by (auto simp: r1)
    with False acc r1 show ?thesis unfolding sa sb by auto
  qed
qed

theorem overtaken_packet_outcome_witness:
  "\<exists>sa pb sb qb r1 r2.
     encrypt xor_cipher server_bound (crypt_default (replicate 16 7) 0) (Ping 5) = (sa, pb) \<and>
     encrypt xor_cipher server_bound ((crypt_default (replicate 16 7) 0)\<lparr>encrypt_nonce := 1\<rparr>) (Ping 6) = (sb, qb) \<and>
     decrypt xor_cipher server_bound 1 ((crypt_default (replicate 16 7) 0)
       \<lparr>decrypt_nonce := 0, decrypt_history := replicate 0x100 1\<rparr>) qb = (r1, Inr (Ping 6)) \<and>
     decrypt xor_cipher server_bound 2 r1 pb = (r2, Inr (Ping 5)) \<and> late r2 = 1 \<and> lost r2 = 0"
proof -
  let ?s = "crypt_default (replicate 16 7) 0"
  let ?r = "?s\<lparr>decrypt_nonce := 0, decrypt_history := replicate 0x100 1\<rparr>"
  obtain sa pb where a: "encrypt xor_cipher server_bound ?s (Ping 5) = (sa, pb)" by (rule prod.exhaust)
  obtain sb qb where b: "encrypt xor_cipher server_bound (?s\<lparr>encrypt_nonce := 1\<rparr>) (Ping 6) = (sb, qb)" by (rule prod.exhaust)
  obtain r1 x where c: "decrypt xor_cipher server_bound 1 ?r qb = (r1, x)" by (rule prod.exhaust)
  obtain r2 y where d: "decrypt xor_cipher server_bound 2 r1 pb = (r2, y)" by (rule prod.exhaust)
  have "encrypt_nonce sa = 1" using encrypted_nonce [OF a] by (simp add: crypt_default_def)
  then have "x = Inr (Ping 6) \<and> y = Inr (Ping 5) \<and> late r2 = 1 \<and> lost r2 = 0"
    using overtaken_packet_outcome [OF xor_cipher_ok _ _ _ _ _ _ a _ c d, of 0 1 "Ping 6" sb] b
    by (simp add: crypt_default_def)
  with a b c d show ?thesis by blast
qed

text \<open>
  C3: No replay. Whatever datagrams reach a receiver, in whatever order and however often, and
  whatever the block cipher does, no two accepted packets have the same nonce; the only bound is
  that the nonces of the run do not wrap around the 128 bits.
\<close>

theorem no_nonce_accepted_twice:
  assumes "crypt_wf st" and "127 * int (length bufs) + 30 < 2 ^ 128"
  shows "distinct (accepted_nonces A dst st bufs)"
  using accepted_nonces_fresh [of "decrypt_nonce st" 0 "{}" st bufs A dst] assms
  by (simp add: window_ok_def crypt_wf_def)

theorem no_nonce_accepted_twice_witness:
  "distinct (accepted_nonces xor_cipher server_bound (crypt_default (replicate 16 7) 0)
     [(1, [1, 51, 16, 28, 43, 12]), (2, [1, 51, 16, 28, 43, 12])])"
  using no_nonce_accepted_twice [of "crypt_default (replicate 16 7) 0"
      "[(1, [1, 51, 16, 28, 43, 12]), (2, [1, 51, 16, 28, 43, 12])]" xor_cipher server_bound]
  by (simp add: crypt_wf_def crypt_default_def)



text \<open>
  C19: Resynchronisation. However far apart sender and receiver are, once the receiver has taken
  over the sender's nonce as the \<open>CryptSetup\<close> exchange transports it, the next packet decrypts.
\<close>

theorem resync_restores:
  assumes "aes_ok A" and "key r = key s" and "wf_packet p"
  shows "\<exists>r'. set_decrypt_nonce (get_encrypt_nonce s) r = Some r' \<and> resync r' = resync r + 1 \<and>
    snd (decrypt A client_bound now r' (snd (encrypt A client_bound s p))) = Inr p"
proof -
  let ?r = "r\<lparr>decrypt_nonce := encrypt_nonce s, resync := resync r + 1\<rparr>"
  have "set_decrypt_nonce (get_encrypt_nonce s) r = Some ?r"
    using of_le_le_bytes [of 16 "encrypt_nonce s"] by (simp add: set_decrypt_nonce_def get_encrypt_nonce_def)
  moreover have "encrypt_nonce s = decrypt_nonce ?r + word_of_nat 0" by simp
  from decrypt_encrypted [OF assms(1) _ cb.voice_dst_axioms assms(3) surjective_pairing
      nonce_step_ahead [OF this], of now] assms(2)
  have "snd (decrypt A client_bound now ?r (snd (encrypt A client_bound s p))) = Inr p" by simp
  ultimately show ?thesis by (intro exI [of _ ?r]) simp
qed

theorem resync_restores_witness:
  "\<exists>r'. set_decrypt_nonce (get_encrypt_nonce (crypt_default (replicate 16 7) 0))
       (crypt_default (replicate 16 7) 3) = Some r' \<and> resync r' = 1 \<and>
     snd (decrypt xor_cipher client_bound 9 r'
       (snd (encrypt xor_cipher client_bound (crypt_default (replicate 16 7) 0) (Ping 5)))) = Inr (Ping 5)"
  using resync_restores [OF xor_cipher_ok, of "crypt_default (replicate 16 7) 3"
      "crypt_default (replicate 16 7) 0" "Ping 5" 9]
  by (simp add: crypt_default_def)


text \<open>
  C20: Reordering among the first packets of a connection is mistaken for a replay. Of the first packets
  sent to a new receiver some are lost and the others are delivered; then a packet is overtaken by one sent
  \<open>d\<close> packets later, among the first 127. It was never received, and is refused: as \<open>Late\<close> if \<open>d\<close> is 30 or
  more, and as \<open>Repeat\<close> otherwise, because the history starts out filled with 0, which is the second byte of
  all these nonces.
\<close>

theorem overtaken_first_packet_is_repeat:
  assumes "aes_ok A" and "key s0 = k" and "encrypt_nonce s0 = push_bit 127 1" and "\<forall>(_, p) \<in> set ps. wf_packet p"
    and "lossy A server_bound now (s0 :: crypt_state) (crypt_default k now0) ps = (s, r, out)"
    and "0 < d" and "length ps + 1 + d \<le> 127" and "wf_packet q"
    and "encrypt A server_bound s p = (sa, pb)"
    and "encrypt A server_bound (s\<lparr>encrypt_nonce := encrypt_nonce s + word_of_nat d\<rparr>) q = (sb, qb)"
    and "decrypt A server_bound now' r qb = (r1, res1)"
  shows "out = map (Inr \<circ> snd) (filter fst ps) \<and> res1 = Inr q \<and>
    decrypt A server_bound now'' r1 pb = (r1, Inl (if d < 30 then Repeat else Late))"
proof -
  let ?r = "crypt_default k now0"
  have start: "key ?r = key s0" "encrypt_nonce s0 = decrypt_nonce ?r + word_of_nat 0"
    using assms(2,3) by (simp_all add: crypt_default_def)
  have out: "out = map (Inr \<circ> snd) (filter fst ps)"
    using lossy_delivery [OF assms(1) sb.voice_dst_axioms start bursts_ok_short assms(4,5)] assms(7) by simp
  have "0 + length ps \<le> 126" using assms(6,7) by simp
  from lossy_sync [OF assms(1) sb.voice_dst_axioms start this assms(4,5)] obtain j
    where sync: "key r = key s" "encrypt_nonce s = push_bit 127 1 + word_of_nat (length ps)" "j \<le> length ps"
      "encrypt_nonce s = decrypt_nonce r + word_of_nat j"
    and hist: "\<And>i. \<forall>m < length ps. i \<noteq> unat (ucast (push_bit 127 1 + word_of_nat (Suc m) :: u128) :: u8) \<Longrightarrow>
      decrypt_history r ! i = decrypt_history ?r ! i"
    unfolding assms(3) by auto
  have n: "encrypt_nonce s + 1 = push_bit 127 1 + word_of_nat (Suc (length ps))" unfolding sync(2) by (simp add: add.assoc)
  have small: "Suc m < 256" if "m \<le> length ps" for m using that assms(7) by simp
  have "decrypt_history r ! Suc (length ps) = decrypt_history ?r ! Suc (length ps)"
    using first_nonces(2) [OF small] by (intro hist) simp
  then have "decrypt_history r ! unat (ucast (encrypt_nonce s + 1) :: u8) = ucast (drop_bit 8 (encrypt_nonce s + 1))"
    unfolding n first_nonces [OF small [OF order_refl]] using assms(7) by (simp add: crypt_default_def)
  moreover have "j + d \<le> 126" using sync(3) assms(7) by simp
  note o = overtaken [OF assms(1) sb.voice_dst_axioms sync(1,4) assms(6) this assms(8-10) refl, where now = now']
  ultimately show ?thesis using o(1,3) out assms(11) by simp
qed

theorem overtaken_first_packet_is_repeat_witness:
  "\<exists>s r out sa pb sb qb r1.
     lossy xor_cipher server_bound 1 ((crypt_default (replicate 16 7) 0)\<lparr>encrypt_nonce := push_bit 127 1\<rparr>)
       (crypt_default (replicate 16 7) 0) [(True, Ping 4), (False, Ping 5)] = (s, r, out) \<and>
     encrypt xor_cipher server_bound s (Ping 6) = (sa, pb) \<and>
     encrypt xor_cipher server_bound (s\<lparr>encrypt_nonce := encrypt_nonce s + word_of_nat 3\<rparr>) (Ping 7) = (sb, qb) \<and>
     decrypt xor_cipher server_bound 2 r qb = (r1, Inr (Ping 7)) \<and>
     decrypt xor_cipher server_bound 3 r1 pb = (r1, Inl Repeat)"
proof -
  let ?s = "(crypt_default (replicate 16 7) 0)\<lparr>encrypt_nonce := push_bit 127 1\<rparr>"
  let ?r = "crypt_default (replicate 16 7) 0" and ?ps = "[(True, Ping 4), (False, Ping 5)] :: (bool \<times> unit voice_packet) list"
  obtain s r out where l: "lossy xor_cipher server_bound 1 ?s ?r ?ps = (s, r, out)" by (rule prod_cases3)
  obtain sa pb where a: "encrypt xor_cipher server_bound s (Ping 6) = (sa, pb)" by (rule prod.exhaust)
  obtain sb qb where b: "encrypt xor_cipher server_bound (s\<lparr>encrypt_nonce := encrypt_nonce s + word_of_nat 3\<rparr>) (Ping 7) =
    (sb, qb)" by (rule prod.exhaust)
  obtain r1 x where c: "decrypt xor_cipher server_bound 2 r qb = (r1, x)" by (rule prod.exhaust)
  have "x = Inr (Ping 7) \<and> decrypt xor_cipher server_bound 3 r1 pb = (r1, Inl Repeat)"
    using overtaken_first_packet_is_repeat [OF xor_cipher_ok _ _ _ l _ _ _ a b c] by (simp add: crypt_default_def)
  with l a b c show ?thesis by blast
qed

end
