(* ===== verification/Wire.thy ===== *)
theory Wire
  imports Prelude
begin

text \<open>
  What the generated code of \<open>src/src/proto/mumble.rs\<close> uses of the protobuf runtime. The runtime is
  a library: its wire format is the parameter \<open>pb_runtime\<close> and \<open>pb_ok\<close> is what the generated code
  relies on. On top of it stand the field readers and writers that the messages are made of, with
  the lemmas that read back what was written. The last section shows that the laws can hold, on a
  plain tag-length-value format.
\<close>

unbundle bit_operations_syntax

section \<open>The runtime\<close>

text \<open>An \<open>f32\<close> is its 32 bits; an \<open>i32\<close> is a 32-bit word that \<open>sint\<close> reads.\<close>

type_synonym f32 = "32 word"
type_synonym i32 = "32 word"

text \<open>A field of a message as it stands on the wire: its number and the value of its wire type.\<close>

datatype pb_val = PVarint u64 | PFixed64 u64 | PBytes bytes | PGroup | PFixed32 u32

type_synonym pb_field = "nat \<times> pb_val"

text \<open>
  \<open>rt_put\<close> writes a field (\<open>write_uint32\<close>, \<open>write_string\<close>, ...), \<open>rt_delim\<close> the tag and the length of
  a nested message, \<open>rt_put_unknown\<close> the fields a message was read with and does not know;
  \<open>rt_get\<close> reads the fields of an input, \<open>None\<close> where it is malformed. \<open>rt_as_u32\<close>, \<open>rt_as_i32\<close> and
  \<open>rt_as_bool\<close> convert a varint to the type of a field, \<open>rt_packed\<close> reads a packed repeated field.
  The others are the functions that compute sizes. \<open>rt_merge_nested\<close> says whether a second
  occurrence of a nested message is merged into the first.
\<close>

record pb_runtime =
  rt_put :: "pb_field \<Rightarrow> bytes"
  rt_delim :: "nat \<Rightarrow> u32 \<Rightarrow> bytes"
  rt_put_unknown :: "pb_field list \<Rightarrow> bytes"
  rt_get :: "bytes \<Rightarrow> pb_field list option"
  rt_as_u32 :: "u64 \<Rightarrow> u32"
  rt_as_i32 :: "u64 \<Rightarrow> i32"
  rt_as_bool :: "u64 \<Rightarrow> bool"
  rt_packed :: "bytes \<Rightarrow> u64 list option"
  rt_utf8 :: "bytes \<Rightarrow> bool"
  rt_value_size :: "nat \<Rightarrow> u64 \<Rightarrow> u32"
  rt_bytes_size :: "nat \<Rightarrow> bytes \<Rightarrow> u32"
  rt_raw_varint32_size :: "u32 \<Rightarrow> u32"
  rt_unknown_size :: "pb_field list \<Rightarrow> u32"
  rt_merge_nested :: bool

definition pb_val_ok :: "pb_val \<Rightarrow> bool" where
  "pb_val_ok v = (case v of PBytes b \<Rightarrow> length b < 2 ^ 32 | PGroup \<Rightarrow> False | _ \<Rightarrow> True)"

definition pb_field_ok :: "pb_field \<Rightarrow> bool" where
  "pb_field_ok f = (0 < fst f \<and> fst f < 2 ^ 29 \<and> pb_val_ok (snd f))"

text \<open>
  The laws: fields that were written are read back in order; the conversions invert the widening
  of the writers; a nested message is a length-delimited field; and the sizes are those of what
  is written, a tag taking one byte for the numbers below 16 and two for those below 2048.
\<close>

definition pb_ok :: "pb_runtime \<Rightarrow> bool" where
  "pb_ok rt \<longleftrightarrow>
     (\<forall>fs. list_all pb_field_ok fs \<longrightarrow> rt_get rt (concat (map (rt_put rt) fs)) = Some fs) \<and>
     (\<forall>v. rt_as_u32 rt (ucast v) = v) \<and>
     (\<forall>v. rt_as_i32 rt (scast v) = v) \<and>
     (\<forall>b. rt_as_bool rt (of_bool b) = b) \<and>
     (\<forall>n b. pb_field_ok (n, PBytes b) \<longrightarrow> rt_delim rt n (word_of_nat (length b)) @ b = rt_put rt (n, PBytes b)) \<and>
     rt_put_unknown rt [] = [] \<and>
     (\<forall>n v. pb_field_ok (n, PVarint v) \<longrightarrow> rt_value_size rt n v = word_of_nat (length (rt_put rt (n, PVarint v)))) \<and>
     (\<forall>n b. pb_field_ok (n, PBytes b) \<longrightarrow> rt_bytes_size rt n b = word_of_nat (length (rt_put rt (n, PBytes b)))) \<and>
     (\<forall>n b. 0 < n \<and> n < 2048 \<longrightarrow> length (rt_put rt (n, PVarint (of_bool b))) = (if n < 16 then 2 else 3)) \<and>
     (\<forall>n w. 0 < n \<and> n < 2048 \<longrightarrow> length (rt_put rt (n, PFixed32 w)) = (if n < 16 then 5 else 6)) \<and>
     (\<forall>n b. 0 < n \<and> n < 2048 \<and> length b < 2 ^ 32 \<longrightarrow>
        word_of_nat (length (rt_put rt (n, PBytes b))) =
          (if n < 16 then 1 else 2) + rt_raw_varint32_size rt (word_of_nat (length b)) + word_of_nat (length b)) \<and>
     rt_unknown_size rt [] = 0"

lemma pb_okD:
  assumes "pb_ok rt"
  shows pb_get: "list_all pb_field_ok fs \<Longrightarrow> rt_get rt (concat (map (rt_put rt) fs)) = Some fs"
    and pb_as: "rt_as_u32 rt (ucast v) = v" "rt_as_i32 rt (scast v) = v" "rt_as_bool rt (of_bool b) = b"
    and pb_delim: "pb_field_ok (n, PBytes bs) \<Longrightarrow>
      rt_delim rt n (word_of_nat (length bs)) @ bs = rt_put rt (n, PBytes bs)"
    and pb_unknown: "rt_put_unknown rt [] = []" "rt_unknown_size rt [] = 0"
    and pb_value_size: "pb_field_ok (n, PVarint x) \<Longrightarrow>
      rt_value_size rt n x = word_of_nat (length (rt_put rt (n, PVarint x)))"
    and pb_bytes_size: "pb_field_ok (n, PBytes bs) \<Longrightarrow>
      rt_bytes_size rt n bs = word_of_nat (length (rt_put rt (n, PBytes bs)))"
    and pb_bool_size: "0 < n \<Longrightarrow> n < 2048 \<Longrightarrow>
      length (rt_put rt (n, PVarint (of_bool b))) = (if n < 16 then 2 else 3)"
    and pb_float_size: "0 < n \<Longrightarrow> n < 2048 \<Longrightarrow>
      length (rt_put rt (n, PFixed32 w)) = (if n < 16 then 5 else 6)"
    and pb_message_size: "0 < n \<Longrightarrow> n < 2048 \<Longrightarrow> length bs < 2 ^ 32 \<Longrightarrow>
      word_of_nat (length (rt_put rt (n, PBytes bs))) =
        (if n < 16 then 1 else 2) + rt_raw_varint32_size rt (word_of_nat (length bs)) + word_of_nat (length bs)"
  using assms unfolding pb_ok_def by (elim conjE, simp)+

section \<open>Strings\<close>

text \<open>A Rust string is its UTF-8 bytes, one character of the model for each byte.\<close>

definition string_bytes :: "string \<Rightarrow> bytes" where
  "string_bytes s = map of_char s"

definition bytes_string :: "bytes \<Rightarrow> string" where
  "bytes_string bs = map (\<lambda>b. char_of (unat b)) bs"

lemma unat_of_char [simp]: "unat (of_char c :: u8) = of_char c"
proof -
  have "(of_char c :: nat) < 2 ^ 8" using nat_of_char_less_256 [of c] by simp
  moreover have "(of_char c :: u8) = word_of_nat (of_char c)" by (simp add: of_nat_of_char)
  ultimately show ?thesis by (simp add: unsigned_of_nat take_bit_nat_eq_self)
qed

lemma bytes_string_string_bytes [simp]: "bytes_string (string_bytes s) = s"
  by (induction s) (simp_all add: bytes_string_def string_bytes_def)

lemma length_string_bytes [simp]: "length (string_bytes s) = length s"
  by (simp add: string_bytes_def)

section \<open>Reading fields\<close>

text \<open>The reader of each field type; \<open>None\<close> is a \<open>ProtobufError\<close>, a wrong wire type first of all.\<close>

definition read_uint32 :: "pb_runtime \<Rightarrow> pb_val \<Rightarrow> u32 option" where
  "read_uint32 rt v = (case v of PVarint x \<Rightarrow> Some (rt_as_u32 rt x) | _ \<Rightarrow> None)"

definition read_uint64 :: "pb_runtime \<Rightarrow> pb_val \<Rightarrow> u64 option" where
  "read_uint64 rt v = (case v of PVarint x \<Rightarrow> Some x | _ \<Rightarrow> None)"

definition read_int32 :: "pb_runtime \<Rightarrow> pb_val \<Rightarrow> i32 option" where
  "read_int32 rt v = (case v of PVarint x \<Rightarrow> Some (rt_as_i32 rt x) | _ \<Rightarrow> None)"

definition read_bool :: "pb_runtime \<Rightarrow> pb_val \<Rightarrow> bool option" where
  "read_bool rt v = (case v of PVarint x \<Rightarrow> Some (rt_as_bool rt x) | _ \<Rightarrow> None)"

definition read_float :: "pb_runtime \<Rightarrow> pb_val \<Rightarrow> f32 option" where
  "read_float rt v = (case v of PFixed32 w \<Rightarrow> Some w | _ \<Rightarrow> None)"

definition read_bytes :: "pb_runtime \<Rightarrow> pb_val \<Rightarrow> bytes option" where
  "read_bytes rt v = (case v of PBytes b \<Rightarrow> Some b | _ \<Rightarrow> None)"

definition read_string :: "pb_runtime \<Rightarrow> pb_val \<Rightarrow> string option" where
  "read_string rt v = (case v of
     PBytes b \<Rightarrow> if rt_utf8 rt b then Some (bytes_string b) else None | _ \<Rightarrow> None)"

definition read_repeated_uint32 :: "pb_runtime \<Rightarrow> pb_val \<Rightarrow> u32 list option" where
  "read_repeated_uint32 rt v = (case v of
     PVarint x \<Rightarrow> Some [rt_as_u32 rt x]
   | PBytes b \<Rightarrow> map_option (map (rt_as_u32 rt)) (rt_packed rt b)
   | _ \<Rightarrow> None)"

definition read_repeated_int32 :: "pb_runtime \<Rightarrow> pb_val \<Rightarrow> i32 list option" where
  "read_repeated_int32 rt v = (case v of
     PVarint x \<Rightarrow> Some [rt_as_i32 rt x]
   | PBytes b \<Rightarrow> map_option (map (rt_as_i32 rt)) (rt_packed rt b)
   | _ \<Rightarrow> None)"

fun merge_fields :: "('m \<Rightarrow> pb_field \<Rightarrow> 'm option) \<Rightarrow> pb_field list \<Rightarrow> 'm \<Rightarrow> 'm option" where
  "merge_fields step [] m = Some m"
| "merge_fields step (f # fs) m = Option.bind (step m f) (merge_fields step fs)"

text \<open>The loop of \<open>merge_from\<close>: the fields of the input one after the other.\<close>

definition merge_from ::
    "(pb_runtime \<Rightarrow> 'm \<Rightarrow> pb_field \<Rightarrow> 'm option) \<Rightarrow> pb_runtime \<Rightarrow> bytes \<Rightarrow> 'm \<Rightarrow> 'm option" where
  "merge_from step rt bs m = Option.bind (rt_get rt bs) (\<lambda>fs. merge_fields (step rt) fs m)"

definition read_message ::
    "'m \<Rightarrow> (pb_runtime \<Rightarrow> 'm \<Rightarrow> pb_field \<Rightarrow> 'm option) \<Rightarrow> pb_runtime \<Rightarrow> 'm option \<Rightarrow> pb_val \<Rightarrow> 'm option" where
  "read_message new step rt old v = (case v of
     PBytes b \<Rightarrow> merge_from step rt b (case old of Some m \<Rightarrow> if rt_merge_nested rt then m else new | None \<Rightarrow> new)
   | _ \<Rightarrow> None)"

text \<open>\<open>read_unknown_or_skip_group\<close>: what is added to the unknown fields.\<close>

definition read_unknown :: "pb_field \<Rightarrow> pb_field list" where
  "read_unknown f = (if snd f = PGroup then [] else [f])"

text \<open>\<open>Message::parse_from_bytes\<close> merges into a new message and checks the required fields.\<close>

definition parse_from_bytes ::
    "'m \<Rightarrow> (pb_runtime \<Rightarrow> 'm \<Rightarrow> pb_field \<Rightarrow> 'm option) \<Rightarrow> ('m \<Rightarrow> bool) \<Rightarrow> pb_runtime \<Rightarrow> bytes \<Rightarrow> 'm option" where
  "parse_from_bytes new step is_init rt bs =
     Option.bind (merge_from step rt bs new) (\<lambda>m. if is_init m then Some m else None)"

section \<open>Writing fields\<close>

text \<open>What a message writes: fields, and nested messages with the size computed for them.\<close>

datatype pb_item = Field pb_field | Nested nat u32 bytes

definition item_bytes :: "pb_runtime \<Rightarrow> pb_item \<Rightarrow> bytes" where
  "item_bytes rt i = (case i of Field f \<Rightarrow> rt_put rt f | Nested n sz b \<Rightarrow> rt_delim rt n sz @ b)"

definition items_bytes :: "pb_runtime \<Rightarrow> pb_item list \<Rightarrow> bytes" where
  "items_bytes rt is = concat (map (item_bytes rt) is)"

definition put_opt :: "nat \<Rightarrow> ('a \<Rightarrow> pb_val) \<Rightarrow> 'a option \<Rightarrow> pb_item list" where
  "put_opt n f v = (case v of None \<Rightarrow> [] | Some x \<Rightarrow> [Field (n, f x)])"

definition put_list :: "nat \<Rightarrow> ('a \<Rightarrow> pb_val) \<Rightarrow> 'a list \<Rightarrow> pb_item list" where
  "put_list n f vs = map (\<lambda>x. Field (n, f x)) vs"

definition w_uint32 :: "u32 \<Rightarrow> pb_val" where "w_uint32 v = PVarint (ucast v)"
definition w_uint64 :: "u64 \<Rightarrow> pb_val" where "w_uint64 v = PVarint v"
definition w_int32 :: "i32 \<Rightarrow> pb_val" where "w_int32 v = PVarint (scast v)"
definition w_bool :: "bool \<Rightarrow> pb_val" where "w_bool v = PVarint (of_bool v)"
definition w_float :: "f32 \<Rightarrow> pb_val" where "w_float v = PFixed32 v"
definition w_bytes :: "bytes \<Rightarrow> pb_val" where "w_bytes v = PBytes v"
definition w_string :: "string \<Rightarrow> pb_val" where "w_string v = PBytes (string_bytes v)"

lemmas w_defs = w_uint32_def w_uint64_def w_int32_def w_bool_def w_float_def w_bytes_def w_string_def

definition put_message :: "nat \<Rightarrow> ('a \<Rightarrow> u32) \<Rightarrow> ('a \<Rightarrow> bytes) \<Rightarrow> 'a list \<Rightarrow> pb_item list" where
  "put_message n sz body vs = map (\<lambda>m. Nested n (sz m) (body m)) vs"

text \<open>\<open>write_to_with_cached_sizes\<close>: the items of the known fields and the unknown fields.\<close>

definition write_to :: "pb_runtime \<Rightarrow> pb_item list \<Rightarrow> pb_field list \<Rightarrow> bytes" where
  "write_to rt is unknown = items_bytes rt is @ rt_put_unknown rt unknown"

section \<open>Sizes\<close>

definition size_opt :: "('a \<Rightarrow> u32) \<Rightarrow> 'a option \<Rightarrow> u32" where
  "size_opt f v = (case v of None \<Rightarrow> 0 | Some x \<Rightarrow> f x)"

definition size_rep :: "('a \<Rightarrow> u32) \<Rightarrow> 'a list \<Rightarrow> u32" where
  "size_rep f vs = sum_list (map f vs)"

definition s_uint32 :: "pb_runtime \<Rightarrow> nat \<Rightarrow> u32 \<Rightarrow> u32" where "s_uint32 rt n v = rt_value_size rt n (ucast v)"
definition s_uint64 :: "pb_runtime \<Rightarrow> nat \<Rightarrow> u64 \<Rightarrow> u32" where "s_uint64 rt n v = rt_value_size rt n v"
definition s_int32 :: "pb_runtime \<Rightarrow> nat \<Rightarrow> i32 \<Rightarrow> u32" where "s_int32 rt n v = rt_value_size rt n (scast v)"
definition s_bytes :: "pb_runtime \<Rightarrow> nat \<Rightarrow> bytes \<Rightarrow> u32" where "s_bytes rt n v = rt_bytes_size rt n v"
definition s_string :: "pb_runtime \<Rightarrow> nat \<Rightarrow> string \<Rightarrow> u32" where "s_string rt n v = rt_bytes_size rt n (string_bytes v)"

definition s_message :: "pb_runtime \<Rightarrow> u32 \<Rightarrow> u32 \<Rightarrow> u32" where
  "s_message rt tag_size len = tag_size + rt_raw_varint32_size rt len + len"

lemmas s_defs = s_uint32_def s_uint64_def s_int32_def s_bytes_def s_string_def

section \<open>Reading back what was written\<close>

definition opt_list :: "'a option \<Rightarrow> 'a list" where
  "opt_list v = (case v of None \<Rightarrow> [] | Some x \<Rightarrow> [x])"

definition item_field :: "pb_item \<Rightarrow> pb_field" where
  "item_field i = (case i of Field f \<Rightarrow> f | Nested n sz b \<Rightarrow> (n, PBytes b))"

definition item_ok :: "pb_item \<Rightarrow> bool" where
  "item_ok i = (pb_field_ok (item_field i) \<and>
     (case i of Field f \<Rightarrow> True | Nested n sz b \<Rightarrow> sz = word_of_nat (length b)))"

definition items_ok :: "pb_item list \<Rightarrow> bool" where
  "items_ok is = list_all item_ok is"

definition str_ok :: "pb_runtime \<Rightarrow> string \<Rightarrow> bool" where
  "str_ok rt s = (rt_utf8 rt (string_bytes s) \<and> length s < 2 ^ 32)"

definition bytes_ok :: "bytes \<Rightarrow> bool" where
  "bytes_ok b = (length b < 2 ^ 32)"

named_theorems pb_read and pb_item and pb_size

lemma merge_fields_append [pb_read]:
  "merge_fields step (xs @ ys) m = Option.bind (merge_fields step xs m) (merge_fields step ys)"
  by (induction xs arbitrary: m) (simp_all split: Option.bind_split)

lemma items_bytes_append: "items_bytes rt (xs @ ys) = items_bytes rt xs @ items_bytes rt ys"
  by (simp add: items_bytes_def)

lemma items_bytes_Nil [simp]: "items_bytes rt [] = []"
  by (simp add: items_bytes_def)

lemma read_w [pb_read]:
  assumes "pb_ok rt"
  shows "read_uint32 rt (w_uint32 a) = Some a" and "read_uint64 rt (w_uint64 b) = Some b"
    and "read_int32 rt (w_int32 c) = Some c" and "read_bool rt (w_bool d) = Some d"
    and "read_float rt (w_float e) = Some e" and "read_bytes rt (w_bytes g) = Some g"
    and "read_repeated_uint32 rt (w_uint32 h) = Some [h]"
    and "read_repeated_int32 rt (w_int32 i) = Some [i]"
    and "str_ok rt s \<Longrightarrow> read_string rt (w_string s) = Some s"
  using assms
  by (simp_all add: pb_as w_defs read_uint32_def read_uint64_def read_int32_def read_bool_def
      read_float_def read_bytes_def read_string_def read_repeated_uint32_def
      read_repeated_int32_def str_ok_def)

text \<open>
  The items of one field, read into a message that does not have the field yet. \<open>s\<close> is the update
  of the field.
\<close>

lemma merge_put_opt:
  assumes "pred_option P v" and "\<And>x. P x \<Longrightarrow> step m (n, f x) = Some (s (Some x) m)" and "s None m = m"
  shows "merge_fields step (map item_field (put_opt n f v)) m = Some (s v m)"
  using assms by (cases v) (simp_all add: put_opt_def item_field_def)

lemma merge_fields_each:
  assumes "\<And>ys x. x \<in> set xs \<Longrightarrow> step (s ys m) (g x) = Some (s (ys @ [x]) m)"
  shows "merge_fields step (map g xs) (s ys m) = Some (s (ys @ xs) m)"
  using assms by (induction xs arbitrary: ys) simp_all

lemma merge_put_list:
  assumes "list_all P vs" and "\<And>ys x. P x \<Longrightarrow> step (s ys m) (n, f x) = Some (s (ys @ [x]) m)"
    and "s [] m = m"
  shows "merge_fields step (map item_field (put_list n f vs)) m = Some (s vs m)"
  using merge_fields_each [of vs step s m "\<lambda>x. (n, f x)" "[]"] assms
  by (simp add: put_list_def item_field_def comp_def list_all_iff)

lemma merge_put_messages:
  assumes "list_all P vs"
    and "\<And>ys x. P x \<Longrightarrow> step (s ys m) (n, PBytes (body x)) = Some (s (ys @ [x]) m)"
    and "s [] m = m"
  shows "merge_fields step (map item_field (put_message n sz body vs)) m = Some (s vs m)"
  using merge_fields_each [of vs step s m "\<lambda>x. (n, PBytes (body x))" "[]"] assms
  by (simp add: put_message_def item_field_def comp_def list_all_iff)

lemma merge_put_message:
  assumes "pred_option P v" and "\<And>x. P x \<Longrightarrow> step m (n, PBytes (body x)) = Some (s (Some x) m)"
    and "s None m = m"
  shows "merge_fields step (map item_field (put_message n sz body (opt_list v))) m = Some (s v m)"
  using assms by (cases v) (simp_all add: put_message_def item_field_def opt_list_def)

lemmas pred_True [pb_item, pb_read] = option.pred_True list.pred_True

lemma field_ok_w [pb_item]:
  "pb_field_ok (n, w_uint32 a) \<longleftrightarrow> 0 < n \<and> n < 2 ^ 29" "pb_field_ok (n, w_uint64 b) \<longleftrightarrow> 0 < n \<and> n < 2 ^ 29"
  "pb_field_ok (n, w_int32 c) \<longleftrightarrow> 0 < n \<and> n < 2 ^ 29" "pb_field_ok (n, w_bool d) \<longleftrightarrow> 0 < n \<and> n < 2 ^ 29"
  "pb_field_ok (n, w_float e) \<longleftrightarrow> 0 < n \<and> n < 2 ^ 29"
  "pb_field_ok (n, w_bytes g) \<longleftrightarrow> 0 < n \<and> n < 2 ^ 29 \<and> length g < 2 ^ 32"
  "pb_field_ok (n, w_string s) \<longleftrightarrow> 0 < n \<and> n < 2 ^ 29 \<and> length s < 2 ^ 32"
  "pb_field_ok (n, PBytes g) \<longleftrightarrow> 0 < n \<and> n < 2 ^ 29 \<and> length g < 2 ^ 32"
  by (simp_all add: pb_field_ok_def pb_val_ok_def w_defs)

lemma item_ok_put [pb_item]:
  "items_ok (put_opt n f v) \<longleftrightarrow> pred_option (\<lambda>x. pb_field_ok (n, f x)) v"
  "items_ok (put_list n f vs) \<longleftrightarrow> list_all (\<lambda>x. pb_field_ok (n, f x)) vs"
  "items_ok (put_message n sz body ms) \<longleftrightarrow>
     list_all (\<lambda>m. pb_field_ok (n, PBytes (body m)) \<and> sz m = word_of_nat (length (body m))) ms"
  "items_ok (xs @ ys) \<longleftrightarrow> items_ok xs \<and> items_ok ys"
  by (cases v, simp_all add: put_opt_def put_list_def put_message_def list_all_iff items_ok_def
      item_ok_def item_field_def ball_Un)

lemma items_bytes_fields:
  "pb_ok rt \<Longrightarrow> items_ok is \<Longrightarrow> items_bytes rt is = concat (map (rt_put rt) (map item_field is))"
proof (induction "is")
  case (Cons i "is")
  then show ?case
    by (cases i) (simp_all add: items_bytes_def item_bytes_def items_ok_def item_ok_def item_field_def pb_delim)
qed simp

lemma length_items_bytes [pb_size]:
  "(word_of_nat (length (items_bytes rt (xs @ ys))) :: u32) =
     word_of_nat (length (items_bytes rt xs)) + word_of_nat (length (items_bytes rt ys))"
  by (simp add: items_bytes_append)

lemma size_put_opt:
  assumes "\<And>x. v = Some x \<Longrightarrow> g x = word_of_nat (length (rt_put rt (n, f x)))"
  shows "word_of_nat (length (items_bytes rt (put_opt n f v))) = size_opt g v"
  using assms by (cases v) (simp_all add: put_opt_def size_opt_def items_bytes_def item_bytes_def)

lemma size_put_list:
  assumes "\<And>x. x \<in> set vs \<Longrightarrow> g x = word_of_nat (length (rt_put rt (n, f x)))"
  shows "word_of_nat (length (items_bytes rt (put_list n f vs))) = size_rep g vs"
  using assms
  by (induction vs) (simp_all add: put_list_def size_rep_def items_bytes_def item_bytes_def)

lemma size_w [pb_size]:
  assumes "pb_ok rt" and "0 < n" and "n < 2048"
  shows "word_of_nat (length (items_bytes rt (put_opt n w_uint32 a))) = size_opt (s_uint32 rt n) a"
    and "word_of_nat (length (items_bytes rt (put_opt n w_uint64 b))) = size_opt (s_uint64 rt n) b"
    and "word_of_nat (length (items_bytes rt (put_opt n w_int32 c))) = size_opt (s_int32 rt n) c"
    and "word_of_nat (length (items_bytes rt (put_opt n w_bool d))) =
      size_opt (\<lambda>_. if n < 16 then 2 else 3) d"
    and "word_of_nat (length (items_bytes rt (put_opt n w_float e))) =
      size_opt (\<lambda>_. if n < 16 then 5 else 6) e"
    and "pred_option (str_ok rt) s \<Longrightarrow>
      word_of_nat (length (items_bytes rt (put_opt n w_string s))) = size_opt (s_string rt n) s"
    and "pred_option bytes_ok g \<Longrightarrow>
      word_of_nat (length (items_bytes rt (put_opt n w_bytes g))) = size_opt (s_bytes rt n) g"
    and "word_of_nat (length (items_bytes rt (put_list n w_uint32 as))) = size_rep (s_uint32 rt n) as"
    and "word_of_nat (length (items_bytes rt (put_list n w_int32 cs))) = size_rep (s_int32 rt n) cs"
    and "list_all (str_ok rt) ss \<Longrightarrow>
      word_of_nat (length (items_bytes rt (put_list n w_string ss))) = size_rep (s_string rt n) ss"
    and "list_all bytes_ok gs \<Longrightarrow>
      word_of_nat (length (items_bytes rt (put_list n w_bytes gs))) = size_rep (s_bytes rt n) gs"
proof -
  note laws = pb_value_size [OF assms(1)] pb_bytes_size [OF assms(1)] pb_bool_size [OF assms]
    pb_float_size [OF assms]
  have n: "n < 2 ^ 29" using assms(3) by simp
  have ok: "pb_field_ok (n, PVarint x)" "pb_field_ok (n, PBytes bs) \<longleftrightarrow> length bs < 2 ^ 32" for x bs
    using assms(2) n by (simp_all add: pb_field_ok_def pb_val_ok_def)
  note rules = w_defs s_defs laws ok str_ok_def bytes_ok_def list_all_iff
  show "word_of_nat (length (items_bytes rt (put_opt n w_uint32 a))) = size_opt (s_uint32 rt n) a"
    by (rule size_put_opt) (simp only: rules)
  show "word_of_nat (length (items_bytes rt (put_opt n w_uint64 b))) = size_opt (s_uint64 rt n) b"
    by (rule size_put_opt) (simp only: rules)
  show "word_of_nat (length (items_bytes rt (put_opt n w_int32 c))) = size_opt (s_int32 rt n) c"
    by (rule size_put_opt) (simp only: rules)
  show "word_of_nat (length (items_bytes rt (put_opt n w_bool d))) =
      size_opt (\<lambda>_. if n < 16 then 2 else 3) d"
    by (rule size_put_opt) (simp add: w_bool_def laws)
  show "word_of_nat (length (items_bytes rt (put_opt n w_float e))) =
      size_opt (\<lambda>_. if n < 16 then 5 else 6) e"
    by (rule size_put_opt) (simp add: w_float_def laws)
  show "word_of_nat (length (items_bytes rt (put_opt n w_string s))) = size_opt (s_string rt n) s"
    if "pred_option (str_ok rt) s"
    using that by (intro size_put_opt) (simp add: w_string_def s_string_def laws ok str_ok_def)
  show "word_of_nat (length (items_bytes rt (put_opt n w_bytes g))) = size_opt (s_bytes rt n) g"
    if "pred_option bytes_ok g"
    using that by (intro size_put_opt) (simp add: w_bytes_def s_bytes_def laws ok bytes_ok_def)
  show "word_of_nat (length (items_bytes rt (put_list n w_uint32 as))) = size_rep (s_uint32 rt n) as"
    by (rule size_put_list) (simp only: rules)
  show "word_of_nat (length (items_bytes rt (put_list n w_int32 cs))) = size_rep (s_int32 rt n) cs"
    by (rule size_put_list) (simp only: rules)
  show "word_of_nat (length (items_bytes rt (put_list n w_string ss))) = size_rep (s_string rt n) ss"
    if "list_all (str_ok rt) ss"
    using that
    by (intro size_put_list) (simp add: w_string_def s_string_def laws ok str_ok_def list_all_iff)
  show "word_of_nat (length (items_bytes rt (put_list n w_bytes gs))) = size_rep (s_bytes rt n) gs"
    if "list_all bytes_ok gs"
    using that
    by (intro size_put_list) (simp add: w_bytes_def s_bytes_def laws ok bytes_ok_def list_all_iff)
qed

lemma size_put_messages [pb_size]:
  assumes "pb_ok rt" and "0 < n" and "n < 2048"
    and "list_all (\<lambda>m. length (body m) < 2 ^ 32 \<and> sz m = word_of_nat (length (body m))) ms"
  shows "word_of_nat (length (items_bytes rt (put_message n sz body ms))) =
    size_rep (\<lambda>m. s_message rt (if n < 16 then 1 else 2) (sz m)) ms"
  using assms(4)
proof (induction ms)
  case (Cons m ms)
  have "pb_field_ok (n, PBytes (body m))"
    using assms(2,3) Cons.prems by (simp add: pb_field_ok_def pb_val_ok_def)
  then have d: "rt_delim rt n (sz m) @ body m = rt_put rt (n, PBytes (body m))"
    using pb_delim [OF assms(1)] Cons.prems by simp
  have "items_bytes rt (put_message n sz body (m # ms)) =
      (rt_delim rt n (sz m) @ body m) @ items_bytes rt (put_message n sz body ms)"
    by (simp add: put_message_def items_bytes_def item_bytes_def)
  then have "items_bytes rt (put_message n sz body (m # ms)) =
      rt_put rt (n, PBytes (body m)) @ items_bytes rt (put_message n sz body ms)"
    unfolding d .
  moreover have "(word_of_nat (length (rt_put rt (n, PBytes (body m)))) :: u32) =
      s_message rt (if n < 16 then 1 else 2) (sz m)"
    using pb_message_size [OF assms(1-3)] Cons.prems by (simp add: s_message_def)
  ultimately show ?case
    using Cons by (simp add: size_rep_def)
qed (simp add: put_message_def size_rep_def)

lemma set_opt_list: "set (opt_list v) = set_option v"
  by (cases v) (simp_all add: opt_list_def)

lemmas pred_defs = option.pred_set list_all_iff set_opt_list str_ok_def bytes_ok_def

section \<open>The contract of a message type\<close>

text \<open>
  What the generated code of a message type promises, for messages that are \<open>ok\<close>: no unknown
  fields, valid strings and contents of fewer than \<open>2\<^sup>3\<^sup>2\<close> bytes.
\<close>

locale pb_message =
  fixes new :: 'm
    and merge_field :: "pb_runtime \<Rightarrow> 'm \<Rightarrow> pb_field \<Rightarrow> 'm option"
    and write_items :: "pb_runtime \<Rightarrow> 'm \<Rightarrow> pb_item list"
    and unknown_fields :: "'m \<Rightarrow> pb_field list"
    and compute_size :: "pb_runtime \<Rightarrow> 'm \<Rightarrow> u32"
    and is_initialized :: "'m \<Rightarrow> bool"
    and ok :: "pb_runtime \<Rightarrow> 'm \<Rightarrow> bool"
  assumes merge_items: "pb_ok rt \<Longrightarrow> ok rt m \<Longrightarrow>
      merge_fields (merge_field rt) (map item_field (write_items rt m)) new = Some m"
    and items_ok: "pb_ok rt \<Longrightarrow> ok rt m \<Longrightarrow> items_ok (write_items rt m)"
    and size_items: "pb_ok rt \<Longrightarrow> ok rt m \<Longrightarrow>
      compute_size rt m = word_of_nat (length (items_bytes rt (write_items rt m)))"
    and no_unknown: "ok rt m \<Longrightarrow> unknown_fields m = []"
begin

lemma write_bytes:
  assumes "pb_ok rt" and "ok rt m"
  shows "write_to rt (write_items rt m) (unknown_fields m) =
    concat (map (rt_put rt) (map item_field (write_items rt m)))"
  using assms items_bytes_fields [OF assms(1) items_ok [OF assms]] no_unknown [OF assms(2)]
  by (simp add: write_to_def pb_unknown)

lemma merge_written:
  assumes "pb_ok rt" and "ok rt m"
  shows "merge_from merge_field rt (write_to rt (write_items rt m) (unknown_fields m)) new = Some m"
proof -
  have "list_all pb_field_ok (map item_field (write_items rt m))"
    using items_ok [OF assms] by (auto simp: list_all_iff items_ok_def item_ok_def)
  then show ?thesis
    using merge_items [OF assms] pb_get [OF assms(1)] unfolding write_bytes [OF assms] merge_from_def
    by (simp del: map_map)
qed

lemma parse_written:
  assumes "pb_ok rt" and "ok rt m" and "is_initialized m"
  shows "parse_from_bytes new merge_field is_initialized rt
    (write_to rt (write_items rt m) (unknown_fields m)) = Some m"
  using merge_written [OF assms(1,2)] assms(3) by (simp add: parse_from_bytes_def)

lemma size_written:
  assumes "pb_ok rt" and "ok rt m"
  shows "compute_size rt m =
    word_of_nat (length (write_to rt (write_items rt m) (unknown_fields m)))"
  using assms size_items [OF assms] no_unknown [OF assms(2)] by (simp add: write_to_def pb_unknown)

lemma read_written:
  assumes "pb_ok rt" and "ok rt m"
  shows "read_message new merge_field rt None
    (PBytes (write_to rt (write_items rt m) (unknown_fields m))) = Some m"
  using merge_written [OF assms] by (simp add: read_message_def)

end

section \<open>The laws can hold\<close>

text \<open>A tag-length-value format with little-endian base-128 numbers that satisfies \<open>pb_ok\<close>.\<close>

fun leb :: "nat \<Rightarrow> bytes" where
  "leb n = (if n < 128 then [word_of_nat n] else word_of_nat (n mod 128 + 128) # leb (n div 128))"

declare leb.simps [simp del]

fun unleb :: "bytes \<Rightarrow> (nat \<times> bytes) option" where
  "unleb [] = None"
| "unleb (b # bs) = (if unat b < 128 then Some (unat b, bs)
     else map_option (\<lambda>(n, r). (unat b - 128 + 128 * n, r)) (unleb bs))"

lemma unat_u8 [simp]: "k < 256 \<Longrightarrow> unat (word_of_nat k :: u8) = k"
  by (simp add: unsigned_of_nat take_bit_nat_eq_self)

lemma unleb_leb: "unleb (leb n @ r) = Some (n, r)"
proof (induction n arbitrary: r rule: leb.induct)
  case (1 n)
  have "n mod 128 + 128 < 256" using mod_less_divisor [of 128 n] by simp
  from unat_u8 [OF this] have "unat (word_of_nat (n mod 128) + 128 :: u8) = n mod 128 + 128" by simp
  with 1 show ?case by (subst leb.simps) simp
qed

lemma length_leb: "n < 128 \<Longrightarrow> length (leb n) = 1" "128 \<le> n \<Longrightarrow> n < 16384 \<Longrightarrow> length (leb n) = 2"
  by (simp_all add: leb.simps [of n] leb.simps [of "n div 128"] less_mult_imp_div_less)

lemma leb_not_Nil [simp]: "leb n \<noteq> []"
  by (simp add: leb.simps [of n])

fun std_put :: "pb_field \<Rightarrow> bytes" where
  "std_put (n, PVarint v) = leb (n * 8) @ leb (unat v)"
| "std_put (n, PFixed64 v) = leb (n * 8 + 1) @ le_bytes 8 v"
| "std_put (n, PBytes b) = leb (n * 8 + 2) @ leb (length b) @ b"
| "std_put (n, PGroup) = leb (n * 8 + 3)"
| "std_put (n, PFixed32 v) = leb (n * 8 + 5) @ le_bytes 4 v"

definition std_field :: "bytes \<Rightarrow> (pb_field \<times> bytes) option" where
  "std_field bs = Option.bind (unleb bs) (\<lambda>(k, r).
     if k mod 8 = 0 then map_option (\<lambda>(x, r). ((k div 8, PVarint (word_of_nat x)), r)) (unleb r)
     else if k mod 8 = 1 then
       (if length r < 8 then None else Some ((k div 8, PFixed64 (of_le (take 8 r))), drop 8 r))
     else if k mod 8 = 2 then
       Option.bind (unleb r) (\<lambda>(l, r).
         if length r < l then None else Some ((k div 8, PBytes (take l r)), drop l r))
     else if k mod 8 = 3 then Some ((k div 8, PGroup), r)
     else if k mod 8 = 5 then
       (if length r < 4 then None else Some ((k div 8, PFixed32 (of_le (take 4 r))), drop 4 r))
     else None)"

fun std_fields :: "nat \<Rightarrow> bytes \<Rightarrow> pb_field list option" where
  "std_fields k [] = Some []"
| "std_fields 0 _ = None"
| "std_fields (Suc k) bs =
     Option.bind (std_field bs) (\<lambda>(f, r). map_option (Cons f) (std_fields k r))"

fun std_packed :: "nat \<Rightarrow> bytes \<Rightarrow> u64 list option" where
  "std_packed k [] = Some []"
| "std_packed 0 _ = None"
| "std_packed (Suc k) bs =
     Option.bind (unleb bs) (\<lambda>(x, r). map_option (Cons (word_of_nat x)) (std_packed k r))"

definition std_runtime :: pb_runtime where
  "std_runtime = \<lparr>rt_put = std_put, rt_delim = (\<lambda>n len. leb (n * 8 + 2) @ leb (unat len)),
     rt_put_unknown = (\<lambda>fs. concat (map std_put fs)), rt_get = (\<lambda>bs. std_fields (length bs) bs),
     rt_as_u32 = ucast, rt_as_i32 = ucast, rt_as_bool = (\<lambda>v. v \<noteq> 0),
     rt_packed = (\<lambda>bs. std_packed (length bs) bs), rt_utf8 = (\<lambda>_. True),
     rt_value_size = (\<lambda>n v. word_of_nat (length (std_put (n, PVarint v)))),
     rt_bytes_size = (\<lambda>n b. word_of_nat (length (std_put (n, PBytes b)))),
     rt_raw_varint32_size = (\<lambda>len. word_of_nat (length (leb (unat len)))),
     rt_unknown_size = (\<lambda>fs. word_of_nat (length (concat (map std_put fs)))),
     rt_merge_nested = False\<rparr>"

lemma std_field_put: "std_field (std_put f @ r) = Some (f, r)"
proof (cases f)
  case (Pair n v)
  have small: "(n * 8 + k) mod 8 = k" "(n * 8 + k) div 8 = n" if "k < 8" for k
    using that by simp_all
  have "of_le (le_bytes 8 x) = x" for x :: u64
    using of_le_le_bytes [of 8 x] by simp
  moreover have "of_le (le_bytes 4 x) = x" for x :: u32
    using of_le_le_bytes [of 4 x] by simp
  ultimately show ?thesis
    unfolding Pair using small [of 1] small [of 2]
    by (cases v) (simp_all add: std_field_def unleb_leb small)
qed

lemma std_fields_put:
  "length bs \<ge> length (concat (map std_put fs)) \<Longrightarrow>
    std_fields (length bs) (concat (map std_put fs)) = Some fs"
proof (induction fs arbitrary: bs)
  case (Cons f fs)
  have "0 < length (std_put f)"
    by (cases f; cases "snd f") auto
  then obtain b bs' where p: "std_put f = b # bs'" by (cases "std_put f") auto
  with Cons.prems obtain c cs where bs: "bs = c # cs" by (cases bs) auto
  from Cons.IH [of cs] Cons.prems bs p
  have "std_fields (length cs) (concat (map std_put fs)) = Some fs" by simp
  with std_field_put [of f "concat (map std_put fs)"] show ?case
    by (simp add: bs p)
qed simp

lemma std_runtime_ok: "pb_ok std_runtime"
proof -
  have i32: "ucast (scast v :: u64) = v" for v :: u32
    by transfer (simp add: take_bit_signed_take_bit)
  have u32: "ucast (ucast v :: u64) = v" for v :: u32 by transfer simp
  have len: "unat (word_of_nat (length b) :: u32) = length b" if "length b < 2 ^ 32" for b :: bytes
    using that by (simp add: unsigned_of_nat take_bit_nat_eq_self)
  have tag: "length (leb (n * 8 + k)) = (if n < 16 then 1 else 2)"
    if "n < 2048" "k < 8" for n k
    using that by (simp add: length_leb)
  note tag0 = tag [of _ 0, simplified]
  show ?thesis
    unfolding pb_ok_def std_runtime_def
    by (auto simp: std_fields_put i32 u32 len tag tag0 length_leb pb_field_ok_def pb_val_ok_def
        leb.simps [of 0] leb.simps [of "Suc 0"])
qed

end
