(* ===== verification/Mumble_Session.thy ===== *)
theory Mumble_Session
  imports Wire
begin

text \<open>
  The messages of \<open>src/src/proto/mumble.rs\<close> that set up and keep a session: \<open>Version\<close>, \<open>UDPTunnel\<close>,
  \<open>Authenticate\<close>, \<open>Ping\<close>, \<open>CryptSetup\<close>, \<open>CodecVersion\<close>, \<open>ServerSync\<close> and \<open>ServerConfig\<close>. A message is a
  record with the fields of the struct; \<open>M_merge_field\<close> is the body of the loop of \<open>merge_from\<close>,
  \<open>M_compute_size\<close> and \<open>M_write_items\<close> are the generated functions of these names, and each type
  is an instance of the contract \<open>pb_message\<close>.
\<close>

section \<open>Version\<close>

record Version =
  Version_version :: "u32 option"
  Version_release :: "string option"
  Version_os :: "string option"
  Version_os_version :: "string option"
  Version_unknown_fields :: "pb_field list"

definition Version_new :: Version where
  "Version_new = \<lparr>Version_version = None, Version_release = None, Version_os = None,
     Version_os_version = None,
     Version_unknown_fields = []\<rparr>"

definition Version_is_initialized :: "Version \<Rightarrow> bool" where
  "Version_is_initialized m = True"

definition Version_merge_field :: "pb_runtime \<Rightarrow> Version \<Rightarrow> pb_field \<Rightarrow> Version option" where
  "Version_merge_field rt m f = (case f of (n, v) \<Rightarrow>
     if n = 1 then map_option (\<lambda>tmp. m\<lparr>Version_version := Some tmp\<rparr>) (read_uint32 rt v)
     else if n = 2 then map_option (\<lambda>tmp. m\<lparr>Version_release := Some tmp\<rparr>) (read_string rt v)
     else if n = 3 then map_option (\<lambda>tmp. m\<lparr>Version_os := Some tmp\<rparr>) (read_string rt v)
     else if n = 4 then map_option (\<lambda>tmp. m\<lparr>Version_os_version := Some tmp\<rparr>) (read_string rt v)
     else Some (m\<lparr>Version_unknown_fields := Version_unknown_fields m @ read_unknown f\<rparr>))"

definition Version_compute_size :: "pb_runtime \<Rightarrow> Version \<Rightarrow> u32" where
  "Version_compute_size rt m =
     size_opt (s_uint32 rt 1) (Version_version m) +
     size_opt (s_string rt 2) (Version_release m) +
     size_opt (s_string rt 3) (Version_os m) +
     size_opt (s_string rt 4) (Version_os_version m) +
     rt_unknown_size rt (Version_unknown_fields m)"

definition Version_write_items :: "pb_runtime \<Rightarrow> Version \<Rightarrow> pb_item list" where
  "Version_write_items rt m =
     put_opt 1 w_uint32 (Version_version m) @
     put_opt 2 w_string (Version_release m) @
     put_opt 3 w_string (Version_os m) @
     put_opt 4 w_string (Version_os_version m)"

definition Version_write_to :: "pb_runtime \<Rightarrow> Version \<Rightarrow> bytes" where
  "Version_write_to rt m = write_to rt (Version_write_items rt m) (Version_unknown_fields m)"

definition Version_parse :: "pb_runtime \<Rightarrow> bytes \<Rightarrow> Version option" where
  "Version_parse = parse_from_bytes Version_new Version_merge_field Version_is_initialized"

definition Version_ok :: "pb_runtime \<Rightarrow> Version \<Rightarrow> bool" where
  "Version_ok rt m = (Version_unknown_fields m = [] \<and>
     pred_option (str_ok rt) (Version_release m) \<and>
     pred_option (str_ok rt) (Version_os m) \<and>
     pred_option (str_ok rt) (Version_os_version m))"

lemmas Version_merge_put =
  merge_put_opt [where n = 1 and s = "\<lambda>v m. m\<lparr>Version_version := v\<rparr>"
    and P = "\<lambda>_. True"]
  merge_put_opt [where n = 2 and s = "\<lambda>v m. m\<lparr>Version_release := v\<rparr>"
    and P = "str_ok rt" and step = "Version_merge_field rt"]
  merge_put_opt [where n = 3 and s = "\<lambda>v m. m\<lparr>Version_os := v\<rparr>"
    and P = "str_ok rt" and step = "Version_merge_field rt"]
  merge_put_opt [where n = 4 and s = "\<lambda>v m. m\<lparr>Version_os_version := v\<rparr>"
    and P = "str_ok rt" and step = "Version_merge_field rt"]
  for rt

interpretation Version: pb_message Version_new Version_merge_field Version_write_items
  Version_unknown_fields Version_compute_size Version_is_initialized Version_ok
proof unfold_locales
  fix rt m assume rt: "pb_ok rt" and m: "Version_ok rt m"
  show "merge_fields (Version_merge_field rt) (map item_field (Version_write_items rt m)) Version_new = Some m"
    using m by (simp add: Version_write_items_def Version_new_def Version_merge_field_def Version_ok_def
        Version_merge_put pb_read rt del: One_nat_def)
  show "items_ok (Version_write_items rt m)"
    using m by (auto simp: Version_write_items_def Version_ok_def pb_item rt pred_defs)
  show "Version_compute_size rt m = word_of_nat (length (items_bytes rt (Version_write_items rt m)))"
    using m by (simp add: Version_write_items_def Version_compute_size_def Version_ok_def pb_size rt pb_unknown
        pred_defs)
qed (simp add: Version_ok_def)

lemmas Version_parse_written = Version.parse_written [folded Version_write_to_def Version_parse_def]
lemmas Version_size_written = Version.size_written [folded Version_write_to_def]

section \<open>UDPTunnel\<close>

record UDPTunnel =
  UDPTunnel_packet :: "bytes option"
  UDPTunnel_unknown_fields :: "pb_field list"

definition UDPTunnel_new :: UDPTunnel where
  "UDPTunnel_new = \<lparr>UDPTunnel_packet = None,
     UDPTunnel_unknown_fields = []\<rparr>"

definition UDPTunnel_is_initialized :: "UDPTunnel \<Rightarrow> bool" where
  "UDPTunnel_is_initialized m = (UDPTunnel_packet m \<noteq> None)"

definition UDPTunnel_merge_field :: "pb_runtime \<Rightarrow> UDPTunnel \<Rightarrow> pb_field \<Rightarrow> UDPTunnel option" where
  "UDPTunnel_merge_field rt m f = (case f of (n, v) \<Rightarrow>
     if n = 1 then map_option (\<lambda>tmp. m\<lparr>UDPTunnel_packet := Some tmp\<rparr>) (read_bytes rt v)
     else Some (m\<lparr>UDPTunnel_unknown_fields := UDPTunnel_unknown_fields m @ read_unknown f\<rparr>))"

definition UDPTunnel_compute_size :: "pb_runtime \<Rightarrow> UDPTunnel \<Rightarrow> u32" where
  "UDPTunnel_compute_size rt m =
     size_opt (s_bytes rt 1) (UDPTunnel_packet m) +
     rt_unknown_size rt (UDPTunnel_unknown_fields m)"

definition UDPTunnel_write_items :: "pb_runtime \<Rightarrow> UDPTunnel \<Rightarrow> pb_item list" where
  "UDPTunnel_write_items rt m =
     put_opt 1 w_bytes (UDPTunnel_packet m)"

definition UDPTunnel_write_to :: "pb_runtime \<Rightarrow> UDPTunnel \<Rightarrow> bytes" where
  "UDPTunnel_write_to rt m = write_to rt (UDPTunnel_write_items rt m) (UDPTunnel_unknown_fields m)"

definition UDPTunnel_parse :: "pb_runtime \<Rightarrow> bytes \<Rightarrow> UDPTunnel option" where
  "UDPTunnel_parse = parse_from_bytes UDPTunnel_new UDPTunnel_merge_field UDPTunnel_is_initialized"

definition UDPTunnel_ok :: "pb_runtime \<Rightarrow> UDPTunnel \<Rightarrow> bool" where
  "UDPTunnel_ok rt m = (UDPTunnel_unknown_fields m = [] \<and>
     pred_option bytes_ok (UDPTunnel_packet m))"

lemmas UDPTunnel_merge_put =
  merge_put_opt [where n = 1 and s = "\<lambda>v m. m\<lparr>UDPTunnel_packet := v\<rparr>"
    and P = "\<lambda>_. True"]


interpretation UDPTunnel: pb_message UDPTunnel_new UDPTunnel_merge_field UDPTunnel_write_items
  UDPTunnel_unknown_fields UDPTunnel_compute_size UDPTunnel_is_initialized UDPTunnel_ok
proof unfold_locales
  fix rt m assume rt: "pb_ok rt" and m: "UDPTunnel_ok rt m"
  show "merge_fields (UDPTunnel_merge_field rt) (map item_field (UDPTunnel_write_items rt m)) UDPTunnel_new = Some m"
    using m by (simp add: UDPTunnel_write_items_def UDPTunnel_new_def UDPTunnel_merge_field_def UDPTunnel_ok_def
        UDPTunnel_merge_put pb_read rt del: One_nat_def)
  show "items_ok (UDPTunnel_write_items rt m)"
    using m by (auto simp: UDPTunnel_write_items_def UDPTunnel_ok_def pb_item rt pred_defs)
  show "UDPTunnel_compute_size rt m = word_of_nat (length (items_bytes rt (UDPTunnel_write_items rt m)))"
    using m by (simp add: UDPTunnel_write_items_def UDPTunnel_compute_size_def UDPTunnel_ok_def pb_size rt pb_unknown
        pred_defs)
qed (simp add: UDPTunnel_ok_def)

lemmas UDPTunnel_parse_written = UDPTunnel.parse_written [folded UDPTunnel_write_to_def UDPTunnel_parse_def]
lemmas UDPTunnel_size_written = UDPTunnel.size_written [folded UDPTunnel_write_to_def]

section \<open>Authenticate\<close>

record Authenticate =
  Authenticate_username :: "string option"
  Authenticate_password :: "string option"
  Authenticate_tokens :: "string list"
  Authenticate_celt_versions :: "i32 list"
  Authenticate_opus :: "bool option"
  Authenticate_unknown_fields :: "pb_field list"

definition Authenticate_new :: Authenticate where
  "Authenticate_new = \<lparr>Authenticate_username = None, Authenticate_password = None, Authenticate_tokens = [],
     Authenticate_celt_versions = [], Authenticate_opus = None,
     Authenticate_unknown_fields = []\<rparr>"

definition Authenticate_is_initialized :: "Authenticate \<Rightarrow> bool" where
  "Authenticate_is_initialized m = True"

definition Authenticate_merge_field :: "pb_runtime \<Rightarrow> Authenticate \<Rightarrow> pb_field \<Rightarrow> Authenticate option" where
  "Authenticate_merge_field rt m f = (case f of (n, v) \<Rightarrow>
     if n = 1 then map_option (\<lambda>tmp. m\<lparr>Authenticate_username := Some tmp\<rparr>) (read_string rt v)
     else if n = 2 then map_option (\<lambda>tmp. m\<lparr>Authenticate_password := Some tmp\<rparr>) (read_string rt v)
     else if n = 3 then map_option (\<lambda>tmp. m\<lparr>Authenticate_tokens := Authenticate_tokens m @ [tmp]\<rparr>) (read_string rt v)
     else if n = 4 then map_option (\<lambda>tmp. m\<lparr>Authenticate_celt_versions := Authenticate_celt_versions m @ tmp\<rparr>) (read_repeated_int32 rt v)
     else if n = 5 then map_option (\<lambda>tmp. m\<lparr>Authenticate_opus := Some tmp\<rparr>) (read_bool rt v)
     else Some (m\<lparr>Authenticate_unknown_fields := Authenticate_unknown_fields m @ read_unknown f\<rparr>))"

definition Authenticate_compute_size :: "pb_runtime \<Rightarrow> Authenticate \<Rightarrow> u32" where
  "Authenticate_compute_size rt m =
     size_opt (s_string rt 1) (Authenticate_username m) +
     size_opt (s_string rt 2) (Authenticate_password m) +
     size_rep (s_string rt 3) (Authenticate_tokens m) +
     size_rep (s_int32 rt 4) (Authenticate_celt_versions m) +
     size_opt (\<lambda>_. 2) (Authenticate_opus m) +
     rt_unknown_size rt (Authenticate_unknown_fields m)"

definition Authenticate_write_items :: "pb_runtime \<Rightarrow> Authenticate \<Rightarrow> pb_item list" where
  "Authenticate_write_items rt m =
     put_opt 1 w_string (Authenticate_username m) @
     put_opt 2 w_string (Authenticate_password m) @
     put_list 3 w_string (Authenticate_tokens m) @
     put_list 4 w_int32 (Authenticate_celt_versions m) @
     put_opt 5 w_bool (Authenticate_opus m)"

definition Authenticate_write_to :: "pb_runtime \<Rightarrow> Authenticate \<Rightarrow> bytes" where
  "Authenticate_write_to rt m = write_to rt (Authenticate_write_items rt m) (Authenticate_unknown_fields m)"

definition Authenticate_parse :: "pb_runtime \<Rightarrow> bytes \<Rightarrow> Authenticate option" where
  "Authenticate_parse = parse_from_bytes Authenticate_new Authenticate_merge_field Authenticate_is_initialized"

definition Authenticate_ok :: "pb_runtime \<Rightarrow> Authenticate \<Rightarrow> bool" where
  "Authenticate_ok rt m = (Authenticate_unknown_fields m = [] \<and>
     pred_option (str_ok rt) (Authenticate_username m) \<and>
     pred_option (str_ok rt) (Authenticate_password m) \<and>
     list_all (str_ok rt) (Authenticate_tokens m))"

lemmas Authenticate_merge_put =
  merge_put_opt [where n = 1 and s = "\<lambda>v m. m\<lparr>Authenticate_username := v\<rparr>"
    and P = "str_ok rt" and step = "Authenticate_merge_field rt"]
  merge_put_opt [where n = 2 and s = "\<lambda>v m. m\<lparr>Authenticate_password := v\<rparr>"
    and P = "str_ok rt" and step = "Authenticate_merge_field rt"]
  merge_put_list [where n = 3 and s = "\<lambda>v m. m\<lparr>Authenticate_tokens := v\<rparr>"
    and P = "str_ok rt" and step = "Authenticate_merge_field rt"]
  merge_put_list [where n = 4 and s = "\<lambda>v m. m\<lparr>Authenticate_celt_versions := v\<rparr>"
    and P = "\<lambda>_. True"]
  merge_put_opt [where n = 5 and s = "\<lambda>v m. m\<lparr>Authenticate_opus := v\<rparr>"
    and P = "\<lambda>_. True"]
  for rt

interpretation Authenticate: pb_message Authenticate_new Authenticate_merge_field Authenticate_write_items
  Authenticate_unknown_fields Authenticate_compute_size Authenticate_is_initialized Authenticate_ok
proof unfold_locales
  fix rt m assume rt: "pb_ok rt" and m: "Authenticate_ok rt m"
  show "merge_fields (Authenticate_merge_field rt) (map item_field (Authenticate_write_items rt m)) Authenticate_new = Some m"
    using m by (simp add: Authenticate_write_items_def Authenticate_new_def Authenticate_merge_field_def Authenticate_ok_def
        Authenticate_merge_put pb_read rt del: One_nat_def)
  show "items_ok (Authenticate_write_items rt m)"
    using m by (auto simp: Authenticate_write_items_def Authenticate_ok_def pb_item rt pred_defs)
  show "Authenticate_compute_size rt m = word_of_nat (length (items_bytes rt (Authenticate_write_items rt m)))"
    using m by (simp add: Authenticate_write_items_def Authenticate_compute_size_def Authenticate_ok_def pb_size rt pb_unknown
        pred_defs)
qed (simp add: Authenticate_ok_def)

lemmas Authenticate_parse_written = Authenticate.parse_written [folded Authenticate_write_to_def Authenticate_parse_def]
lemmas Authenticate_size_written = Authenticate.size_written [folded Authenticate_write_to_def]

section \<open>Ping\<close>

record Ping =
  Ping_timestamp :: "u64 option"
  Ping_good :: "u32 option"
  Ping_late :: "u32 option"
  Ping_lost :: "u32 option"
  Ping_resync :: "u32 option"
  Ping_udp_packets :: "u32 option"
  Ping_tcp_packets :: "u32 option"
  Ping_udp_ping_avg :: "f32 option"
  Ping_udp_ping_var :: "f32 option"
  Ping_tcp_ping_avg :: "f32 option"
  Ping_tcp_ping_var :: "f32 option"
  Ping_unknown_fields :: "pb_field list"

definition Ping_new :: Ping where
  "Ping_new = \<lparr>Ping_timestamp = None, Ping_good = None, Ping_late = None, Ping_lost = None,
     Ping_resync = None, Ping_udp_packets = None, Ping_tcp_packets = None,
     Ping_udp_ping_avg = None, Ping_udp_ping_var = None, Ping_tcp_ping_avg = None,
     Ping_tcp_ping_var = None,
     Ping_unknown_fields = []\<rparr>"

definition Ping_is_initialized :: "Ping \<Rightarrow> bool" where
  "Ping_is_initialized m = True"

definition Ping_merge_field :: "pb_runtime \<Rightarrow> Ping \<Rightarrow> pb_field \<Rightarrow> Ping option" where
  "Ping_merge_field rt m f = (case f of (n, v) \<Rightarrow>
     if n = 1 then map_option (\<lambda>tmp. m\<lparr>Ping_timestamp := Some tmp\<rparr>) (read_uint64 rt v)
     else if n = 2 then map_option (\<lambda>tmp. m\<lparr>Ping_good := Some tmp\<rparr>) (read_uint32 rt v)
     else if n = 3 then map_option (\<lambda>tmp. m\<lparr>Ping_late := Some tmp\<rparr>) (read_uint32 rt v)
     else if n = 4 then map_option (\<lambda>tmp. m\<lparr>Ping_lost := Some tmp\<rparr>) (read_uint32 rt v)
     else if n = 5 then map_option (\<lambda>tmp. m\<lparr>Ping_resync := Some tmp\<rparr>) (read_uint32 rt v)
     else if n = 6 then map_option (\<lambda>tmp. m\<lparr>Ping_udp_packets := Some tmp\<rparr>) (read_uint32 rt v)
     else if n = 7 then map_option (\<lambda>tmp. m\<lparr>Ping_tcp_packets := Some tmp\<rparr>) (read_uint32 rt v)
     else if n = 8 then map_option (\<lambda>tmp. m\<lparr>Ping_udp_ping_avg := Some tmp\<rparr>) (read_float rt v)
     else if n = 9 then map_option (\<lambda>tmp. m\<lparr>Ping_udp_ping_var := Some tmp\<rparr>) (read_float rt v)
     else if n = 10 then map_option (\<lambda>tmp. m\<lparr>Ping_tcp_ping_avg := Some tmp\<rparr>) (read_float rt v)
     else if n = 11 then map_option (\<lambda>tmp. m\<lparr>Ping_tcp_ping_var := Some tmp\<rparr>) (read_float rt v)
     else Some (m\<lparr>Ping_unknown_fields := Ping_unknown_fields m @ read_unknown f\<rparr>))"

definition Ping_compute_size :: "pb_runtime \<Rightarrow> Ping \<Rightarrow> u32" where
  "Ping_compute_size rt m =
     size_opt (s_uint64 rt 1) (Ping_timestamp m) +
     size_opt (s_uint32 rt 2) (Ping_good m) +
     size_opt (s_uint32 rt 3) (Ping_late m) +
     size_opt (s_uint32 rt 4) (Ping_lost m) +
     size_opt (s_uint32 rt 5) (Ping_resync m) +
     size_opt (s_uint32 rt 6) (Ping_udp_packets m) +
     size_opt (s_uint32 rt 7) (Ping_tcp_packets m) +
     size_opt (\<lambda>_. 5) (Ping_udp_ping_avg m) +
     size_opt (\<lambda>_. 5) (Ping_udp_ping_var m) +
     size_opt (\<lambda>_. 5) (Ping_tcp_ping_avg m) +
     size_opt (\<lambda>_. 5) (Ping_tcp_ping_var m) +
     rt_unknown_size rt (Ping_unknown_fields m)"

definition Ping_write_items :: "pb_runtime \<Rightarrow> Ping \<Rightarrow> pb_item list" where
  "Ping_write_items rt m =
     put_opt 1 w_uint64 (Ping_timestamp m) @
     put_opt 2 w_uint32 (Ping_good m) @
     put_opt 3 w_uint32 (Ping_late m) @
     put_opt 4 w_uint32 (Ping_lost m) @
     put_opt 5 w_uint32 (Ping_resync m) @
     put_opt 6 w_uint32 (Ping_udp_packets m) @
     put_opt 7 w_uint32 (Ping_tcp_packets m) @
     put_opt 8 w_float (Ping_udp_ping_avg m) @
     put_opt 9 w_float (Ping_udp_ping_var m) @
     put_opt 10 w_float (Ping_tcp_ping_avg m) @
     put_opt 11 w_float (Ping_tcp_ping_var m)"

definition Ping_write_to :: "pb_runtime \<Rightarrow> Ping \<Rightarrow> bytes" where
  "Ping_write_to rt m = write_to rt (Ping_write_items rt m) (Ping_unknown_fields m)"

definition Ping_parse :: "pb_runtime \<Rightarrow> bytes \<Rightarrow> Ping option" where
  "Ping_parse = parse_from_bytes Ping_new Ping_merge_field Ping_is_initialized"

definition Ping_ok :: "pb_runtime \<Rightarrow> Ping \<Rightarrow> bool" where
  "Ping_ok rt m = (Ping_unknown_fields m = [])"

lemmas Ping_merge_put =
  merge_put_opt [where n = 1 and s = "\<lambda>v m. m\<lparr>Ping_timestamp := v\<rparr>"
    and P = "\<lambda>_. True"]
  merge_put_opt [where n = 2 and s = "\<lambda>v m. m\<lparr>Ping_good := v\<rparr>"
    and P = "\<lambda>_. True"]
  merge_put_opt [where n = 3 and s = "\<lambda>v m. m\<lparr>Ping_late := v\<rparr>"
    and P = "\<lambda>_. True"]
  merge_put_opt [where n = 4 and s = "\<lambda>v m. m\<lparr>Ping_lost := v\<rparr>"
    and P = "\<lambda>_. True"]
  merge_put_opt [where n = 5 and s = "\<lambda>v m. m\<lparr>Ping_resync := v\<rparr>"
    and P = "\<lambda>_. True"]
  merge_put_opt [where n = 6 and s = "\<lambda>v m. m\<lparr>Ping_udp_packets := v\<rparr>"
    and P = "\<lambda>_. True"]
  merge_put_opt [where n = 7 and s = "\<lambda>v m. m\<lparr>Ping_tcp_packets := v\<rparr>"
    and P = "\<lambda>_. True"]
  merge_put_opt [where n = 8 and s = "\<lambda>v m. m\<lparr>Ping_udp_ping_avg := v\<rparr>"
    and P = "\<lambda>_. True"]
  merge_put_opt [where n = 9 and s = "\<lambda>v m. m\<lparr>Ping_udp_ping_var := v\<rparr>"
    and P = "\<lambda>_. True"]
  merge_put_opt [where n = 10 and s = "\<lambda>v m. m\<lparr>Ping_tcp_ping_avg := v\<rparr>"
    and P = "\<lambda>_. True"]
  merge_put_opt [where n = 11 and s = "\<lambda>v m. m\<lparr>Ping_tcp_ping_var := v\<rparr>"
    and P = "\<lambda>_. True"]


interpretation Ping: pb_message Ping_new Ping_merge_field Ping_write_items
  Ping_unknown_fields Ping_compute_size Ping_is_initialized Ping_ok
proof unfold_locales
  fix rt m assume rt: "pb_ok rt" and m: "Ping_ok rt m"
  show "merge_fields (Ping_merge_field rt) (map item_field (Ping_write_items rt m)) Ping_new = Some m"
    using m by (simp add: Ping_write_items_def Ping_new_def Ping_merge_field_def Ping_ok_def
        Ping_merge_put pb_read rt del: One_nat_def)
  show "items_ok (Ping_write_items rt m)"
    using m by (auto simp: Ping_write_items_def Ping_ok_def pb_item rt pred_defs)
  show "Ping_compute_size rt m = word_of_nat (length (items_bytes rt (Ping_write_items rt m)))"
    using m by (simp add: Ping_write_items_def Ping_compute_size_def Ping_ok_def pb_size rt pb_unknown
        pred_defs)
qed (simp add: Ping_ok_def)

lemmas Ping_parse_written = Ping.parse_written [folded Ping_write_to_def Ping_parse_def]
lemmas Ping_size_written = Ping.size_written [folded Ping_write_to_def]

section \<open>CryptSetup\<close>

record CryptSetup =
  CryptSetup_key :: "bytes option"
  CryptSetup_client_nonce :: "bytes option"
  CryptSetup_server_nonce :: "bytes option"
  CryptSetup_unknown_fields :: "pb_field list"

definition CryptSetup_new :: CryptSetup where
  "CryptSetup_new = \<lparr>CryptSetup_key = None, CryptSetup_client_nonce = None, CryptSetup_server_nonce = None,
     CryptSetup_unknown_fields = []\<rparr>"

definition CryptSetup_is_initialized :: "CryptSetup \<Rightarrow> bool" where
  "CryptSetup_is_initialized m = True"

definition CryptSetup_merge_field :: "pb_runtime \<Rightarrow> CryptSetup \<Rightarrow> pb_field \<Rightarrow> CryptSetup option" where
  "CryptSetup_merge_field rt m f = (case f of (n, v) \<Rightarrow>
     if n = 1 then map_option (\<lambda>tmp. m\<lparr>CryptSetup_key := Some tmp\<rparr>) (read_bytes rt v)
     else if n = 2 then map_option (\<lambda>tmp. m\<lparr>CryptSetup_client_nonce := Some tmp\<rparr>) (read_bytes rt v)
     else if n = 3 then map_option (\<lambda>tmp. m\<lparr>CryptSetup_server_nonce := Some tmp\<rparr>) (read_bytes rt v)
     else Some (m\<lparr>CryptSetup_unknown_fields := CryptSetup_unknown_fields m @ read_unknown f\<rparr>))"

definition CryptSetup_compute_size :: "pb_runtime \<Rightarrow> CryptSetup \<Rightarrow> u32" where
  "CryptSetup_compute_size rt m =
     size_opt (s_bytes rt 1) (CryptSetup_key m) +
     size_opt (s_bytes rt 2) (CryptSetup_client_nonce m) +
     size_opt (s_bytes rt 3) (CryptSetup_server_nonce m) +
     rt_unknown_size rt (CryptSetup_unknown_fields m)"

definition CryptSetup_write_items :: "pb_runtime \<Rightarrow> CryptSetup \<Rightarrow> pb_item list" where
  "CryptSetup_write_items rt m =
     put_opt 1 w_bytes (CryptSetup_key m) @
     put_opt 2 w_bytes (CryptSetup_client_nonce m) @
     put_opt 3 w_bytes (CryptSetup_server_nonce m)"

definition CryptSetup_write_to :: "pb_runtime \<Rightarrow> CryptSetup \<Rightarrow> bytes" where
  "CryptSetup_write_to rt m = write_to rt (CryptSetup_write_items rt m) (CryptSetup_unknown_fields m)"

definition CryptSetup_parse :: "pb_runtime \<Rightarrow> bytes \<Rightarrow> CryptSetup option" where
  "CryptSetup_parse = parse_from_bytes CryptSetup_new CryptSetup_merge_field CryptSetup_is_initialized"

definition CryptSetup_ok :: "pb_runtime \<Rightarrow> CryptSetup \<Rightarrow> bool" where
  "CryptSetup_ok rt m = (CryptSetup_unknown_fields m = [] \<and>
     pred_option bytes_ok (CryptSetup_key m) \<and>
     pred_option bytes_ok (CryptSetup_client_nonce m) \<and>
     pred_option bytes_ok (CryptSetup_server_nonce m))"

lemmas CryptSetup_merge_put =
  merge_put_opt [where n = 1 and s = "\<lambda>v m. m\<lparr>CryptSetup_key := v\<rparr>"
    and P = "\<lambda>_. True"]
  merge_put_opt [where n = 2 and s = "\<lambda>v m. m\<lparr>CryptSetup_client_nonce := v\<rparr>"
    and P = "\<lambda>_. True"]
  merge_put_opt [where n = 3 and s = "\<lambda>v m. m\<lparr>CryptSetup_server_nonce := v\<rparr>"
    and P = "\<lambda>_. True"]


interpretation CryptSetup: pb_message CryptSetup_new CryptSetup_merge_field CryptSetup_write_items
  CryptSetup_unknown_fields CryptSetup_compute_size CryptSetup_is_initialized CryptSetup_ok
proof unfold_locales
  fix rt m assume rt: "pb_ok rt" and m: "CryptSetup_ok rt m"
  show "merge_fields (CryptSetup_merge_field rt) (map item_field (CryptSetup_write_items rt m)) CryptSetup_new = Some m"
    using m by (simp add: CryptSetup_write_items_def CryptSetup_new_def CryptSetup_merge_field_def CryptSetup_ok_def
        CryptSetup_merge_put pb_read rt del: One_nat_def)
  show "items_ok (CryptSetup_write_items rt m)"
    using m by (auto simp: CryptSetup_write_items_def CryptSetup_ok_def pb_item rt pred_defs)
  show "CryptSetup_compute_size rt m = word_of_nat (length (items_bytes rt (CryptSetup_write_items rt m)))"
    using m by (simp add: CryptSetup_write_items_def CryptSetup_compute_size_def CryptSetup_ok_def pb_size rt pb_unknown
        pred_defs)
qed (simp add: CryptSetup_ok_def)

lemmas CryptSetup_parse_written = CryptSetup.parse_written [folded CryptSetup_write_to_def CryptSetup_parse_def]
lemmas CryptSetup_size_written = CryptSetup.size_written [folded CryptSetup_write_to_def]

section \<open>CodecVersion\<close>

record CodecVersion =
  CodecVersion_alpha :: "i32 option"
  CodecVersion_beta :: "i32 option"
  CodecVersion_prefer_alpha :: "bool option"
  CodecVersion_opus :: "bool option"
  CodecVersion_unknown_fields :: "pb_field list"

definition CodecVersion_new :: CodecVersion where
  "CodecVersion_new = \<lparr>CodecVersion_alpha = None, CodecVersion_beta = None, CodecVersion_prefer_alpha = None,
     CodecVersion_opus = None,
     CodecVersion_unknown_fields = []\<rparr>"

definition CodecVersion_is_initialized :: "CodecVersion \<Rightarrow> bool" where
  "CodecVersion_is_initialized m = (CodecVersion_alpha m \<noteq> None \<and> CodecVersion_beta m \<noteq> None \<and> CodecVersion_prefer_alpha m \<noteq> None)"

definition CodecVersion_merge_field :: "pb_runtime \<Rightarrow> CodecVersion \<Rightarrow> pb_field \<Rightarrow> CodecVersion option" where
  "CodecVersion_merge_field rt m f = (case f of (n, v) \<Rightarrow>
     if n = 1 then map_option (\<lambda>tmp. m\<lparr>CodecVersion_alpha := Some tmp\<rparr>) (read_int32 rt v)
     else if n = 2 then map_option (\<lambda>tmp. m\<lparr>CodecVersion_beta := Some tmp\<rparr>) (read_int32 rt v)
     else if n = 3 then map_option (\<lambda>tmp. m\<lparr>CodecVersion_prefer_alpha := Some tmp\<rparr>) (read_bool rt v)
     else if n = 4 then map_option (\<lambda>tmp. m\<lparr>CodecVersion_opus := Some tmp\<rparr>) (read_bool rt v)
     else Some (m\<lparr>CodecVersion_unknown_fields := CodecVersion_unknown_fields m @ read_unknown f\<rparr>))"

definition CodecVersion_compute_size :: "pb_runtime \<Rightarrow> CodecVersion \<Rightarrow> u32" where
  "CodecVersion_compute_size rt m =
     size_opt (s_int32 rt 1) (CodecVersion_alpha m) +
     size_opt (s_int32 rt 2) (CodecVersion_beta m) +
     size_opt (\<lambda>_. 2) (CodecVersion_prefer_alpha m) +
     size_opt (\<lambda>_. 2) (CodecVersion_opus m) +
     rt_unknown_size rt (CodecVersion_unknown_fields m)"

definition CodecVersion_write_items :: "pb_runtime \<Rightarrow> CodecVersion \<Rightarrow> pb_item list" where
  "CodecVersion_write_items rt m =
     put_opt 1 w_int32 (CodecVersion_alpha m) @
     put_opt 2 w_int32 (CodecVersion_beta m) @
     put_opt 3 w_bool (CodecVersion_prefer_alpha m) @
     put_opt 4 w_bool (CodecVersion_opus m)"

definition CodecVersion_write_to :: "pb_runtime \<Rightarrow> CodecVersion \<Rightarrow> bytes" where
  "CodecVersion_write_to rt m = write_to rt (CodecVersion_write_items rt m) (CodecVersion_unknown_fields m)"

definition CodecVersion_parse :: "pb_runtime \<Rightarrow> bytes \<Rightarrow> CodecVersion option" where
  "CodecVersion_parse = parse_from_bytes CodecVersion_new CodecVersion_merge_field CodecVersion_is_initialized"

definition CodecVersion_ok :: "pb_runtime \<Rightarrow> CodecVersion \<Rightarrow> bool" where
  "CodecVersion_ok rt m = (CodecVersion_unknown_fields m = [])"

lemmas CodecVersion_merge_put =
  merge_put_opt [where n = 1 and s = "\<lambda>v m. m\<lparr>CodecVersion_alpha := v\<rparr>"
    and P = "\<lambda>_. True"]
  merge_put_opt [where n = 2 and s = "\<lambda>v m. m\<lparr>CodecVersion_beta := v\<rparr>"
    and P = "\<lambda>_. True"]
  merge_put_opt [where n = 3 and s = "\<lambda>v m. m\<lparr>CodecVersion_prefer_alpha := v\<rparr>"
    and P = "\<lambda>_. True"]
  merge_put_opt [where n = 4 and s = "\<lambda>v m. m\<lparr>CodecVersion_opus := v\<rparr>"
    and P = "\<lambda>_. True"]


interpretation CodecVersion: pb_message CodecVersion_new CodecVersion_merge_field CodecVersion_write_items
  CodecVersion_unknown_fields CodecVersion_compute_size CodecVersion_is_initialized CodecVersion_ok
proof unfold_locales
  fix rt m assume rt: "pb_ok rt" and m: "CodecVersion_ok rt m"
  show "merge_fields (CodecVersion_merge_field rt) (map item_field (CodecVersion_write_items rt m)) CodecVersion_new = Some m"
    using m by (simp add: CodecVersion_write_items_def CodecVersion_new_def CodecVersion_merge_field_def CodecVersion_ok_def
        CodecVersion_merge_put pb_read rt del: One_nat_def)
  show "items_ok (CodecVersion_write_items rt m)"
    using m by (auto simp: CodecVersion_write_items_def CodecVersion_ok_def pb_item rt pred_defs)
  show "CodecVersion_compute_size rt m = word_of_nat (length (items_bytes rt (CodecVersion_write_items rt m)))"
    using m by (simp add: CodecVersion_write_items_def CodecVersion_compute_size_def CodecVersion_ok_def pb_size rt pb_unknown
        pred_defs)
qed (simp add: CodecVersion_ok_def)

lemmas CodecVersion_parse_written = CodecVersion.parse_written [folded CodecVersion_write_to_def CodecVersion_parse_def]
lemmas CodecVersion_size_written = CodecVersion.size_written [folded CodecVersion_write_to_def]

section \<open>ServerSync\<close>

record ServerSync =
  ServerSync_session :: "u32 option"
  ServerSync_max_bandwidth :: "u32 option"
  ServerSync_welcome_text :: "string option"
  ServerSync_permissions :: "u64 option"
  ServerSync_unknown_fields :: "pb_field list"

definition ServerSync_new :: ServerSync where
  "ServerSync_new = \<lparr>ServerSync_session = None, ServerSync_max_bandwidth = None, ServerSync_welcome_text = None,
     ServerSync_permissions = None,
     ServerSync_unknown_fields = []\<rparr>"

definition ServerSync_is_initialized :: "ServerSync \<Rightarrow> bool" where
  "ServerSync_is_initialized m = True"

definition ServerSync_merge_field :: "pb_runtime \<Rightarrow> ServerSync \<Rightarrow> pb_field \<Rightarrow> ServerSync option" where
  "ServerSync_merge_field rt m f = (case f of (n, v) \<Rightarrow>
     if n = 1 then map_option (\<lambda>tmp. m\<lparr>ServerSync_session := Some tmp\<rparr>) (read_uint32 rt v)
     else if n = 2 then map_option (\<lambda>tmp. m\<lparr>ServerSync_max_bandwidth := Some tmp\<rparr>) (read_uint32 rt v)
     else if n = 3 then map_option (\<lambda>tmp. m\<lparr>ServerSync_welcome_text := Some tmp\<rparr>) (read_string rt v)
     else if n = 4 then map_option (\<lambda>tmp. m\<lparr>ServerSync_permissions := Some tmp\<rparr>) (read_uint64 rt v)
     else Some (m\<lparr>ServerSync_unknown_fields := ServerSync_unknown_fields m @ read_unknown f\<rparr>))"

definition ServerSync_compute_size :: "pb_runtime \<Rightarrow> ServerSync \<Rightarrow> u32" where
  "ServerSync_compute_size rt m =
     size_opt (s_uint32 rt 1) (ServerSync_session m) +
     size_opt (s_uint32 rt 2) (ServerSync_max_bandwidth m) +
     size_opt (s_string rt 3) (ServerSync_welcome_text m) +
     size_opt (s_uint64 rt 4) (ServerSync_permissions m) +
     rt_unknown_size rt (ServerSync_unknown_fields m)"

definition ServerSync_write_items :: "pb_runtime \<Rightarrow> ServerSync \<Rightarrow> pb_item list" where
  "ServerSync_write_items rt m =
     put_opt 1 w_uint32 (ServerSync_session m) @
     put_opt 2 w_uint32 (ServerSync_max_bandwidth m) @
     put_opt 3 w_string (ServerSync_welcome_text m) @
     put_opt 4 w_uint64 (ServerSync_permissions m)"

definition ServerSync_write_to :: "pb_runtime \<Rightarrow> ServerSync \<Rightarrow> bytes" where
  "ServerSync_write_to rt m = write_to rt (ServerSync_write_items rt m) (ServerSync_unknown_fields m)"

definition ServerSync_parse :: "pb_runtime \<Rightarrow> bytes \<Rightarrow> ServerSync option" where
  "ServerSync_parse = parse_from_bytes ServerSync_new ServerSync_merge_field ServerSync_is_initialized"

definition ServerSync_ok :: "pb_runtime \<Rightarrow> ServerSync \<Rightarrow> bool" where
  "ServerSync_ok rt m = (ServerSync_unknown_fields m = [] \<and>
     pred_option (str_ok rt) (ServerSync_welcome_text m))"

lemmas ServerSync_merge_put =
  merge_put_opt [where n = 1 and s = "\<lambda>v m. m\<lparr>ServerSync_session := v\<rparr>"
    and P = "\<lambda>_. True"]
  merge_put_opt [where n = 2 and s = "\<lambda>v m. m\<lparr>ServerSync_max_bandwidth := v\<rparr>"
    and P = "\<lambda>_. True"]
  merge_put_opt [where n = 3 and s = "\<lambda>v m. m\<lparr>ServerSync_welcome_text := v\<rparr>"
    and P = "str_ok rt" and step = "ServerSync_merge_field rt"]
  merge_put_opt [where n = 4 and s = "\<lambda>v m. m\<lparr>ServerSync_permissions := v\<rparr>"
    and P = "\<lambda>_. True"]
  for rt

interpretation ServerSync: pb_message ServerSync_new ServerSync_merge_field ServerSync_write_items
  ServerSync_unknown_fields ServerSync_compute_size ServerSync_is_initialized ServerSync_ok
proof unfold_locales
  fix rt m assume rt: "pb_ok rt" and m: "ServerSync_ok rt m"
  show "merge_fields (ServerSync_merge_field rt) (map item_field (ServerSync_write_items rt m)) ServerSync_new = Some m"
    using m by (simp add: ServerSync_write_items_def ServerSync_new_def ServerSync_merge_field_def ServerSync_ok_def
        ServerSync_merge_put pb_read rt del: One_nat_def)
  show "items_ok (ServerSync_write_items rt m)"
    using m by (auto simp: ServerSync_write_items_def ServerSync_ok_def pb_item rt pred_defs)
  show "ServerSync_compute_size rt m = word_of_nat (length (items_bytes rt (ServerSync_write_items rt m)))"
    using m by (simp add: ServerSync_write_items_def ServerSync_compute_size_def ServerSync_ok_def pb_size rt pb_unknown
        pred_defs)
qed (simp add: ServerSync_ok_def)

lemmas ServerSync_parse_written = ServerSync.parse_written [folded ServerSync_write_to_def ServerSync_parse_def]
lemmas ServerSync_size_written = ServerSync.size_written [folded ServerSync_write_to_def]

section \<open>ServerConfig\<close>

record ServerConfig =
  ServerConfig_max_bandwidth :: "u32 option"
  ServerConfig_welcome_text :: "string option"
  ServerConfig_allow_html :: "bool option"
  ServerConfig_message_length :: "u32 option"
  ServerConfig_image_message_length :: "u32 option"
  ServerConfig_max_users :: "u32 option"
  ServerConfig_unknown_fields :: "pb_field list"

definition ServerConfig_new :: ServerConfig where
  "ServerConfig_new = \<lparr>ServerConfig_max_bandwidth = None, ServerConfig_welcome_text = None,
     ServerConfig_allow_html = None, ServerConfig_message_length = None,
     ServerConfig_image_message_length = None, ServerConfig_max_users = None,
     ServerConfig_unknown_fields = []\<rparr>"

definition ServerConfig_is_initialized :: "ServerConfig \<Rightarrow> bool" where
  "ServerConfig_is_initialized m = True"

definition ServerConfig_merge_field :: "pb_runtime \<Rightarrow> ServerConfig \<Rightarrow> pb_field \<Rightarrow> ServerConfig option" where
  "ServerConfig_merge_field rt m f = (case f of (n, v) \<Rightarrow>
     if n = 1 then map_option (\<lambda>tmp. m\<lparr>ServerConfig_max_bandwidth := Some tmp\<rparr>) (read_uint32 rt v)
     else if n = 2 then map_option (\<lambda>tmp. m\<lparr>ServerConfig_welcome_text := Some tmp\<rparr>) (read_string rt v)
     else if n = 3 then map_option (\<lambda>tmp. m\<lparr>ServerConfig_allow_html := Some tmp\<rparr>) (read_bool rt v)
     else if n = 4 then map_option (\<lambda>tmp. m\<lparr>ServerConfig_message_length := Some tmp\<rparr>) (read_uint32 rt v)
     else if n = 5 then map_option (\<lambda>tmp. m\<lparr>ServerConfig_image_message_length := Some tmp\<rparr>) (read_uint32 rt v)
     else if n = 6 then map_option (\<lambda>tmp. m\<lparr>ServerConfig_max_users := Some tmp\<rparr>) (read_uint32 rt v)
     else Some (m\<lparr>ServerConfig_unknown_fields := ServerConfig_unknown_fields m @ read_unknown f\<rparr>))"

definition ServerConfig_compute_size :: "pb_runtime \<Rightarrow> ServerConfig \<Rightarrow> u32" where
  "ServerConfig_compute_size rt m =
     size_opt (s_uint32 rt 1) (ServerConfig_max_bandwidth m) +
     size_opt (s_string rt 2) (ServerConfig_welcome_text m) +
     size_opt (\<lambda>_. 2) (ServerConfig_allow_html m) +
     size_opt (s_uint32 rt 4) (ServerConfig_message_length m) +
     size_opt (s_uint32 rt 5) (ServerConfig_image_message_length m) +
     size_opt (s_uint32 rt 6) (ServerConfig_max_users m) +
     rt_unknown_size rt (ServerConfig_unknown_fields m)"

definition ServerConfig_write_items :: "pb_runtime \<Rightarrow> ServerConfig \<Rightarrow> pb_item list" where
  "ServerConfig_write_items rt m =
     put_opt 1 w_uint32 (ServerConfig_max_bandwidth m) @
     put_opt 2 w_string (ServerConfig_welcome_text m) @
     put_opt 3 w_bool (ServerConfig_allow_html m) @
     put_opt 4 w_uint32 (ServerConfig_message_length m) @
     put_opt 5 w_uint32 (ServerConfig_image_message_length m) @
     put_opt 6 w_uint32 (ServerConfig_max_users m)"

definition ServerConfig_write_to :: "pb_runtime \<Rightarrow> ServerConfig \<Rightarrow> bytes" where
  "ServerConfig_write_to rt m = write_to rt (ServerConfig_write_items rt m) (ServerConfig_unknown_fields m)"

definition ServerConfig_parse :: "pb_runtime \<Rightarrow> bytes \<Rightarrow> ServerConfig option" where
  "ServerConfig_parse = parse_from_bytes ServerConfig_new ServerConfig_merge_field ServerConfig_is_initialized"

definition ServerConfig_ok :: "pb_runtime \<Rightarrow> ServerConfig \<Rightarrow> bool" where
  "ServerConfig_ok rt m = (ServerConfig_unknown_fields m = [] \<and>
     pred_option (str_ok rt) (ServerConfig_welcome_text m))"

lemmas ServerConfig_merge_put =
  merge_put_opt [where n = 1 and s = "\<lambda>v m. m\<lparr>ServerConfig_max_bandwidth := v\<rparr>"
    and P = "\<lambda>_. True"]
  merge_put_opt [where n = 2 and s = "\<lambda>v m. m\<lparr>ServerConfig_welcome_text := v\<rparr>"
    and P = "str_ok rt" and step = "ServerConfig_merge_field rt"]
  merge_put_opt [where n = 3 and s = "\<lambda>v m. m\<lparr>ServerConfig_allow_html := v\<rparr>"
    and P = "\<lambda>_. True"]
  merge_put_opt [where n = 4 and s = "\<lambda>v m. m\<lparr>ServerConfig_message_length := v\<rparr>"
    and P = "\<lambda>_. True"]
  merge_put_opt [where n = 5 and s = "\<lambda>v m. m\<lparr>ServerConfig_image_message_length := v\<rparr>"
    and P = "\<lambda>_. True"]
  merge_put_opt [where n = 6 and s = "\<lambda>v m. m\<lparr>ServerConfig_max_users := v\<rparr>"
    and P = "\<lambda>_. True"]
  for rt

interpretation ServerConfig: pb_message ServerConfig_new ServerConfig_merge_field ServerConfig_write_items
  ServerConfig_unknown_fields ServerConfig_compute_size ServerConfig_is_initialized ServerConfig_ok
proof unfold_locales
  fix rt m assume rt: "pb_ok rt" and m: "ServerConfig_ok rt m"
  show "merge_fields (ServerConfig_merge_field rt) (map item_field (ServerConfig_write_items rt m)) ServerConfig_new = Some m"
    using m by (simp add: ServerConfig_write_items_def ServerConfig_new_def ServerConfig_merge_field_def ServerConfig_ok_def
        ServerConfig_merge_put pb_read rt del: One_nat_def)
  show "items_ok (ServerConfig_write_items rt m)"
    using m by (auto simp: ServerConfig_write_items_def ServerConfig_ok_def pb_item rt pred_defs)
  show "ServerConfig_compute_size rt m = word_of_nat (length (items_bytes rt (ServerConfig_write_items rt m)))"
    using m by (simp add: ServerConfig_write_items_def ServerConfig_compute_size_def ServerConfig_ok_def pb_size rt pb_unknown
        pred_defs)
qed (simp add: ServerConfig_ok_def)

lemmas ServerConfig_parse_written = ServerConfig.parse_written [folded ServerConfig_write_to_def ServerConfig_parse_def]
lemmas ServerConfig_size_written = ServerConfig.size_written [folded ServerConfig_write_to_def]

end
