(* ===== verification/Mumble_State.thy ===== *)
theory Mumble_State
  imports Mumble_Session
begin

text \<open>
  The messages of \<open>src/src/proto/mumble.rs\<close> that describe channels and users: \<open>ChannelRemove\<close>,
  \<open>ChannelState\<close>, \<open>UserRemove\<close>, \<open>UserState\<close>, \<open>VoiceTarget\<close>, \<open>PermissionQuery\<close> and \<open>UserStats\<close>, in the
  form of \<open>Mumble_Session\<close>.
\<close>

section \<open>ChannelRemove\<close>

record ChannelRemove =
  ChannelRemove_channel_id :: "u32 option"
  ChannelRemove_unknown_fields :: "pb_field list"

definition ChannelRemove_new :: ChannelRemove where
  "ChannelRemove_new = \<lparr>ChannelRemove_channel_id = None,
     ChannelRemove_unknown_fields = []\<rparr>"

definition ChannelRemove_is_initialized :: "ChannelRemove \<Rightarrow> bool" where
  "ChannelRemove_is_initialized m = (ChannelRemove_channel_id m \<noteq> None)"

definition ChannelRemove_merge_field :: "pb_runtime \<Rightarrow> ChannelRemove \<Rightarrow> pb_field \<Rightarrow> ChannelRemove option" where
  "ChannelRemove_merge_field rt m f = (case f of (n, v) \<Rightarrow>
     if n = 1 then map_option (\<lambda>tmp. m\<lparr>ChannelRemove_channel_id := Some tmp\<rparr>) (read_uint32 rt v)
     else Some (m\<lparr>ChannelRemove_unknown_fields := ChannelRemove_unknown_fields m @ read_unknown f\<rparr>))"

definition ChannelRemove_compute_size :: "pb_runtime \<Rightarrow> ChannelRemove \<Rightarrow> u32" where
  "ChannelRemove_compute_size rt m =
     size_opt (s_uint32 rt 1) (ChannelRemove_channel_id m) +
     rt_unknown_size rt (ChannelRemove_unknown_fields m)"

definition ChannelRemove_write_items :: "pb_runtime \<Rightarrow> ChannelRemove \<Rightarrow> pb_item list" where
  "ChannelRemove_write_items rt m =
     put_opt 1 w_uint32 (ChannelRemove_channel_id m)"

definition ChannelRemove_write_to :: "pb_runtime \<Rightarrow> ChannelRemove \<Rightarrow> bytes" where
  "ChannelRemove_write_to rt m = write_to rt (ChannelRemove_write_items rt m) (ChannelRemove_unknown_fields m)"

definition ChannelRemove_parse :: "pb_runtime \<Rightarrow> bytes \<Rightarrow> ChannelRemove option" where
  "ChannelRemove_parse = parse_from_bytes ChannelRemove_new ChannelRemove_merge_field ChannelRemove_is_initialized"

definition ChannelRemove_ok :: "pb_runtime \<Rightarrow> ChannelRemove \<Rightarrow> bool" where
  "ChannelRemove_ok rt m = (ChannelRemove_unknown_fields m = [])"

lemmas ChannelRemove_merge_put =
  merge_put_opt [where n = 1 and s = "\<lambda>v m. m\<lparr>ChannelRemove_channel_id := v\<rparr>"
    and P = "\<lambda>_. True"]


interpretation ChannelRemove: pb_message ChannelRemove_new ChannelRemove_merge_field ChannelRemove_write_items
  ChannelRemove_unknown_fields ChannelRemove_compute_size ChannelRemove_is_initialized ChannelRemove_ok
proof unfold_locales
  fix rt m assume rt: "pb_ok rt" and m: "ChannelRemove_ok rt m"
  show "merge_fields (ChannelRemove_merge_field rt) (map item_field (ChannelRemove_write_items rt m)) ChannelRemove_new = Some m"
    using m by (simp add: ChannelRemove_write_items_def ChannelRemove_new_def ChannelRemove_merge_field_def ChannelRemove_ok_def
        ChannelRemove_merge_put pb_read rt del: One_nat_def)
  show "items_ok (ChannelRemove_write_items rt m)"
    using m by (auto simp: ChannelRemove_write_items_def ChannelRemove_ok_def pb_item rt pred_defs)
  show "ChannelRemove_compute_size rt m = word_of_nat (length (items_bytes rt (ChannelRemove_write_items rt m)))"
    using m by (simp add: ChannelRemove_write_items_def ChannelRemove_compute_size_def ChannelRemove_ok_def pb_size rt pb_unknown
        pred_defs)
qed (simp add: ChannelRemove_ok_def)

lemmas ChannelRemove_parse_written = ChannelRemove.parse_written [folded ChannelRemove_write_to_def ChannelRemove_parse_def]
lemmas ChannelRemove_size_written = ChannelRemove.size_written [folded ChannelRemove_write_to_def]

section \<open>ChannelState\<close>

record ChannelState =
  ChannelState_channel_id :: "u32 option"
  ChannelState_parent :: "u32 option"
  ChannelState_name :: "string option"
  ChannelState_links :: "u32 list"
  ChannelState_description :: "string option"
  ChannelState_links_add :: "u32 list"
  ChannelState_links_remove :: "u32 list"
  ChannelState_temporary :: "bool option"
  ChannelState_position :: "i32 option"
  ChannelState_description_hash :: "bytes option"
  ChannelState_max_users :: "u32 option"
  ChannelState_is_enter_restricted :: "bool option"
  ChannelState_can_enter :: "bool option"
  ChannelState_unknown_fields :: "pb_field list"

definition ChannelState_new :: ChannelState where
  "ChannelState_new = \<lparr>ChannelState_channel_id = None, ChannelState_parent = None, ChannelState_name = None,
     ChannelState_links = [], ChannelState_description = None, ChannelState_links_add = [],
     ChannelState_links_remove = [], ChannelState_temporary = None, ChannelState_position = None,
     ChannelState_description_hash = None, ChannelState_max_users = None,
     ChannelState_is_enter_restricted = None, ChannelState_can_enter = None,
     ChannelState_unknown_fields = []\<rparr>"

definition ChannelState_is_initialized :: "ChannelState \<Rightarrow> bool" where
  "ChannelState_is_initialized m = True"

definition ChannelState_merge_field :: "pb_runtime \<Rightarrow> ChannelState \<Rightarrow> pb_field \<Rightarrow> ChannelState option" where
  "ChannelState_merge_field rt m f = (case f of (n, v) \<Rightarrow>
     if n = 1 then map_option (\<lambda>tmp. m\<lparr>ChannelState_channel_id := Some tmp\<rparr>) (read_uint32 rt v)
     else if n = 2 then map_option (\<lambda>tmp. m\<lparr>ChannelState_parent := Some tmp\<rparr>) (read_uint32 rt v)
     else if n = 3 then map_option (\<lambda>tmp. m\<lparr>ChannelState_name := Some tmp\<rparr>) (read_string rt v)
     else if n = 4 then map_option (\<lambda>tmp. m\<lparr>ChannelState_links := ChannelState_links m @ tmp\<rparr>) (read_repeated_uint32 rt v)
     else if n = 5 then map_option (\<lambda>tmp. m\<lparr>ChannelState_description := Some tmp\<rparr>) (read_string rt v)
     else if n = 6 then map_option (\<lambda>tmp. m\<lparr>ChannelState_links_add := ChannelState_links_add m @ tmp\<rparr>) (read_repeated_uint32 rt v)
     else if n = 7 then map_option (\<lambda>tmp. m\<lparr>ChannelState_links_remove := ChannelState_links_remove m @ tmp\<rparr>) (read_repeated_uint32 rt v)
     else if n = 8 then map_option (\<lambda>tmp. m\<lparr>ChannelState_temporary := Some tmp\<rparr>) (read_bool rt v)
     else if n = 9 then map_option (\<lambda>tmp. m\<lparr>ChannelState_position := Some tmp\<rparr>) (read_int32 rt v)
     else if n = 10 then map_option (\<lambda>tmp. m\<lparr>ChannelState_description_hash := Some tmp\<rparr>) (read_bytes rt v)
     else if n = 11 then map_option (\<lambda>tmp. m\<lparr>ChannelState_max_users := Some tmp\<rparr>) (read_uint32 rt v)
     else if n = 12 then map_option (\<lambda>tmp. m\<lparr>ChannelState_is_enter_restricted := Some tmp\<rparr>) (read_bool rt v)
     else if n = 13 then map_option (\<lambda>tmp. m\<lparr>ChannelState_can_enter := Some tmp\<rparr>) (read_bool rt v)
     else Some (m\<lparr>ChannelState_unknown_fields := ChannelState_unknown_fields m @ read_unknown f\<rparr>))"

definition ChannelState_compute_size :: "pb_runtime \<Rightarrow> ChannelState \<Rightarrow> u32" where
  "ChannelState_compute_size rt m =
     size_opt (s_uint32 rt 1) (ChannelState_channel_id m) +
     size_opt (s_uint32 rt 2) (ChannelState_parent m) +
     size_opt (s_string rt 3) (ChannelState_name m) +
     size_rep (s_uint32 rt 4) (ChannelState_links m) +
     size_opt (s_string rt 5) (ChannelState_description m) +
     size_rep (s_uint32 rt 6) (ChannelState_links_add m) +
     size_rep (s_uint32 rt 7) (ChannelState_links_remove m) +
     size_opt (\<lambda>_. 2) (ChannelState_temporary m) +
     size_opt (s_int32 rt 9) (ChannelState_position m) +
     size_opt (s_bytes rt 10) (ChannelState_description_hash m) +
     size_opt (s_uint32 rt 11) (ChannelState_max_users m) +
     size_opt (\<lambda>_. 2) (ChannelState_is_enter_restricted m) +
     size_opt (\<lambda>_. 2) (ChannelState_can_enter m) +
     rt_unknown_size rt (ChannelState_unknown_fields m)"

definition ChannelState_write_items :: "pb_runtime \<Rightarrow> ChannelState \<Rightarrow> pb_item list" where
  "ChannelState_write_items rt m =
     put_opt 1 w_uint32 (ChannelState_channel_id m) @
     put_opt 2 w_uint32 (ChannelState_parent m) @
     put_opt 3 w_string (ChannelState_name m) @
     put_list 4 w_uint32 (ChannelState_links m) @
     put_opt 5 w_string (ChannelState_description m) @
     put_list 6 w_uint32 (ChannelState_links_add m) @
     put_list 7 w_uint32 (ChannelState_links_remove m) @
     put_opt 8 w_bool (ChannelState_temporary m) @
     put_opt 9 w_int32 (ChannelState_position m) @
     put_opt 10 w_bytes (ChannelState_description_hash m) @
     put_opt 11 w_uint32 (ChannelState_max_users m) @
     put_opt 12 w_bool (ChannelState_is_enter_restricted m) @
     put_opt 13 w_bool (ChannelState_can_enter m)"

definition ChannelState_write_to :: "pb_runtime \<Rightarrow> ChannelState \<Rightarrow> bytes" where
  "ChannelState_write_to rt m = write_to rt (ChannelState_write_items rt m) (ChannelState_unknown_fields m)"

definition ChannelState_parse :: "pb_runtime \<Rightarrow> bytes \<Rightarrow> ChannelState option" where
  "ChannelState_parse = parse_from_bytes ChannelState_new ChannelState_merge_field ChannelState_is_initialized"

definition ChannelState_ok :: "pb_runtime \<Rightarrow> ChannelState \<Rightarrow> bool" where
  "ChannelState_ok rt m = (ChannelState_unknown_fields m = [] \<and>
     pred_option (str_ok rt) (ChannelState_name m) \<and>
     pred_option (str_ok rt) (ChannelState_description m) \<and>
     pred_option bytes_ok (ChannelState_description_hash m))"

lemmas ChannelState_merge_put =
  merge_put_opt [where n = 1 and s = "\<lambda>v m. m\<lparr>ChannelState_channel_id := v\<rparr>"
    and P = "\<lambda>_. True"]
  merge_put_opt [where n = 2 and s = "\<lambda>v m. m\<lparr>ChannelState_parent := v\<rparr>"
    and P = "\<lambda>_. True"]
  merge_put_opt [where n = 3 and s = "\<lambda>v m. m\<lparr>ChannelState_name := v\<rparr>"
    and P = "str_ok rt" and step = "ChannelState_merge_field rt"]
  merge_put_list [where n = 4 and s = "\<lambda>v m. m\<lparr>ChannelState_links := v\<rparr>"
    and P = "\<lambda>_. True"]
  merge_put_opt [where n = 5 and s = "\<lambda>v m. m\<lparr>ChannelState_description := v\<rparr>"
    and P = "str_ok rt" and step = "ChannelState_merge_field rt"]
  merge_put_list [where n = 6 and s = "\<lambda>v m. m\<lparr>ChannelState_links_add := v\<rparr>"
    and P = "\<lambda>_. True"]
  merge_put_list [where n = 7 and s = "\<lambda>v m. m\<lparr>ChannelState_links_remove := v\<rparr>"
    and P = "\<lambda>_. True"]
  merge_put_opt [where n = 8 and s = "\<lambda>v m. m\<lparr>ChannelState_temporary := v\<rparr>"
    and P = "\<lambda>_. True"]
  merge_put_opt [where n = 9 and s = "\<lambda>v m. m\<lparr>ChannelState_position := v\<rparr>"
    and P = "\<lambda>_. True"]
  merge_put_opt [where n = 10 and s = "\<lambda>v m. m\<lparr>ChannelState_description_hash := v\<rparr>"
    and P = "\<lambda>_. True"]
  merge_put_opt [where n = 11 and s = "\<lambda>v m. m\<lparr>ChannelState_max_users := v\<rparr>"
    and P = "\<lambda>_. True"]
  merge_put_opt [where n = 12 and s = "\<lambda>v m. m\<lparr>ChannelState_is_enter_restricted := v\<rparr>"
    and P = "\<lambda>_. True"]
  merge_put_opt [where n = 13 and s = "\<lambda>v m. m\<lparr>ChannelState_can_enter := v\<rparr>"
    and P = "\<lambda>_. True"]
  for rt

interpretation ChannelState: pb_message ChannelState_new ChannelState_merge_field ChannelState_write_items
  ChannelState_unknown_fields ChannelState_compute_size ChannelState_is_initialized ChannelState_ok
proof unfold_locales
  fix rt m assume rt: "pb_ok rt" and m: "ChannelState_ok rt m"
  show "merge_fields (ChannelState_merge_field rt) (map item_field (ChannelState_write_items rt m)) ChannelState_new = Some m"
    using m by (simp add: ChannelState_write_items_def ChannelState_new_def ChannelState_merge_field_def ChannelState_ok_def
        ChannelState_merge_put pb_read rt del: One_nat_def)
  show "items_ok (ChannelState_write_items rt m)"
    using m by (auto simp: ChannelState_write_items_def ChannelState_ok_def pb_item rt pred_defs)
  show "ChannelState_compute_size rt m = word_of_nat (length (items_bytes rt (ChannelState_write_items rt m)))"
    using m by (simp add: ChannelState_write_items_def ChannelState_compute_size_def ChannelState_ok_def pb_size rt pb_unknown
        pred_defs)
qed (simp add: ChannelState_ok_def)

lemmas ChannelState_parse_written = ChannelState.parse_written [folded ChannelState_write_to_def ChannelState_parse_def]
lemmas ChannelState_size_written = ChannelState.size_written [folded ChannelState_write_to_def]

section \<open>UserRemove\<close>

record UserRemove =
  UserRemove_session :: "u32 option"
  UserRemove_actor :: "u32 option"
  UserRemove_reason :: "string option"
  UserRemove_ban :: "bool option"
  UserRemove_unknown_fields :: "pb_field list"

definition UserRemove_new :: UserRemove where
  "UserRemove_new = \<lparr>UserRemove_session = None, UserRemove_actor = None, UserRemove_reason = None,
     UserRemove_ban = None,
     UserRemove_unknown_fields = []\<rparr>"

definition UserRemove_is_initialized :: "UserRemove \<Rightarrow> bool" where
  "UserRemove_is_initialized m = (UserRemove_session m \<noteq> None)"

definition UserRemove_merge_field :: "pb_runtime \<Rightarrow> UserRemove \<Rightarrow> pb_field \<Rightarrow> UserRemove option" where
  "UserRemove_merge_field rt m f = (case f of (n, v) \<Rightarrow>
     if n = 1 then map_option (\<lambda>tmp. m\<lparr>UserRemove_session := Some tmp\<rparr>) (read_uint32 rt v)
     else if n = 2 then map_option (\<lambda>tmp. m\<lparr>UserRemove_actor := Some tmp\<rparr>) (read_uint32 rt v)
     else if n = 3 then map_option (\<lambda>tmp. m\<lparr>UserRemove_reason := Some tmp\<rparr>) (read_string rt v)
     else if n = 4 then map_option (\<lambda>tmp. m\<lparr>UserRemove_ban := Some tmp\<rparr>) (read_bool rt v)
     else Some (m\<lparr>UserRemove_unknown_fields := UserRemove_unknown_fields m @ read_unknown f\<rparr>))"

definition UserRemove_compute_size :: "pb_runtime \<Rightarrow> UserRemove \<Rightarrow> u32" where
  "UserRemove_compute_size rt m =
     size_opt (s_uint32 rt 1) (UserRemove_session m) +
     size_opt (s_uint32 rt 2) (UserRemove_actor m) +
     size_opt (s_string rt 3) (UserRemove_reason m) +
     size_opt (\<lambda>_. 2) (UserRemove_ban m) +
     rt_unknown_size rt (UserRemove_unknown_fields m)"

definition UserRemove_write_items :: "pb_runtime \<Rightarrow> UserRemove \<Rightarrow> pb_item list" where
  "UserRemove_write_items rt m =
     put_opt 1 w_uint32 (UserRemove_session m) @
     put_opt 2 w_uint32 (UserRemove_actor m) @
     put_opt 3 w_string (UserRemove_reason m) @
     put_opt 4 w_bool (UserRemove_ban m)"

definition UserRemove_write_to :: "pb_runtime \<Rightarrow> UserRemove \<Rightarrow> bytes" where
  "UserRemove_write_to rt m = write_to rt (UserRemove_write_items rt m) (UserRemove_unknown_fields m)"

definition UserRemove_parse :: "pb_runtime \<Rightarrow> bytes \<Rightarrow> UserRemove option" where
  "UserRemove_parse = parse_from_bytes UserRemove_new UserRemove_merge_field UserRemove_is_initialized"

definition UserRemove_ok :: "pb_runtime \<Rightarrow> UserRemove \<Rightarrow> bool" where
  "UserRemove_ok rt m = (UserRemove_unknown_fields m = [] \<and>
     pred_option (str_ok rt) (UserRemove_reason m))"

lemmas UserRemove_merge_put =
  merge_put_opt [where n = 1 and s = "\<lambda>v m. m\<lparr>UserRemove_session := v\<rparr>"
    and P = "\<lambda>_. True"]
  merge_put_opt [where n = 2 and s = "\<lambda>v m. m\<lparr>UserRemove_actor := v\<rparr>"
    and P = "\<lambda>_. True"]
  merge_put_opt [where n = 3 and s = "\<lambda>v m. m\<lparr>UserRemove_reason := v\<rparr>"
    and P = "str_ok rt" and step = "UserRemove_merge_field rt"]
  merge_put_opt [where n = 4 and s = "\<lambda>v m. m\<lparr>UserRemove_ban := v\<rparr>"
    and P = "\<lambda>_. True"]
  for rt

interpretation UserRemove: pb_message UserRemove_new UserRemove_merge_field UserRemove_write_items
  UserRemove_unknown_fields UserRemove_compute_size UserRemove_is_initialized UserRemove_ok
proof unfold_locales
  fix rt m assume rt: "pb_ok rt" and m: "UserRemove_ok rt m"
  show "merge_fields (UserRemove_merge_field rt) (map item_field (UserRemove_write_items rt m)) UserRemove_new = Some m"
    using m by (simp add: UserRemove_write_items_def UserRemove_new_def UserRemove_merge_field_def UserRemove_ok_def
        UserRemove_merge_put pb_read rt del: One_nat_def)
  show "items_ok (UserRemove_write_items rt m)"
    using m by (auto simp: UserRemove_write_items_def UserRemove_ok_def pb_item rt pred_defs)
  show "UserRemove_compute_size rt m = word_of_nat (length (items_bytes rt (UserRemove_write_items rt m)))"
    using m by (simp add: UserRemove_write_items_def UserRemove_compute_size_def UserRemove_ok_def pb_size rt pb_unknown
        pred_defs)
qed (simp add: UserRemove_ok_def)

lemmas UserRemove_parse_written = UserRemove.parse_written [folded UserRemove_write_to_def UserRemove_parse_def]
lemmas UserRemove_size_written = UserRemove.size_written [folded UserRemove_write_to_def]

section \<open>UserState\<close>

record UserState =
  UserState_session :: "u32 option"
  UserState_actor :: "u32 option"
  UserState_name :: "string option"
  UserState_user_id :: "u32 option"
  UserState_channel_id :: "u32 option"
  UserState_mute :: "bool option"
  UserState_deaf :: "bool option"
  UserState_suppress :: "bool option"
  UserState_self_mute :: "bool option"
  UserState_self_deaf :: "bool option"
  UserState_texture :: "bytes option"
  UserState_plugin_context :: "bytes option"
  UserState_plugin_identity :: "string option"
  UserState_comment :: "string option"
  UserState_hash :: "string option"
  UserState_comment_hash :: "bytes option"
  UserState_texture_hash :: "bytes option"
  UserState_priority_speaker :: "bool option"
  UserState_recording :: "bool option"
  UserState_temporary_access_tokens :: "string list"
  UserState_listening_channel_add :: "u32 list"
  UserState_listening_channel_remove :: "u32 list"
  UserState_unknown_fields :: "pb_field list"

definition UserState_new :: UserState where
  "UserState_new = \<lparr>UserState_session = None, UserState_actor = None, UserState_name = None,
     UserState_user_id = None, UserState_channel_id = None, UserState_mute = None,
     UserState_deaf = None, UserState_suppress = None, UserState_self_mute = None,
     UserState_self_deaf = None, UserState_texture = None, UserState_plugin_context = None,
     UserState_plugin_identity = None, UserState_comment = None, UserState_hash = None,
     UserState_comment_hash = None, UserState_texture_hash = None,
     UserState_priority_speaker = None, UserState_recording = None,
     UserState_temporary_access_tokens = [], UserState_listening_channel_add = [],
     UserState_listening_channel_remove = [],
     UserState_unknown_fields = []\<rparr>"

definition UserState_is_initialized :: "UserState \<Rightarrow> bool" where
  "UserState_is_initialized m = True"

definition UserState_merge_field :: "pb_runtime \<Rightarrow> UserState \<Rightarrow> pb_field \<Rightarrow> UserState option" where
  "UserState_merge_field rt m f = (case f of (n, v) \<Rightarrow>
     if n = 1 then map_option (\<lambda>tmp. m\<lparr>UserState_session := Some tmp\<rparr>) (read_uint32 rt v)
     else if n = 2 then map_option (\<lambda>tmp. m\<lparr>UserState_actor := Some tmp\<rparr>) (read_uint32 rt v)
     else if n = 3 then map_option (\<lambda>tmp. m\<lparr>UserState_name := Some tmp\<rparr>) (read_string rt v)
     else if n = 4 then map_option (\<lambda>tmp. m\<lparr>UserState_user_id := Some tmp\<rparr>) (read_uint32 rt v)
     else if n = 5 then map_option (\<lambda>tmp. m\<lparr>UserState_channel_id := Some tmp\<rparr>) (read_uint32 rt v)
     else if n = 6 then map_option (\<lambda>tmp. m\<lparr>UserState_mute := Some tmp\<rparr>) (read_bool rt v)
     else if n = 7 then map_option (\<lambda>tmp. m\<lparr>UserState_deaf := Some tmp\<rparr>) (read_bool rt v)
     else if n = 8 then map_option (\<lambda>tmp. m\<lparr>UserState_suppress := Some tmp\<rparr>) (read_bool rt v)
     else if n = 9 then map_option (\<lambda>tmp. m\<lparr>UserState_self_mute := Some tmp\<rparr>) (read_bool rt v)
     else if n = 10 then map_option (\<lambda>tmp. m\<lparr>UserState_self_deaf := Some tmp\<rparr>) (read_bool rt v)
     else if n = 11 then map_option (\<lambda>tmp. m\<lparr>UserState_texture := Some tmp\<rparr>) (read_bytes rt v)
     else if n = 12 then map_option (\<lambda>tmp. m\<lparr>UserState_plugin_context := Some tmp\<rparr>) (read_bytes rt v)
     else if n = 13 then map_option (\<lambda>tmp. m\<lparr>UserState_plugin_identity := Some tmp\<rparr>) (read_string rt v)
     else if n = 14 then map_option (\<lambda>tmp. m\<lparr>UserState_comment := Some tmp\<rparr>) (read_string rt v)
     else if n = 15 then map_option (\<lambda>tmp. m\<lparr>UserState_hash := Some tmp\<rparr>) (read_string rt v)
     else if n = 16 then map_option (\<lambda>tmp. m\<lparr>UserState_comment_hash := Some tmp\<rparr>) (read_bytes rt v)
     else if n = 17 then map_option (\<lambda>tmp. m\<lparr>UserState_texture_hash := Some tmp\<rparr>) (read_bytes rt v)
     else if n = 18 then map_option (\<lambda>tmp. m\<lparr>UserState_priority_speaker := Some tmp\<rparr>) (read_bool rt v)
     else if n = 19 then map_option (\<lambda>tmp. m\<lparr>UserState_recording := Some tmp\<rparr>) (read_bool rt v)
     else if n = 20 then map_option (\<lambda>tmp. m\<lparr>UserState_temporary_access_tokens := UserState_temporary_access_tokens m @ [tmp]\<rparr>) (read_string rt v)
     else if n = 21 then map_option (\<lambda>tmp. m\<lparr>UserState_listening_channel_add := UserState_listening_channel_add m @ tmp\<rparr>) (read_repeated_uint32 rt v)
     else if n = 22 then map_option (\<lambda>tmp. m\<lparr>UserState_listening_channel_remove := UserState_listening_channel_remove m @ tmp\<rparr>) (read_repeated_uint32 rt v)
     else Some (m\<lparr>UserState_unknown_fields := UserState_unknown_fields m @ read_unknown f\<rparr>))"

definition UserState_compute_size :: "pb_runtime \<Rightarrow> UserState \<Rightarrow> u32" where
  "UserState_compute_size rt m =
     size_opt (s_uint32 rt 1) (UserState_session m) +
     size_opt (s_uint32 rt 2) (UserState_actor m) +
     size_opt (s_string rt 3) (UserState_name m) +
     size_opt (s_uint32 rt 4) (UserState_user_id m) +
     size_opt (s_uint32 rt 5) (UserState_channel_id m) +
     size_opt (\<lambda>_. 2) (UserState_mute m) +
     size_opt (\<lambda>_. 2) (UserState_deaf m) +
     size_opt (\<lambda>_. 2) (UserState_suppress m) +
     size_opt (\<lambda>_. 2) (UserState_self_mute m) +
     size_opt (\<lambda>_. 2) (UserState_self_deaf m) +
     size_opt (s_bytes rt 11) (UserState_texture m) +
     size_opt (s_bytes rt 12) (UserState_plugin_context m) +
     size_opt (s_string rt 13) (UserState_plugin_identity m) +
     size_opt (s_string rt 14) (UserState_comment m) +
     size_opt (s_string rt 15) (UserState_hash m) +
     size_opt (s_bytes rt 16) (UserState_comment_hash m) +
     size_opt (s_bytes rt 17) (UserState_texture_hash m) +
     size_opt (\<lambda>_. 3) (UserState_priority_speaker m) +
     size_opt (\<lambda>_. 3) (UserState_recording m) +
     size_rep (s_string rt 20) (UserState_temporary_access_tokens m) +
     size_rep (s_uint32 rt 21) (UserState_listening_channel_add m) +
     size_rep (s_uint32 rt 22) (UserState_listening_channel_remove m) +
     rt_unknown_size rt (UserState_unknown_fields m)"

definition UserState_write_items :: "pb_runtime \<Rightarrow> UserState \<Rightarrow> pb_item list" where
  "UserState_write_items rt m =
     put_opt 1 w_uint32 (UserState_session m) @
     put_opt 2 w_uint32 (UserState_actor m) @
     put_opt 3 w_string (UserState_name m) @
     put_opt 4 w_uint32 (UserState_user_id m) @
     put_opt 5 w_uint32 (UserState_channel_id m) @
     put_opt 6 w_bool (UserState_mute m) @
     put_opt 7 w_bool (UserState_deaf m) @
     put_opt 8 w_bool (UserState_suppress m) @
     put_opt 9 w_bool (UserState_self_mute m) @
     put_opt 10 w_bool (UserState_self_deaf m) @
     put_opt 11 w_bytes (UserState_texture m) @
     put_opt 12 w_bytes (UserState_plugin_context m) @
     put_opt 13 w_string (UserState_plugin_identity m) @
     put_opt 14 w_string (UserState_comment m) @
     put_opt 15 w_string (UserState_hash m) @
     put_opt 16 w_bytes (UserState_comment_hash m) @
     put_opt 17 w_bytes (UserState_texture_hash m) @
     put_opt 18 w_bool (UserState_priority_speaker m) @
     put_opt 19 w_bool (UserState_recording m) @
     put_list 20 w_string (UserState_temporary_access_tokens m) @
     put_list 21 w_uint32 (UserState_listening_channel_add m) @
     put_list 22 w_uint32 (UserState_listening_channel_remove m)"

definition UserState_write_to :: "pb_runtime \<Rightarrow> UserState \<Rightarrow> bytes" where
  "UserState_write_to rt m = write_to rt (UserState_write_items rt m) (UserState_unknown_fields m)"

definition UserState_parse :: "pb_runtime \<Rightarrow> bytes \<Rightarrow> UserState option" where
  "UserState_parse = parse_from_bytes UserState_new UserState_merge_field UserState_is_initialized"

definition UserState_ok :: "pb_runtime \<Rightarrow> UserState \<Rightarrow> bool" where
  "UserState_ok rt m = (UserState_unknown_fields m = [] \<and>
     pred_option (str_ok rt) (UserState_name m) \<and>
     pred_option bytes_ok (UserState_texture m) \<and>
     pred_option bytes_ok (UserState_plugin_context m) \<and>
     pred_option (str_ok rt) (UserState_plugin_identity m) \<and>
     pred_option (str_ok rt) (UserState_comment m) \<and>
     pred_option (str_ok rt) (UserState_hash m) \<and>
     pred_option bytes_ok (UserState_comment_hash m) \<and>
     pred_option bytes_ok (UserState_texture_hash m) \<and>
     list_all (str_ok rt) (UserState_temporary_access_tokens m))"

lemmas UserState_merge_put =
  merge_put_opt [where n = 1 and s = "\<lambda>v m. m\<lparr>UserState_session := v\<rparr>"
    and P = "\<lambda>_. True"]
  merge_put_opt [where n = 2 and s = "\<lambda>v m. m\<lparr>UserState_actor := v\<rparr>"
    and P = "\<lambda>_. True"]
  merge_put_opt [where n = 3 and s = "\<lambda>v m. m\<lparr>UserState_name := v\<rparr>"
    and P = "str_ok rt" and step = "UserState_merge_field rt"]
  merge_put_opt [where n = 4 and s = "\<lambda>v m. m\<lparr>UserState_user_id := v\<rparr>"
    and P = "\<lambda>_. True"]
  merge_put_opt [where n = 5 and s = "\<lambda>v m. m\<lparr>UserState_channel_id := v\<rparr>"
    and P = "\<lambda>_. True"]
  merge_put_opt [where n = 6 and s = "\<lambda>v m. m\<lparr>UserState_mute := v\<rparr>"
    and P = "\<lambda>_. True"]
  merge_put_opt [where n = 7 and s = "\<lambda>v m. m\<lparr>UserState_deaf := v\<rparr>"
    and P = "\<lambda>_. True"]
  merge_put_opt [where n = 8 and s = "\<lambda>v m. m\<lparr>UserState_suppress := v\<rparr>"
    and P = "\<lambda>_. True"]
  merge_put_opt [where n = 9 and s = "\<lambda>v m. m\<lparr>UserState_self_mute := v\<rparr>"
    and P = "\<lambda>_. True"]
  merge_put_opt [where n = 10 and s = "\<lambda>v m. m\<lparr>UserState_self_deaf := v\<rparr>"
    and P = "\<lambda>_. True"]
  merge_put_opt [where n = 11 and s = "\<lambda>v m. m\<lparr>UserState_texture := v\<rparr>"
    and P = "\<lambda>_. True"]
  merge_put_opt [where n = 12 and s = "\<lambda>v m. m\<lparr>UserState_plugin_context := v\<rparr>"
    and P = "\<lambda>_. True"]
  merge_put_opt [where n = 13 and s = "\<lambda>v m. m\<lparr>UserState_plugin_identity := v\<rparr>"
    and P = "str_ok rt" and step = "UserState_merge_field rt"]
  merge_put_opt [where n = 14 and s = "\<lambda>v m. m\<lparr>UserState_comment := v\<rparr>"
    and P = "str_ok rt" and step = "UserState_merge_field rt"]
  merge_put_opt [where n = 15 and s = "\<lambda>v m. m\<lparr>UserState_hash := v\<rparr>"
    and P = "str_ok rt" and step = "UserState_merge_field rt"]
  merge_put_opt [where n = 16 and s = "\<lambda>v m. m\<lparr>UserState_comment_hash := v\<rparr>"
    and P = "\<lambda>_. True"]
  merge_put_opt [where n = 17 and s = "\<lambda>v m. m\<lparr>UserState_texture_hash := v\<rparr>"
    and P = "\<lambda>_. True"]
  merge_put_opt [where n = 18 and s = "\<lambda>v m. m\<lparr>UserState_priority_speaker := v\<rparr>"
    and P = "\<lambda>_. True"]
  merge_put_opt [where n = 19 and s = "\<lambda>v m. m\<lparr>UserState_recording := v\<rparr>"
    and P = "\<lambda>_. True"]
  merge_put_list [where n = 20 and s = "\<lambda>v m. m\<lparr>UserState_temporary_access_tokens := v\<rparr>"
    and P = "str_ok rt" and step = "UserState_merge_field rt"]
  merge_put_list [where n = 21 and s = "\<lambda>v m. m\<lparr>UserState_listening_channel_add := v\<rparr>"
    and P = "\<lambda>_. True"]
  merge_put_list [where n = 22 and s = "\<lambda>v m. m\<lparr>UserState_listening_channel_remove := v\<rparr>"
    and P = "\<lambda>_. True"]
  for rt

interpretation UserState: pb_message UserState_new UserState_merge_field UserState_write_items
  UserState_unknown_fields UserState_compute_size UserState_is_initialized UserState_ok
proof unfold_locales
  fix rt m assume rt: "pb_ok rt" and m: "UserState_ok rt m"
  show "merge_fields (UserState_merge_field rt) (map item_field (UserState_write_items rt m)) UserState_new = Some m"
    using m by (simp add: UserState_write_items_def UserState_new_def UserState_merge_field_def UserState_ok_def
        UserState_merge_put pb_read rt del: One_nat_def)
  show "items_ok (UserState_write_items rt m)"
    using m by (auto simp: UserState_write_items_def UserState_ok_def pb_item rt pred_defs)
  show "UserState_compute_size rt m = word_of_nat (length (items_bytes rt (UserState_write_items rt m)))"
    using m by (simp add: UserState_write_items_def UserState_compute_size_def UserState_ok_def pb_size rt pb_unknown
        pred_defs)
qed (simp add: UserState_ok_def)

lemmas UserState_parse_written = UserState.parse_written [folded UserState_write_to_def UserState_parse_def]
lemmas UserState_size_written = UserState.size_written [folded UserState_write_to_def]

section \<open>VoiceTarget_Target\<close>

record VoiceTarget_Target =
  VoiceTarget_Target_session :: "u32 list"
  VoiceTarget_Target_channel_id :: "u32 option"
  VoiceTarget_Target_group :: "string option"
  VoiceTarget_Target_links :: "bool option"
  VoiceTarget_Target_children :: "bool option"
  VoiceTarget_Target_unknown_fields :: "pb_field list"

definition VoiceTarget_Target_new :: VoiceTarget_Target where
  "VoiceTarget_Target_new = \<lparr>VoiceTarget_Target_session = [], VoiceTarget_Target_channel_id = None,
     VoiceTarget_Target_group = None, VoiceTarget_Target_links = None,
     VoiceTarget_Target_children = None,
     VoiceTarget_Target_unknown_fields = []\<rparr>"

definition VoiceTarget_Target_is_initialized :: "VoiceTarget_Target \<Rightarrow> bool" where
  "VoiceTarget_Target_is_initialized m = True"

definition VoiceTarget_Target_merge_field :: "pb_runtime \<Rightarrow> VoiceTarget_Target \<Rightarrow> pb_field \<Rightarrow> VoiceTarget_Target option" where
  "VoiceTarget_Target_merge_field rt m f = (case f of (n, v) \<Rightarrow>
     if n = 1 then map_option (\<lambda>tmp. m\<lparr>VoiceTarget_Target_session := VoiceTarget_Target_session m @ tmp\<rparr>) (read_repeated_uint32 rt v)
     else if n = 2 then map_option (\<lambda>tmp. m\<lparr>VoiceTarget_Target_channel_id := Some tmp\<rparr>) (read_uint32 rt v)
     else if n = 3 then map_option (\<lambda>tmp. m\<lparr>VoiceTarget_Target_group := Some tmp\<rparr>) (read_string rt v)
     else if n = 4 then map_option (\<lambda>tmp. m\<lparr>VoiceTarget_Target_links := Some tmp\<rparr>) (read_bool rt v)
     else if n = 5 then map_option (\<lambda>tmp. m\<lparr>VoiceTarget_Target_children := Some tmp\<rparr>) (read_bool rt v)
     else Some (m\<lparr>VoiceTarget_Target_unknown_fields := VoiceTarget_Target_unknown_fields m @ read_unknown f\<rparr>))"

definition VoiceTarget_Target_compute_size :: "pb_runtime \<Rightarrow> VoiceTarget_Target \<Rightarrow> u32" where
  "VoiceTarget_Target_compute_size rt m =
     size_rep (s_uint32 rt 1) (VoiceTarget_Target_session m) +
     size_opt (s_uint32 rt 2) (VoiceTarget_Target_channel_id m) +
     size_opt (s_string rt 3) (VoiceTarget_Target_group m) +
     size_opt (\<lambda>_. 2) (VoiceTarget_Target_links m) +
     size_opt (\<lambda>_. 2) (VoiceTarget_Target_children m) +
     rt_unknown_size rt (VoiceTarget_Target_unknown_fields m)"

definition VoiceTarget_Target_write_items :: "pb_runtime \<Rightarrow> VoiceTarget_Target \<Rightarrow> pb_item list" where
  "VoiceTarget_Target_write_items rt m =
     put_list 1 w_uint32 (VoiceTarget_Target_session m) @
     put_opt 2 w_uint32 (VoiceTarget_Target_channel_id m) @
     put_opt 3 w_string (VoiceTarget_Target_group m) @
     put_opt 4 w_bool (VoiceTarget_Target_links m) @
     put_opt 5 w_bool (VoiceTarget_Target_children m)"

definition VoiceTarget_Target_write_to :: "pb_runtime \<Rightarrow> VoiceTarget_Target \<Rightarrow> bytes" where
  "VoiceTarget_Target_write_to rt m = write_to rt (VoiceTarget_Target_write_items rt m) (VoiceTarget_Target_unknown_fields m)"

definition VoiceTarget_Target_parse :: "pb_runtime \<Rightarrow> bytes \<Rightarrow> VoiceTarget_Target option" where
  "VoiceTarget_Target_parse = parse_from_bytes VoiceTarget_Target_new VoiceTarget_Target_merge_field VoiceTarget_Target_is_initialized"

definition VoiceTarget_Target_ok :: "pb_runtime \<Rightarrow> VoiceTarget_Target \<Rightarrow> bool" where
  "VoiceTarget_Target_ok rt m = (VoiceTarget_Target_unknown_fields m = [] \<and>
     pred_option (str_ok rt) (VoiceTarget_Target_group m))"

lemmas VoiceTarget_Target_merge_put =
  merge_put_list [where n = 1 and s = "\<lambda>v m. m\<lparr>VoiceTarget_Target_session := v\<rparr>"
    and P = "\<lambda>_. True"]
  merge_put_opt [where n = 2 and s = "\<lambda>v m. m\<lparr>VoiceTarget_Target_channel_id := v\<rparr>"
    and P = "\<lambda>_. True"]
  merge_put_opt [where n = 3 and s = "\<lambda>v m. m\<lparr>VoiceTarget_Target_group := v\<rparr>"
    and P = "str_ok rt" and step = "VoiceTarget_Target_merge_field rt"]
  merge_put_opt [where n = 4 and s = "\<lambda>v m. m\<lparr>VoiceTarget_Target_links := v\<rparr>"
    and P = "\<lambda>_. True"]
  merge_put_opt [where n = 5 and s = "\<lambda>v m. m\<lparr>VoiceTarget_Target_children := v\<rparr>"
    and P = "\<lambda>_. True"]
  for rt

interpretation VoiceTarget_Target: pb_message VoiceTarget_Target_new VoiceTarget_Target_merge_field VoiceTarget_Target_write_items
  VoiceTarget_Target_unknown_fields VoiceTarget_Target_compute_size VoiceTarget_Target_is_initialized VoiceTarget_Target_ok
proof unfold_locales
  fix rt m assume rt: "pb_ok rt" and m: "VoiceTarget_Target_ok rt m"
  show "merge_fields (VoiceTarget_Target_merge_field rt) (map item_field (VoiceTarget_Target_write_items rt m)) VoiceTarget_Target_new = Some m"
    using m by (simp add: VoiceTarget_Target_write_items_def VoiceTarget_Target_new_def VoiceTarget_Target_merge_field_def VoiceTarget_Target_ok_def
        VoiceTarget_Target_merge_put pb_read rt del: One_nat_def)
  show "items_ok (VoiceTarget_Target_write_items rt m)"
    using m by (auto simp: VoiceTarget_Target_write_items_def VoiceTarget_Target_ok_def pb_item rt pred_defs)
  show "VoiceTarget_Target_compute_size rt m = word_of_nat (length (items_bytes rt (VoiceTarget_Target_write_items rt m)))"
    using m by (simp add: VoiceTarget_Target_write_items_def VoiceTarget_Target_compute_size_def VoiceTarget_Target_ok_def pb_size rt pb_unknown
        pred_defs)
qed (simp add: VoiceTarget_Target_ok_def)

lemmas VoiceTarget_Target_parse_written = VoiceTarget_Target.parse_written [folded VoiceTarget_Target_write_to_def VoiceTarget_Target_parse_def]
lemmas VoiceTarget_Target_size_written = VoiceTarget_Target.size_written [folded VoiceTarget_Target_write_to_def]

section \<open>VoiceTarget\<close>

record VoiceTarget =
  VoiceTarget_id :: "u32 option"
  VoiceTarget_targets :: "VoiceTarget_Target list"
  VoiceTarget_unknown_fields :: "pb_field list"

definition VoiceTarget_new :: VoiceTarget where
  "VoiceTarget_new = \<lparr>VoiceTarget_id = None, VoiceTarget_targets = [],
     VoiceTarget_unknown_fields = []\<rparr>"

definition VoiceTarget_is_initialized :: "VoiceTarget \<Rightarrow> bool" where
  "VoiceTarget_is_initialized m = (list_all VoiceTarget_Target_is_initialized (VoiceTarget_targets m))"

definition VoiceTarget_merge_field :: "pb_runtime \<Rightarrow> VoiceTarget \<Rightarrow> pb_field \<Rightarrow> VoiceTarget option" where
  "VoiceTarget_merge_field rt m f = (case f of (n, v) \<Rightarrow>
     if n = 1 then map_option (\<lambda>tmp. m\<lparr>VoiceTarget_id := Some tmp\<rparr>) (read_uint32 rt v)
     else if n = 2 then map_option (\<lambda>tmp. m\<lparr>VoiceTarget_targets := VoiceTarget_targets m @ [tmp]\<rparr>) (read_message VoiceTarget_Target_new VoiceTarget_Target_merge_field rt None v)
     else Some (m\<lparr>VoiceTarget_unknown_fields := VoiceTarget_unknown_fields m @ read_unknown f\<rparr>))"

definition VoiceTarget_compute_size :: "pb_runtime \<Rightarrow> VoiceTarget \<Rightarrow> u32" where
  "VoiceTarget_compute_size rt m =
     size_opt (s_uint32 rt 1) (VoiceTarget_id m) +
     size_rep (\<lambda>v. s_message rt 1 (VoiceTarget_Target_compute_size rt v)) (VoiceTarget_targets m) +
     rt_unknown_size rt (VoiceTarget_unknown_fields m)"

definition VoiceTarget_write_items :: "pb_runtime \<Rightarrow> VoiceTarget \<Rightarrow> pb_item list" where
  "VoiceTarget_write_items rt m =
     put_opt 1 w_uint32 (VoiceTarget_id m) @
     put_message 2 (VoiceTarget_Target_compute_size rt) (VoiceTarget_Target_write_to rt) (VoiceTarget_targets m)"

definition VoiceTarget_write_to :: "pb_runtime \<Rightarrow> VoiceTarget \<Rightarrow> bytes" where
  "VoiceTarget_write_to rt m = write_to rt (VoiceTarget_write_items rt m) (VoiceTarget_unknown_fields m)"

definition VoiceTarget_parse :: "pb_runtime \<Rightarrow> bytes \<Rightarrow> VoiceTarget option" where
  "VoiceTarget_parse = parse_from_bytes VoiceTarget_new VoiceTarget_merge_field VoiceTarget_is_initialized"

definition VoiceTarget_ok :: "pb_runtime \<Rightarrow> VoiceTarget \<Rightarrow> bool" where
  "VoiceTarget_ok rt m = (VoiceTarget_unknown_fields m = [] \<and>
     list_all (\<lambda>x. VoiceTarget_Target_ok rt x \<and> length (VoiceTarget_Target_write_to rt x) < 2 ^ 32) (VoiceTarget_targets m))"

lemmas VoiceTarget_merge_put =
  merge_put_opt [where n = 1 and s = "\<lambda>v m. m\<lparr>VoiceTarget_id := v\<rparr>"
    and P = "\<lambda>_. True"]
  merge_put_messages [where n = 2 and s = "\<lambda>v m. m\<lparr>VoiceTarget_targets := v\<rparr>"
    and P = "\<lambda>x. VoiceTarget_Target_ok rt x \<and> length (VoiceTarget_Target_write_to rt x) < 2 ^ 32" and step = "VoiceTarget_merge_field rt"]
  for rt

interpretation VoiceTarget: pb_message VoiceTarget_new VoiceTarget_merge_field VoiceTarget_write_items
  VoiceTarget_unknown_fields VoiceTarget_compute_size VoiceTarget_is_initialized VoiceTarget_ok
proof unfold_locales
  fix rt m assume rt: "pb_ok rt" and m: "VoiceTarget_ok rt m"
  show "merge_fields (VoiceTarget_merge_field rt) (map item_field (VoiceTarget_write_items rt m)) VoiceTarget_new = Some m"
    using m by (simp add: VoiceTarget_write_items_def VoiceTarget_new_def VoiceTarget_merge_field_def VoiceTarget_ok_def
        VoiceTarget_merge_put pb_read rt
        VoiceTarget_Target.read_written [folded VoiceTarget_Target_write_to_def] VoiceTarget_Target.size_written [folded VoiceTarget_Target_write_to_def] del: One_nat_def)
  show "items_ok (VoiceTarget_write_items rt m)"
    using m by (auto simp: VoiceTarget_write_items_def VoiceTarget_ok_def pb_item rt pred_defs
        VoiceTarget_Target.read_written [folded VoiceTarget_Target_write_to_def] VoiceTarget_Target.size_written [folded VoiceTarget_Target_write_to_def])
  show "VoiceTarget_compute_size rt m = word_of_nat (length (items_bytes rt (VoiceTarget_write_items rt m)))"
    using m by (simp add: VoiceTarget_write_items_def VoiceTarget_compute_size_def VoiceTarget_ok_def pb_size rt pb_unknown
        pred_defs
        VoiceTarget_Target.read_written [folded VoiceTarget_Target_write_to_def] VoiceTarget_Target.size_written [folded VoiceTarget_Target_write_to_def])
qed (simp add: VoiceTarget_ok_def)

lemmas VoiceTarget_parse_written = VoiceTarget.parse_written [folded VoiceTarget_write_to_def VoiceTarget_parse_def]
lemmas VoiceTarget_size_written = VoiceTarget.size_written [folded VoiceTarget_write_to_def]

section \<open>PermissionQuery\<close>

record PermissionQuery =
  PermissionQuery_channel_id :: "u32 option"
  PermissionQuery_permissions :: "u32 option"
  PermissionQuery_flush :: "bool option"
  PermissionQuery_unknown_fields :: "pb_field list"

definition PermissionQuery_new :: PermissionQuery where
  "PermissionQuery_new = \<lparr>PermissionQuery_channel_id = None, PermissionQuery_permissions = None,
     PermissionQuery_flush = None,
     PermissionQuery_unknown_fields = []\<rparr>"

definition PermissionQuery_is_initialized :: "PermissionQuery \<Rightarrow> bool" where
  "PermissionQuery_is_initialized m = True"

definition PermissionQuery_merge_field :: "pb_runtime \<Rightarrow> PermissionQuery \<Rightarrow> pb_field \<Rightarrow> PermissionQuery option" where
  "PermissionQuery_merge_field rt m f = (case f of (n, v) \<Rightarrow>
     if n = 1 then map_option (\<lambda>tmp. m\<lparr>PermissionQuery_channel_id := Some tmp\<rparr>) (read_uint32 rt v)
     else if n = 2 then map_option (\<lambda>tmp. m\<lparr>PermissionQuery_permissions := Some tmp\<rparr>) (read_uint32 rt v)
     else if n = 3 then map_option (\<lambda>tmp. m\<lparr>PermissionQuery_flush := Some tmp\<rparr>) (read_bool rt v)
     else Some (m\<lparr>PermissionQuery_unknown_fields := PermissionQuery_unknown_fields m @ read_unknown f\<rparr>))"

definition PermissionQuery_compute_size :: "pb_runtime \<Rightarrow> PermissionQuery \<Rightarrow> u32" where
  "PermissionQuery_compute_size rt m =
     size_opt (s_uint32 rt 1) (PermissionQuery_channel_id m) +
     size_opt (s_uint32 rt 2) (PermissionQuery_permissions m) +
     size_opt (\<lambda>_. 2) (PermissionQuery_flush m) +
     rt_unknown_size rt (PermissionQuery_unknown_fields m)"

definition PermissionQuery_write_items :: "pb_runtime \<Rightarrow> PermissionQuery \<Rightarrow> pb_item list" where
  "PermissionQuery_write_items rt m =
     put_opt 1 w_uint32 (PermissionQuery_channel_id m) @
     put_opt 2 w_uint32 (PermissionQuery_permissions m) @
     put_opt 3 w_bool (PermissionQuery_flush m)"

definition PermissionQuery_write_to :: "pb_runtime \<Rightarrow> PermissionQuery \<Rightarrow> bytes" where
  "PermissionQuery_write_to rt m = write_to rt (PermissionQuery_write_items rt m) (PermissionQuery_unknown_fields m)"

definition PermissionQuery_parse :: "pb_runtime \<Rightarrow> bytes \<Rightarrow> PermissionQuery option" where
  "PermissionQuery_parse = parse_from_bytes PermissionQuery_new PermissionQuery_merge_field PermissionQuery_is_initialized"

definition PermissionQuery_ok :: "pb_runtime \<Rightarrow> PermissionQuery \<Rightarrow> bool" where
  "PermissionQuery_ok rt m = (PermissionQuery_unknown_fields m = [])"

lemmas PermissionQuery_merge_put =
  merge_put_opt [where n = 1 and s = "\<lambda>v m. m\<lparr>PermissionQuery_channel_id := v\<rparr>"
    and P = "\<lambda>_. True"]
  merge_put_opt [where n = 2 and s = "\<lambda>v m. m\<lparr>PermissionQuery_permissions := v\<rparr>"
    and P = "\<lambda>_. True"]
  merge_put_opt [where n = 3 and s = "\<lambda>v m. m\<lparr>PermissionQuery_flush := v\<rparr>"
    and P = "\<lambda>_. True"]


interpretation PermissionQuery: pb_message PermissionQuery_new PermissionQuery_merge_field PermissionQuery_write_items
  PermissionQuery_unknown_fields PermissionQuery_compute_size PermissionQuery_is_initialized PermissionQuery_ok
proof unfold_locales
  fix rt m assume rt: "pb_ok rt" and m: "PermissionQuery_ok rt m"
  show "merge_fields (PermissionQuery_merge_field rt) (map item_field (PermissionQuery_write_items rt m)) PermissionQuery_new = Some m"
    using m by (simp add: PermissionQuery_write_items_def PermissionQuery_new_def PermissionQuery_merge_field_def PermissionQuery_ok_def
        PermissionQuery_merge_put pb_read rt del: One_nat_def)
  show "items_ok (PermissionQuery_write_items rt m)"
    using m by (auto simp: PermissionQuery_write_items_def PermissionQuery_ok_def pb_item rt pred_defs)
  show "PermissionQuery_compute_size rt m = word_of_nat (length (items_bytes rt (PermissionQuery_write_items rt m)))"
    using m by (simp add: PermissionQuery_write_items_def PermissionQuery_compute_size_def PermissionQuery_ok_def pb_size rt pb_unknown
        pred_defs)
qed (simp add: PermissionQuery_ok_def)

lemmas PermissionQuery_parse_written = PermissionQuery.parse_written [folded PermissionQuery_write_to_def PermissionQuery_parse_def]
lemmas PermissionQuery_size_written = PermissionQuery.size_written [folded PermissionQuery_write_to_def]

section \<open>UserStats_Stats\<close>

record UserStats_Stats =
  UserStats_Stats_good :: "u32 option"
  UserStats_Stats_late :: "u32 option"
  UserStats_Stats_lost :: "u32 option"
  UserStats_Stats_resync :: "u32 option"
  UserStats_Stats_unknown_fields :: "pb_field list"

definition UserStats_Stats_new :: UserStats_Stats where
  "UserStats_Stats_new = \<lparr>UserStats_Stats_good = None, UserStats_Stats_late = None, UserStats_Stats_lost = None,
     UserStats_Stats_resync = None,
     UserStats_Stats_unknown_fields = []\<rparr>"

definition UserStats_Stats_is_initialized :: "UserStats_Stats \<Rightarrow> bool" where
  "UserStats_Stats_is_initialized m = True"

definition UserStats_Stats_merge_field :: "pb_runtime \<Rightarrow> UserStats_Stats \<Rightarrow> pb_field \<Rightarrow> UserStats_Stats option" where
  "UserStats_Stats_merge_field rt m f = (case f of (n, v) \<Rightarrow>
     if n = 1 then map_option (\<lambda>tmp. m\<lparr>UserStats_Stats_good := Some tmp\<rparr>) (read_uint32 rt v)
     else if n = 2 then map_option (\<lambda>tmp. m\<lparr>UserStats_Stats_late := Some tmp\<rparr>) (read_uint32 rt v)
     else if n = 3 then map_option (\<lambda>tmp. m\<lparr>UserStats_Stats_lost := Some tmp\<rparr>) (read_uint32 rt v)
     else if n = 4 then map_option (\<lambda>tmp. m\<lparr>UserStats_Stats_resync := Some tmp\<rparr>) (read_uint32 rt v)
     else Some (m\<lparr>UserStats_Stats_unknown_fields := UserStats_Stats_unknown_fields m @ read_unknown f\<rparr>))"

definition UserStats_Stats_compute_size :: "pb_runtime \<Rightarrow> UserStats_Stats \<Rightarrow> u32" where
  "UserStats_Stats_compute_size rt m =
     size_opt (s_uint32 rt 1) (UserStats_Stats_good m) +
     size_opt (s_uint32 rt 2) (UserStats_Stats_late m) +
     size_opt (s_uint32 rt 3) (UserStats_Stats_lost m) +
     size_opt (s_uint32 rt 4) (UserStats_Stats_resync m) +
     rt_unknown_size rt (UserStats_Stats_unknown_fields m)"

definition UserStats_Stats_write_items :: "pb_runtime \<Rightarrow> UserStats_Stats \<Rightarrow> pb_item list" where
  "UserStats_Stats_write_items rt m =
     put_opt 1 w_uint32 (UserStats_Stats_good m) @
     put_opt 2 w_uint32 (UserStats_Stats_late m) @
     put_opt 3 w_uint32 (UserStats_Stats_lost m) @
     put_opt 4 w_uint32 (UserStats_Stats_resync m)"

definition UserStats_Stats_write_to :: "pb_runtime \<Rightarrow> UserStats_Stats \<Rightarrow> bytes" where
  "UserStats_Stats_write_to rt m = write_to rt (UserStats_Stats_write_items rt m) (UserStats_Stats_unknown_fields m)"

definition UserStats_Stats_parse :: "pb_runtime \<Rightarrow> bytes \<Rightarrow> UserStats_Stats option" where
  "UserStats_Stats_parse = parse_from_bytes UserStats_Stats_new UserStats_Stats_merge_field UserStats_Stats_is_initialized"

definition UserStats_Stats_ok :: "pb_runtime \<Rightarrow> UserStats_Stats \<Rightarrow> bool" where
  "UserStats_Stats_ok rt m = (UserStats_Stats_unknown_fields m = [])"

lemmas UserStats_Stats_merge_put =
  merge_put_opt [where n = 1 and s = "\<lambda>v m. m\<lparr>UserStats_Stats_good := v\<rparr>"
    and P = "\<lambda>_. True"]
  merge_put_opt [where n = 2 and s = "\<lambda>v m. m\<lparr>UserStats_Stats_late := v\<rparr>"
    and P = "\<lambda>_. True"]
  merge_put_opt [where n = 3 and s = "\<lambda>v m. m\<lparr>UserStats_Stats_lost := v\<rparr>"
    and P = "\<lambda>_. True"]
  merge_put_opt [where n = 4 and s = "\<lambda>v m. m\<lparr>UserStats_Stats_resync := v\<rparr>"
    and P = "\<lambda>_. True"]


interpretation UserStats_Stats: pb_message UserStats_Stats_new UserStats_Stats_merge_field UserStats_Stats_write_items
  UserStats_Stats_unknown_fields UserStats_Stats_compute_size UserStats_Stats_is_initialized UserStats_Stats_ok
proof unfold_locales
  fix rt m assume rt: "pb_ok rt" and m: "UserStats_Stats_ok rt m"
  show "merge_fields (UserStats_Stats_merge_field rt) (map item_field (UserStats_Stats_write_items rt m)) UserStats_Stats_new = Some m"
    using m by (simp add: UserStats_Stats_write_items_def UserStats_Stats_new_def UserStats_Stats_merge_field_def UserStats_Stats_ok_def
        UserStats_Stats_merge_put pb_read rt del: One_nat_def)
  show "items_ok (UserStats_Stats_write_items rt m)"
    using m by (auto simp: UserStats_Stats_write_items_def UserStats_Stats_ok_def pb_item rt pred_defs)
  show "UserStats_Stats_compute_size rt m = word_of_nat (length (items_bytes rt (UserStats_Stats_write_items rt m)))"
    using m by (simp add: UserStats_Stats_write_items_def UserStats_Stats_compute_size_def UserStats_Stats_ok_def pb_size rt pb_unknown
        pred_defs)
qed (simp add: UserStats_Stats_ok_def)

lemmas UserStats_Stats_parse_written = UserStats_Stats.parse_written [folded UserStats_Stats_write_to_def UserStats_Stats_parse_def]
lemmas UserStats_Stats_size_written = UserStats_Stats.size_written [folded UserStats_Stats_write_to_def]

section \<open>UserStats\<close>

record UserStats =
  UserStats_session :: "u32 option"
  UserStats_stats_only :: "bool option"
  UserStats_certificates :: "bytes list"
  UserStats_from_client :: "UserStats_Stats option"
  UserStats_from_server :: "UserStats_Stats option"
  UserStats_udp_packets :: "u32 option"
  UserStats_tcp_packets :: "u32 option"
  UserStats_udp_ping_avg :: "f32 option"
  UserStats_udp_ping_var :: "f32 option"
  UserStats_tcp_ping_avg :: "f32 option"
  UserStats_tcp_ping_var :: "f32 option"
  UserStats_version :: "Version option"
  UserStats_celt_versions :: "i32 list"
  UserStats_address :: "bytes option"
  UserStats_bandwidth :: "u32 option"
  UserStats_onlinesecs :: "u32 option"
  UserStats_idlesecs :: "u32 option"
  UserStats_strong_certificate :: "bool option"
  UserStats_opus :: "bool option"
  UserStats_unknown_fields :: "pb_field list"

definition UserStats_new :: UserStats where
  "UserStats_new = \<lparr>UserStats_session = None, UserStats_stats_only = None, UserStats_certificates = [],
     UserStats_from_client = None, UserStats_from_server = None, UserStats_udp_packets = None,
     UserStats_tcp_packets = None, UserStats_udp_ping_avg = None, UserStats_udp_ping_var = None,
     UserStats_tcp_ping_avg = None, UserStats_tcp_ping_var = None, UserStats_version = None,
     UserStats_celt_versions = [], UserStats_address = None, UserStats_bandwidth = None,
     UserStats_onlinesecs = None, UserStats_idlesecs = None, UserStats_strong_certificate = None,
     UserStats_opus = None,
     UserStats_unknown_fields = []\<rparr>"

definition UserStats_is_initialized :: "UserStats \<Rightarrow> bool" where
  "UserStats_is_initialized m = (pred_option UserStats_Stats_is_initialized (UserStats_from_client m) \<and> pred_option UserStats_Stats_is_initialized (UserStats_from_server m) \<and> pred_option Version_is_initialized (UserStats_version m))"

definition UserStats_merge_field :: "pb_runtime \<Rightarrow> UserStats \<Rightarrow> pb_field \<Rightarrow> UserStats option" where
  "UserStats_merge_field rt m f = (case f of (n, v) \<Rightarrow>
     if n = 1 then map_option (\<lambda>tmp. m\<lparr>UserStats_session := Some tmp\<rparr>) (read_uint32 rt v)
     else if n = 2 then map_option (\<lambda>tmp. m\<lparr>UserStats_stats_only := Some tmp\<rparr>) (read_bool rt v)
     else if n = 3 then map_option (\<lambda>tmp. m\<lparr>UserStats_certificates := UserStats_certificates m @ [tmp]\<rparr>) (read_bytes rt v)
     else if n = 4 then map_option (\<lambda>tmp. m\<lparr>UserStats_from_client := Some tmp\<rparr>) (read_message UserStats_Stats_new UserStats_Stats_merge_field rt (UserStats_from_client m) v)
     else if n = 5 then map_option (\<lambda>tmp. m\<lparr>UserStats_from_server := Some tmp\<rparr>) (read_message UserStats_Stats_new UserStats_Stats_merge_field rt (UserStats_from_server m) v)
     else if n = 6 then map_option (\<lambda>tmp. m\<lparr>UserStats_udp_packets := Some tmp\<rparr>) (read_uint32 rt v)
     else if n = 7 then map_option (\<lambda>tmp. m\<lparr>UserStats_tcp_packets := Some tmp\<rparr>) (read_uint32 rt v)
     else if n = 8 then map_option (\<lambda>tmp. m\<lparr>UserStats_udp_ping_avg := Some tmp\<rparr>) (read_float rt v)
     else if n = 9 then map_option (\<lambda>tmp. m\<lparr>UserStats_udp_ping_var := Some tmp\<rparr>) (read_float rt v)
     else if n = 10 then map_option (\<lambda>tmp. m\<lparr>UserStats_tcp_ping_avg := Some tmp\<rparr>) (read_float rt v)
     else if n = 11 then map_option (\<lambda>tmp. m\<lparr>UserStats_tcp_ping_var := Some tmp\<rparr>) (read_float rt v)
     else if n = 12 then map_option (\<lambda>tmp. m\<lparr>UserStats_version := Some tmp\<rparr>) (read_message Version_new Version_merge_field rt (UserStats_version m) v)
     else if n = 13 then map_option (\<lambda>tmp. m\<lparr>UserStats_celt_versions := UserStats_celt_versions m @ tmp\<rparr>) (read_repeated_int32 rt v)
     else if n = 14 then map_option (\<lambda>tmp. m\<lparr>UserStats_address := Some tmp\<rparr>) (read_bytes rt v)
     else if n = 15 then map_option (\<lambda>tmp. m\<lparr>UserStats_bandwidth := Some tmp\<rparr>) (read_uint32 rt v)
     else if n = 16 then map_option (\<lambda>tmp. m\<lparr>UserStats_onlinesecs := Some tmp\<rparr>) (read_uint32 rt v)
     else if n = 17 then map_option (\<lambda>tmp. m\<lparr>UserStats_idlesecs := Some tmp\<rparr>) (read_uint32 rt v)
     else if n = 18 then map_option (\<lambda>tmp. m\<lparr>UserStats_strong_certificate := Some tmp\<rparr>) (read_bool rt v)
     else if n = 19 then map_option (\<lambda>tmp. m\<lparr>UserStats_opus := Some tmp\<rparr>) (read_bool rt v)
     else Some (m\<lparr>UserStats_unknown_fields := UserStats_unknown_fields m @ read_unknown f\<rparr>))"

definition UserStats_compute_size :: "pb_runtime \<Rightarrow> UserStats \<Rightarrow> u32" where
  "UserStats_compute_size rt m =
     size_opt (s_uint32 rt 1) (UserStats_session m) +
     size_opt (\<lambda>_. 2) (UserStats_stats_only m) +
     size_rep (s_bytes rt 3) (UserStats_certificates m) +
     size_rep (\<lambda>v. s_message rt 1 (UserStats_Stats_compute_size rt v)) (opt_list (UserStats_from_client m)) +
     size_rep (\<lambda>v. s_message rt 1 (UserStats_Stats_compute_size rt v)) (opt_list (UserStats_from_server m)) +
     size_opt (s_uint32 rt 6) (UserStats_udp_packets m) +
     size_opt (s_uint32 rt 7) (UserStats_tcp_packets m) +
     size_opt (\<lambda>_. 5) (UserStats_udp_ping_avg m) +
     size_opt (\<lambda>_. 5) (UserStats_udp_ping_var m) +
     size_opt (\<lambda>_. 5) (UserStats_tcp_ping_avg m) +
     size_opt (\<lambda>_. 5) (UserStats_tcp_ping_var m) +
     size_rep (\<lambda>v. s_message rt 1 (Version_compute_size rt v)) (opt_list (UserStats_version m)) +
     size_rep (s_int32 rt 13) (UserStats_celt_versions m) +
     size_opt (s_bytes rt 14) (UserStats_address m) +
     size_opt (s_uint32 rt 15) (UserStats_bandwidth m) +
     size_opt (s_uint32 rt 16) (UserStats_onlinesecs m) +
     size_opt (s_uint32 rt 17) (UserStats_idlesecs m) +
     size_opt (\<lambda>_. 3) (UserStats_strong_certificate m) +
     size_opt (\<lambda>_. 3) (UserStats_opus m) +
     rt_unknown_size rt (UserStats_unknown_fields m)"

definition UserStats_write_items :: "pb_runtime \<Rightarrow> UserStats \<Rightarrow> pb_item list" where
  "UserStats_write_items rt m =
     put_opt 1 w_uint32 (UserStats_session m) @
     put_opt 2 w_bool (UserStats_stats_only m) @
     put_list 3 w_bytes (UserStats_certificates m) @
     put_message 4 (UserStats_Stats_compute_size rt) (UserStats_Stats_write_to rt) (opt_list (UserStats_from_client m)) @
     put_message 5 (UserStats_Stats_compute_size rt) (UserStats_Stats_write_to rt) (opt_list (UserStats_from_server m)) @
     put_opt 6 w_uint32 (UserStats_udp_packets m) @
     put_opt 7 w_uint32 (UserStats_tcp_packets m) @
     put_opt 8 w_float (UserStats_udp_ping_avg m) @
     put_opt 9 w_float (UserStats_udp_ping_var m) @
     put_opt 10 w_float (UserStats_tcp_ping_avg m) @
     put_opt 11 w_float (UserStats_tcp_ping_var m) @
     put_message 12 (Version_compute_size rt) (Version_write_to rt) (opt_list (UserStats_version m)) @
     put_list 13 w_int32 (UserStats_celt_versions m) @
     put_opt 14 w_bytes (UserStats_address m) @
     put_opt 15 w_uint32 (UserStats_bandwidth m) @
     put_opt 16 w_uint32 (UserStats_onlinesecs m) @
     put_opt 17 w_uint32 (UserStats_idlesecs m) @
     put_opt 18 w_bool (UserStats_strong_certificate m) @
     put_opt 19 w_bool (UserStats_opus m)"

definition UserStats_write_to :: "pb_runtime \<Rightarrow> UserStats \<Rightarrow> bytes" where
  "UserStats_write_to rt m = write_to rt (UserStats_write_items rt m) (UserStats_unknown_fields m)"

definition UserStats_parse :: "pb_runtime \<Rightarrow> bytes \<Rightarrow> UserStats option" where
  "UserStats_parse = parse_from_bytes UserStats_new UserStats_merge_field UserStats_is_initialized"

definition UserStats_ok :: "pb_runtime \<Rightarrow> UserStats \<Rightarrow> bool" where
  "UserStats_ok rt m = (UserStats_unknown_fields m = [] \<and>
     list_all bytes_ok (UserStats_certificates m) \<and>
     pred_option (\<lambda>x. UserStats_Stats_ok rt x \<and> length (UserStats_Stats_write_to rt x) < 2 ^ 32) (UserStats_from_client m) \<and>
     pred_option (\<lambda>x. UserStats_Stats_ok rt x \<and> length (UserStats_Stats_write_to rt x) < 2 ^ 32) (UserStats_from_server m) \<and>
     pred_option (\<lambda>x. Version_ok rt x \<and> length (Version_write_to rt x) < 2 ^ 32) (UserStats_version m) \<and>
     pred_option bytes_ok (UserStats_address m))"

lemmas UserStats_merge_put =
  merge_put_opt [where n = 1 and s = "\<lambda>v m. m\<lparr>UserStats_session := v\<rparr>"
    and P = "\<lambda>_. True"]
  merge_put_opt [where n = 2 and s = "\<lambda>v m. m\<lparr>UserStats_stats_only := v\<rparr>"
    and P = "\<lambda>_. True"]
  merge_put_list [where n = 3 and s = "\<lambda>v m. m\<lparr>UserStats_certificates := v\<rparr>"
    and P = "\<lambda>_. True"]
  merge_put_message [where n = 4 and s = "\<lambda>v m. m\<lparr>UserStats_from_client := v\<rparr>"
    and P = "\<lambda>x. UserStats_Stats_ok rt x \<and> length (UserStats_Stats_write_to rt x) < 2 ^ 32" and step = "UserStats_merge_field rt"]
  merge_put_message [where n = 5 and s = "\<lambda>v m. m\<lparr>UserStats_from_server := v\<rparr>"
    and P = "\<lambda>x. UserStats_Stats_ok rt x \<and> length (UserStats_Stats_write_to rt x) < 2 ^ 32" and step = "UserStats_merge_field rt"]
  merge_put_opt [where n = 6 and s = "\<lambda>v m. m\<lparr>UserStats_udp_packets := v\<rparr>"
    and P = "\<lambda>_. True"]
  merge_put_opt [where n = 7 and s = "\<lambda>v m. m\<lparr>UserStats_tcp_packets := v\<rparr>"
    and P = "\<lambda>_. True"]
  merge_put_opt [where n = 8 and s = "\<lambda>v m. m\<lparr>UserStats_udp_ping_avg := v\<rparr>"
    and P = "\<lambda>_. True"]
  merge_put_opt [where n = 9 and s = "\<lambda>v m. m\<lparr>UserStats_udp_ping_var := v\<rparr>"
    and P = "\<lambda>_. True"]
  merge_put_opt [where n = 10 and s = "\<lambda>v m. m\<lparr>UserStats_tcp_ping_avg := v\<rparr>"
    and P = "\<lambda>_. True"]
  merge_put_opt [where n = 11 and s = "\<lambda>v m. m\<lparr>UserStats_tcp_ping_var := v\<rparr>"
    and P = "\<lambda>_. True"]
  merge_put_message [where n = 12 and s = "\<lambda>v m. m\<lparr>UserStats_version := v\<rparr>"
    and P = "\<lambda>x. Version_ok rt x \<and> length (Version_write_to rt x) < 2 ^ 32" and step = "UserStats_merge_field rt"]
  merge_put_list [where n = 13 and s = "\<lambda>v m. m\<lparr>UserStats_celt_versions := v\<rparr>"
    and P = "\<lambda>_. True"]
  merge_put_opt [where n = 14 and s = "\<lambda>v m. m\<lparr>UserStats_address := v\<rparr>"
    and P = "\<lambda>_. True"]
  merge_put_opt [where n = 15 and s = "\<lambda>v m. m\<lparr>UserStats_bandwidth := v\<rparr>"
    and P = "\<lambda>_. True"]
  merge_put_opt [where n = 16 and s = "\<lambda>v m. m\<lparr>UserStats_onlinesecs := v\<rparr>"
    and P = "\<lambda>_. True"]
  merge_put_opt [where n = 17 and s = "\<lambda>v m. m\<lparr>UserStats_idlesecs := v\<rparr>"
    and P = "\<lambda>_. True"]
  merge_put_opt [where n = 18 and s = "\<lambda>v m. m\<lparr>UserStats_strong_certificate := v\<rparr>"
    and P = "\<lambda>_. True"]
  merge_put_opt [where n = 19 and s = "\<lambda>v m. m\<lparr>UserStats_opus := v\<rparr>"
    and P = "\<lambda>_. True"]
  for rt

interpretation UserStats: pb_message UserStats_new UserStats_merge_field UserStats_write_items
  UserStats_unknown_fields UserStats_compute_size UserStats_is_initialized UserStats_ok
proof unfold_locales
  fix rt m assume rt: "pb_ok rt" and m: "UserStats_ok rt m"
  show "merge_fields (UserStats_merge_field rt) (map item_field (UserStats_write_items rt m)) UserStats_new = Some m"
    using m by (simp add: UserStats_write_items_def UserStats_new_def UserStats_merge_field_def UserStats_ok_def
        UserStats_merge_put pb_read rt
        UserStats_Stats.read_written [folded UserStats_Stats_write_to_def] UserStats_Stats.size_written [folded UserStats_Stats_write_to_def]
        Version.read_written [folded Version_write_to_def] Version.size_written [folded Version_write_to_def] del: One_nat_def)
  show "items_ok (UserStats_write_items rt m)"
    using m by (auto simp: UserStats_write_items_def UserStats_ok_def pb_item rt pred_defs
        UserStats_Stats.read_written [folded UserStats_Stats_write_to_def] UserStats_Stats.size_written [folded UserStats_Stats_write_to_def]
        Version.read_written [folded Version_write_to_def] Version.size_written [folded Version_write_to_def])
  show "UserStats_compute_size rt m = word_of_nat (length (items_bytes rt (UserStats_write_items rt m)))"
    using m by (simp add: UserStats_write_items_def UserStats_compute_size_def UserStats_ok_def pb_size rt pb_unknown
        pred_defs
        UserStats_Stats.read_written [folded UserStats_Stats_write_to_def] UserStats_Stats.size_written [folded UserStats_Stats_write_to_def]
        Version.read_written [folded Version_write_to_def] Version.size_written [folded Version_write_to_def])
qed (simp add: UserStats_ok_def)

lemmas UserStats_parse_written = UserStats.parse_written [folded UserStats_write_to_def UserStats_parse_def]
lemmas UserStats_size_written = UserStats.size_written [folded UserStats_write_to_def]

end
