(* ===== verification/Mumble_Admin.thy ===== *)
theory Mumble_Admin
  imports Mumble_State
begin

text \<open>
  The remaining messages of \<open>src/src/proto/mumble.rs\<close>, in the form of \<open>Mumble_Session\<close>: \<open>Reject\<close>,
  \<open>BanList\<close>, \<open>TextMessage\<close>, \<open>PermissionDenied\<close>, \<open>ACL\<close>, \<open>QueryUsers\<close>, \<open>ContextActionModify\<close>,
  \<open>ContextAction\<close>, \<open>UserList\<close>, \<open>RequestBlob\<close>, \<open>SuggestConfig\<close> and the messages nested in them. Some
  have fields of an enumeration: it is written as its \<open>int32\<close> number, and a number that is read and
  belongs to no variant goes to the unknown fields.
\<close>

section \<open>Enumerations\<close>

text \<open>\<open>rt::read_proto2_enum_with_unknown_fields_into\<close>: the variant, or the unknown field to add.\<close>

definition read_enum ::
    "(i32 \<Rightarrow> 'e option) \<Rightarrow> pb_runtime \<Rightarrow> nat \<Rightarrow> pb_val \<Rightarrow> ('e + pb_field list) option" where
  "read_enum from_i32 rt n v = map_option (\<lambda>i. case from_i32 i of
       Some e \<Rightarrow> Inl e
     | None \<Rightarrow> Inr [(n, PVarint (scast i))]) (read_int32 rt v)"

lemma read_enum_w [pb_read]:
  "pb_ok rt \<Longrightarrow> from_i32 i = Some e \<Longrightarrow> read_enum from_i32 rt n (w_int32 i) = Some (Inl e)"
  by (simp add: read_enum_def pb_read)

text \<open>A number without a variant is kept as it was written.\<close>

lemma read_enum_unknown:
  "pb_ok rt \<Longrightarrow> from_i32 i = None \<Longrightarrow> read_enum from_i32 rt n (w_int32 i) = Some (Inr [(n, w_int32 i)])"
  by (simp add: read_enum_def pb_read) (simp add: w_int32_def)

lemma merge_put_enum:
  assumes "\<And>x. step m (n, w_int32 (vl x)) = Some (s (Some x) m)" and "s None m = m"
  shows "merge_fields step (map item_field (put_opt n w_int32 (map_option vl v))) m = Some (s v m)"
  using assms by (cases v) (simp_all add: put_opt_def item_field_def)

lemma pred_map_option [pb_item]: "pred_option P (map_option g v) \<longleftrightarrow> pred_option (\<lambda>x. P (g x)) v"
  by (cases v) simp_all

datatype Reject_RejectType =
    Reject_RejectType_None
  | Reject_RejectType_WrongVersion
  | Reject_RejectType_InvalidUsername
  | Reject_RejectType_WrongUserPW
  | Reject_RejectType_WrongServerPW
  | Reject_RejectType_UsernameInUse
  | Reject_RejectType_ServerFull
  | Reject_RejectType_NoCertificate
  | Reject_RejectType_AuthenticatorFail

primrec Reject_RejectType_value :: "Reject_RejectType \<Rightarrow> i32" where
  "Reject_RejectType_value Reject_RejectType_None = 0"
| "Reject_RejectType_value Reject_RejectType_WrongVersion = 1"
| "Reject_RejectType_value Reject_RejectType_InvalidUsername = 2"
| "Reject_RejectType_value Reject_RejectType_WrongUserPW = 3"
| "Reject_RejectType_value Reject_RejectType_WrongServerPW = 4"
| "Reject_RejectType_value Reject_RejectType_UsernameInUse = 5"
| "Reject_RejectType_value Reject_RejectType_ServerFull = 6"
| "Reject_RejectType_value Reject_RejectType_NoCertificate = 7"
| "Reject_RejectType_value Reject_RejectType_AuthenticatorFail = 8"

definition Reject_RejectType_from_i32 :: "i32 \<Rightarrow> Reject_RejectType option" where
  "Reject_RejectType_from_i32 value = (
     if value = 0 then Some Reject_RejectType_None
     else if value = 1 then Some Reject_RejectType_WrongVersion
     else if value = 2 then Some Reject_RejectType_InvalidUsername
     else if value = 3 then Some Reject_RejectType_WrongUserPW
     else if value = 4 then Some Reject_RejectType_WrongServerPW
     else if value = 5 then Some Reject_RejectType_UsernameInUse
     else if value = 6 then Some Reject_RejectType_ServerFull
     else if value = 7 then Some Reject_RejectType_NoCertificate
     else if value = 8 then Some Reject_RejectType_AuthenticatorFail
     else None)"

lemma Reject_RejectType_values [pb_read]: "Reject_RejectType_from_i32 (Reject_RejectType_value v) = Some v"
  by (cases v) (simp_all add: Reject_RejectType_from_i32_def)

section \<open>Reject\<close>

record Reject =
  Reject_field_type :: "Reject_RejectType option"
  Reject_reason :: "string option"
  Reject_unknown_fields :: "pb_field list"

definition Reject_new :: Reject where
  "Reject_new = \<lparr>Reject_field_type = None, Reject_reason = None,
     Reject_unknown_fields = []\<rparr>"

definition Reject_is_initialized :: "Reject \<Rightarrow> bool" where
  "Reject_is_initialized m = True"

definition Reject_merge_field :: "pb_runtime \<Rightarrow> Reject \<Rightarrow> pb_field \<Rightarrow> Reject option" where
  "Reject_merge_field rt m f = (case f of (n, v) \<Rightarrow>
     if n = 1 then map_option (\<lambda>tmp. case tmp of
         Inl e \<Rightarrow> m\<lparr>Reject_field_type := Some e\<rparr> | Inr u \<Rightarrow> m\<lparr>Reject_unknown_fields := Reject_unknown_fields m @ u\<rparr>)
       (read_enum Reject_RejectType_from_i32 rt n v)
     else if n = 2 then map_option (\<lambda>tmp. m\<lparr>Reject_reason := Some tmp\<rparr>) (read_string rt v)
     else Some (m\<lparr>Reject_unknown_fields := Reject_unknown_fields m @ read_unknown f\<rparr>))"

definition Reject_compute_size :: "pb_runtime \<Rightarrow> Reject \<Rightarrow> u32" where
  "Reject_compute_size rt m =
     size_opt (s_int32 rt 1) (map_option Reject_RejectType_value (Reject_field_type m)) +
     size_opt (s_string rt 2) (Reject_reason m) +
     rt_unknown_size rt (Reject_unknown_fields m)"

definition Reject_write_items :: "pb_runtime \<Rightarrow> Reject \<Rightarrow> pb_item list" where
  "Reject_write_items rt m =
     put_opt 1 w_int32 (map_option Reject_RejectType_value (Reject_field_type m)) @
     put_opt 2 w_string (Reject_reason m)"

definition Reject_write_to :: "pb_runtime \<Rightarrow> Reject \<Rightarrow> bytes" where
  "Reject_write_to rt m = write_to rt (Reject_write_items rt m) (Reject_unknown_fields m)"

definition Reject_parse :: "pb_runtime \<Rightarrow> bytes \<Rightarrow> Reject option" where
  "Reject_parse = parse_from_bytes Reject_new Reject_merge_field Reject_is_initialized"

definition Reject_ok :: "pb_runtime \<Rightarrow> Reject \<Rightarrow> bool" where
  "Reject_ok rt m = (Reject_unknown_fields m = [] \<and>
     pred_option (str_ok rt) (Reject_reason m))"

lemmas Reject_merge_put =
  merge_put_enum [where n = 1 and s = "\<lambda>v m. m\<lparr>Reject_field_type := v\<rparr>" and vl = Reject_RejectType_value]
  merge_put_opt [where n = 2 and s = "\<lambda>v m. m\<lparr>Reject_reason := v\<rparr>"
    and P = "str_ok rt" and step = "Reject_merge_field rt"]
  for rt

interpretation Reject: pb_message Reject_new Reject_merge_field Reject_write_items
  Reject_unknown_fields Reject_compute_size Reject_is_initialized Reject_ok
proof unfold_locales
  fix rt m assume rt: "pb_ok rt" and m: "Reject_ok rt m"
  show "merge_fields (Reject_merge_field rt) (map item_field (Reject_write_items rt m)) Reject_new = Some m"
    using m by (simp add: Reject_write_items_def Reject_new_def Reject_merge_field_def Reject_ok_def
        Reject_merge_put pb_read rt del: One_nat_def)
  show "items_ok (Reject_write_items rt m)"
    using m by (auto simp: Reject_write_items_def Reject_ok_def pb_item rt pred_defs)
  show "Reject_compute_size rt m = word_of_nat (length (items_bytes rt (Reject_write_items rt m)))"
    using m by (simp add: Reject_write_items_def Reject_compute_size_def Reject_ok_def pb_size rt pb_unknown
        pred_defs)
qed (simp add: Reject_ok_def)

lemmas Reject_parse_written = Reject.parse_written [folded Reject_write_to_def Reject_parse_def]
lemmas Reject_size_written = Reject.size_written [folded Reject_write_to_def]

section \<open>BanList_BanEntry\<close>

record BanList_BanEntry =
  BanList_BanEntry_address :: "bytes option"
  BanList_BanEntry_mask :: "u32 option"
  BanList_BanEntry_name :: "string option"
  BanList_BanEntry_hash :: "string option"
  BanList_BanEntry_reason :: "string option"
  BanList_BanEntry_start :: "string option"
  BanList_BanEntry_duration :: "u32 option"
  BanList_BanEntry_unknown_fields :: "pb_field list"

definition BanList_BanEntry_new :: BanList_BanEntry where
  "BanList_BanEntry_new = \<lparr>BanList_BanEntry_address = None, BanList_BanEntry_mask = None, BanList_BanEntry_name = None,
     BanList_BanEntry_hash = None, BanList_BanEntry_reason = None, BanList_BanEntry_start = None,
     BanList_BanEntry_duration = None,
     BanList_BanEntry_unknown_fields = []\<rparr>"

definition BanList_BanEntry_is_initialized :: "BanList_BanEntry \<Rightarrow> bool" where
  "BanList_BanEntry_is_initialized m = (BanList_BanEntry_address m \<noteq> None \<and> BanList_BanEntry_mask m \<noteq> None)"

definition BanList_BanEntry_merge_field :: "pb_runtime \<Rightarrow> BanList_BanEntry \<Rightarrow> pb_field \<Rightarrow> BanList_BanEntry option" where
  "BanList_BanEntry_merge_field rt m f = (case f of (n, v) \<Rightarrow>
     if n = 1 then map_option (\<lambda>tmp. m\<lparr>BanList_BanEntry_address := Some tmp\<rparr>) (read_bytes rt v)
     else if n = 2 then map_option (\<lambda>tmp. m\<lparr>BanList_BanEntry_mask := Some tmp\<rparr>) (read_uint32 rt v)
     else if n = 3 then map_option (\<lambda>tmp. m\<lparr>BanList_BanEntry_name := Some tmp\<rparr>) (read_string rt v)
     else if n = 4 then map_option (\<lambda>tmp. m\<lparr>BanList_BanEntry_hash := Some tmp\<rparr>) (read_string rt v)
     else if n = 5 then map_option (\<lambda>tmp. m\<lparr>BanList_BanEntry_reason := Some tmp\<rparr>) (read_string rt v)
     else if n = 6 then map_option (\<lambda>tmp. m\<lparr>BanList_BanEntry_start := Some tmp\<rparr>) (read_string rt v)
     else if n = 7 then map_option (\<lambda>tmp. m\<lparr>BanList_BanEntry_duration := Some tmp\<rparr>) (read_uint32 rt v)
     else Some (m\<lparr>BanList_BanEntry_unknown_fields := BanList_BanEntry_unknown_fields m @ read_unknown f\<rparr>))"

definition BanList_BanEntry_compute_size :: "pb_runtime \<Rightarrow> BanList_BanEntry \<Rightarrow> u32" where
  "BanList_BanEntry_compute_size rt m =
     size_opt (s_bytes rt 1) (BanList_BanEntry_address m) +
     size_opt (s_uint32 rt 2) (BanList_BanEntry_mask m) +
     size_opt (s_string rt 3) (BanList_BanEntry_name m) +
     size_opt (s_string rt 4) (BanList_BanEntry_hash m) +
     size_opt (s_string rt 5) (BanList_BanEntry_reason m) +
     size_opt (s_string rt 6) (BanList_BanEntry_start m) +
     size_opt (s_uint32 rt 7) (BanList_BanEntry_duration m) +
     rt_unknown_size rt (BanList_BanEntry_unknown_fields m)"

definition BanList_BanEntry_write_items :: "pb_runtime \<Rightarrow> BanList_BanEntry \<Rightarrow> pb_item list" where
  "BanList_BanEntry_write_items rt m =
     put_opt 1 w_bytes (BanList_BanEntry_address m) @
     put_opt 2 w_uint32 (BanList_BanEntry_mask m) @
     put_opt 3 w_string (BanList_BanEntry_name m) @
     put_opt 4 w_string (BanList_BanEntry_hash m) @
     put_opt 5 w_string (BanList_BanEntry_reason m) @
     put_opt 6 w_string (BanList_BanEntry_start m) @
     put_opt 7 w_uint32 (BanList_BanEntry_duration m)"

definition BanList_BanEntry_write_to :: "pb_runtime \<Rightarrow> BanList_BanEntry \<Rightarrow> bytes" where
  "BanList_BanEntry_write_to rt m = write_to rt (BanList_BanEntry_write_items rt m) (BanList_BanEntry_unknown_fields m)"

definition BanList_BanEntry_parse :: "pb_runtime \<Rightarrow> bytes \<Rightarrow> BanList_BanEntry option" where
  "BanList_BanEntry_parse = parse_from_bytes BanList_BanEntry_new BanList_BanEntry_merge_field BanList_BanEntry_is_initialized"

definition BanList_BanEntry_ok :: "pb_runtime \<Rightarrow> BanList_BanEntry \<Rightarrow> bool" where
  "BanList_BanEntry_ok rt m = (BanList_BanEntry_unknown_fields m = [] \<and>
     pred_option bytes_ok (BanList_BanEntry_address m) \<and>
     pred_option (str_ok rt) (BanList_BanEntry_name m) \<and>
     pred_option (str_ok rt) (BanList_BanEntry_hash m) \<and>
     pred_option (str_ok rt) (BanList_BanEntry_reason m) \<and>
     pred_option (str_ok rt) (BanList_BanEntry_start m))"

lemmas BanList_BanEntry_merge_put =
  merge_put_opt [where n = 1 and s = "\<lambda>v m. m\<lparr>BanList_BanEntry_address := v\<rparr>"
    and P = "\<lambda>_. True"]
  merge_put_opt [where n = 2 and s = "\<lambda>v m. m\<lparr>BanList_BanEntry_mask := v\<rparr>"
    and P = "\<lambda>_. True"]
  merge_put_opt [where n = 3 and s = "\<lambda>v m. m\<lparr>BanList_BanEntry_name := v\<rparr>"
    and P = "str_ok rt" and step = "BanList_BanEntry_merge_field rt"]
  merge_put_opt [where n = 4 and s = "\<lambda>v m. m\<lparr>BanList_BanEntry_hash := v\<rparr>"
    and P = "str_ok rt" and step = "BanList_BanEntry_merge_field rt"]
  merge_put_opt [where n = 5 and s = "\<lambda>v m. m\<lparr>BanList_BanEntry_reason := v\<rparr>"
    and P = "str_ok rt" and step = "BanList_BanEntry_merge_field rt"]
  merge_put_opt [where n = 6 and s = "\<lambda>v m. m\<lparr>BanList_BanEntry_start := v\<rparr>"
    and P = "str_ok rt" and step = "BanList_BanEntry_merge_field rt"]
  merge_put_opt [where n = 7 and s = "\<lambda>v m. m\<lparr>BanList_BanEntry_duration := v\<rparr>"
    and P = "\<lambda>_. True"]
  for rt

interpretation BanList_BanEntry: pb_message BanList_BanEntry_new BanList_BanEntry_merge_field BanList_BanEntry_write_items
  BanList_BanEntry_unknown_fields BanList_BanEntry_compute_size BanList_BanEntry_is_initialized BanList_BanEntry_ok
proof unfold_locales
  fix rt m assume rt: "pb_ok rt" and m: "BanList_BanEntry_ok rt m"
  show "merge_fields (BanList_BanEntry_merge_field rt) (map item_field (BanList_BanEntry_write_items rt m)) BanList_BanEntry_new = Some m"
    using m by (simp add: BanList_BanEntry_write_items_def BanList_BanEntry_new_def BanList_BanEntry_merge_field_def BanList_BanEntry_ok_def
        BanList_BanEntry_merge_put pb_read rt del: One_nat_def)
  show "items_ok (BanList_BanEntry_write_items rt m)"
    using m by (auto simp: BanList_BanEntry_write_items_def BanList_BanEntry_ok_def pb_item rt pred_defs)
  show "BanList_BanEntry_compute_size rt m = word_of_nat (length (items_bytes rt (BanList_BanEntry_write_items rt m)))"
    using m by (simp add: BanList_BanEntry_write_items_def BanList_BanEntry_compute_size_def BanList_BanEntry_ok_def pb_size rt pb_unknown
        pred_defs)
qed (simp add: BanList_BanEntry_ok_def)

lemmas BanList_BanEntry_parse_written = BanList_BanEntry.parse_written [folded BanList_BanEntry_write_to_def BanList_BanEntry_parse_def]
lemmas BanList_BanEntry_size_written = BanList_BanEntry.size_written [folded BanList_BanEntry_write_to_def]

section \<open>BanList\<close>

record BanList =
  BanList_bans :: "BanList_BanEntry list"
  BanList_query :: "bool option"
  BanList_unknown_fields :: "pb_field list"

definition BanList_new :: BanList where
  "BanList_new = \<lparr>BanList_bans = [], BanList_query = None,
     BanList_unknown_fields = []\<rparr>"

definition BanList_is_initialized :: "BanList \<Rightarrow> bool" where
  "BanList_is_initialized m = (list_all BanList_BanEntry_is_initialized (BanList_bans m))"

definition BanList_merge_field :: "pb_runtime \<Rightarrow> BanList \<Rightarrow> pb_field \<Rightarrow> BanList option" where
  "BanList_merge_field rt m f = (case f of (n, v) \<Rightarrow>
     if n = 1 then map_option (\<lambda>tmp. m\<lparr>BanList_bans := BanList_bans m @ [tmp]\<rparr>) (read_message BanList_BanEntry_new BanList_BanEntry_merge_field rt None v)
     else if n = 2 then map_option (\<lambda>tmp. m\<lparr>BanList_query := Some tmp\<rparr>) (read_bool rt v)
     else Some (m\<lparr>BanList_unknown_fields := BanList_unknown_fields m @ read_unknown f\<rparr>))"

definition BanList_compute_size :: "pb_runtime \<Rightarrow> BanList \<Rightarrow> u32" where
  "BanList_compute_size rt m =
     size_rep (\<lambda>v. s_message rt 1 (BanList_BanEntry_compute_size rt v)) (BanList_bans m) +
     size_opt (\<lambda>_. 2) (BanList_query m) +
     rt_unknown_size rt (BanList_unknown_fields m)"

definition BanList_write_items :: "pb_runtime \<Rightarrow> BanList \<Rightarrow> pb_item list" where
  "BanList_write_items rt m =
     put_message 1 (BanList_BanEntry_compute_size rt) (BanList_BanEntry_write_to rt) (BanList_bans m) @
     put_opt 2 w_bool (BanList_query m)"

definition BanList_write_to :: "pb_runtime \<Rightarrow> BanList \<Rightarrow> bytes" where
  "BanList_write_to rt m = write_to rt (BanList_write_items rt m) (BanList_unknown_fields m)"

definition BanList_parse :: "pb_runtime \<Rightarrow> bytes \<Rightarrow> BanList option" where
  "BanList_parse = parse_from_bytes BanList_new BanList_merge_field BanList_is_initialized"

definition BanList_ok :: "pb_runtime \<Rightarrow> BanList \<Rightarrow> bool" where
  "BanList_ok rt m = (BanList_unknown_fields m = [] \<and>
     list_all (\<lambda>x. BanList_BanEntry_ok rt x \<and> length (BanList_BanEntry_write_to rt x) < 2 ^ 32) (BanList_bans m))"

lemmas BanList_merge_put =
  merge_put_messages [where n = 1 and s = "\<lambda>v m. m\<lparr>BanList_bans := v\<rparr>"
    and P = "\<lambda>x. BanList_BanEntry_ok rt x \<and> length (BanList_BanEntry_write_to rt x) < 2 ^ 32" and step = "BanList_merge_field rt"]
  merge_put_opt [where n = 2 and s = "\<lambda>v m. m\<lparr>BanList_query := v\<rparr>"
    and P = "\<lambda>_. True"]
  for rt

interpretation BanList: pb_message BanList_new BanList_merge_field BanList_write_items
  BanList_unknown_fields BanList_compute_size BanList_is_initialized BanList_ok
proof unfold_locales
  fix rt m assume rt: "pb_ok rt" and m: "BanList_ok rt m"
  show "merge_fields (BanList_merge_field rt) (map item_field (BanList_write_items rt m)) BanList_new = Some m"
    using m by (simp add: BanList_write_items_def BanList_new_def BanList_merge_field_def BanList_ok_def
        BanList_merge_put pb_read rt
        BanList_BanEntry.read_written [folded BanList_BanEntry_write_to_def] BanList_BanEntry.size_written [folded BanList_BanEntry_write_to_def] del: One_nat_def)
  show "items_ok (BanList_write_items rt m)"
    using m by (auto simp: BanList_write_items_def BanList_ok_def pb_item rt pred_defs
        BanList_BanEntry.read_written [folded BanList_BanEntry_write_to_def] BanList_BanEntry.size_written [folded BanList_BanEntry_write_to_def])
  show "BanList_compute_size rt m = word_of_nat (length (items_bytes rt (BanList_write_items rt m)))"
    using m by (simp add: BanList_write_items_def BanList_compute_size_def BanList_ok_def pb_size rt pb_unknown
        pred_defs
        BanList_BanEntry.read_written [folded BanList_BanEntry_write_to_def] BanList_BanEntry.size_written [folded BanList_BanEntry_write_to_def])
qed (simp add: BanList_ok_def)

lemmas BanList_parse_written = BanList.parse_written [folded BanList_write_to_def BanList_parse_def]
lemmas BanList_size_written = BanList.size_written [folded BanList_write_to_def]

section \<open>TextMessage\<close>

record TextMessage =
  TextMessage_actor :: "u32 option"
  TextMessage_session :: "u32 list"
  TextMessage_channel_id :: "u32 list"
  TextMessage_tree_id :: "u32 list"
  TextMessage_message :: "string option"
  TextMessage_unknown_fields :: "pb_field list"

definition TextMessage_new :: TextMessage where
  "TextMessage_new = \<lparr>TextMessage_actor = None, TextMessage_session = [], TextMessage_channel_id = [],
     TextMessage_tree_id = [], TextMessage_message = None,
     TextMessage_unknown_fields = []\<rparr>"

definition TextMessage_is_initialized :: "TextMessage \<Rightarrow> bool" where
  "TextMessage_is_initialized m = (TextMessage_message m \<noteq> None)"

definition TextMessage_merge_field :: "pb_runtime \<Rightarrow> TextMessage \<Rightarrow> pb_field \<Rightarrow> TextMessage option" where
  "TextMessage_merge_field rt m f = (case f of (n, v) \<Rightarrow>
     if n = 1 then map_option (\<lambda>tmp. m\<lparr>TextMessage_actor := Some tmp\<rparr>) (read_uint32 rt v)
     else if n = 2 then map_option (\<lambda>tmp. m\<lparr>TextMessage_session := TextMessage_session m @ tmp\<rparr>) (read_repeated_uint32 rt v)
     else if n = 3 then map_option (\<lambda>tmp. m\<lparr>TextMessage_channel_id := TextMessage_channel_id m @ tmp\<rparr>) (read_repeated_uint32 rt v)
     else if n = 4 then map_option (\<lambda>tmp. m\<lparr>TextMessage_tree_id := TextMessage_tree_id m @ tmp\<rparr>) (read_repeated_uint32 rt v)
     else if n = 5 then map_option (\<lambda>tmp. m\<lparr>TextMessage_message := Some tmp\<rparr>) (read_string rt v)
     else Some (m\<lparr>TextMessage_unknown_fields := TextMessage_unknown_fields m @ read_unknown f\<rparr>))"

definition TextMessage_compute_size :: "pb_runtime \<Rightarrow> TextMessage \<Rightarrow> u32" where
  "TextMessage_compute_size rt m =
     size_opt (s_uint32 rt 1) (TextMessage_actor m) +
     size_rep (s_uint32 rt 2) (TextMessage_session m) +
     size_rep (s_uint32 rt 3) (TextMessage_channel_id m) +
     size_rep (s_uint32 rt 4) (TextMessage_tree_id m) +
     size_opt (s_string rt 5) (TextMessage_message m) +
     rt_unknown_size rt (TextMessage_unknown_fields m)"

definition TextMessage_write_items :: "pb_runtime \<Rightarrow> TextMessage \<Rightarrow> pb_item list" where
  "TextMessage_write_items rt m =
     put_opt 1 w_uint32 (TextMessage_actor m) @
     put_list 2 w_uint32 (TextMessage_session m) @
     put_list 3 w_uint32 (TextMessage_channel_id m) @
     put_list 4 w_uint32 (TextMessage_tree_id m) @
     put_opt 5 w_string (TextMessage_message m)"

definition TextMessage_write_to :: "pb_runtime \<Rightarrow> TextMessage \<Rightarrow> bytes" where
  "TextMessage_write_to rt m = write_to rt (TextMessage_write_items rt m) (TextMessage_unknown_fields m)"

definition TextMessage_parse :: "pb_runtime \<Rightarrow> bytes \<Rightarrow> TextMessage option" where
  "TextMessage_parse = parse_from_bytes TextMessage_new TextMessage_merge_field TextMessage_is_initialized"

definition TextMessage_ok :: "pb_runtime \<Rightarrow> TextMessage \<Rightarrow> bool" where
  "TextMessage_ok rt m = (TextMessage_unknown_fields m = [] \<and>
     pred_option (str_ok rt) (TextMessage_message m))"

lemmas TextMessage_merge_put =
  merge_put_opt [where n = 1 and s = "\<lambda>v m. m\<lparr>TextMessage_actor := v\<rparr>"
    and P = "\<lambda>_. True"]
  merge_put_list [where n = 2 and s = "\<lambda>v m. m\<lparr>TextMessage_session := v\<rparr>"
    and P = "\<lambda>_. True"]
  merge_put_list [where n = 3 and s = "\<lambda>v m. m\<lparr>TextMessage_channel_id := v\<rparr>"
    and P = "\<lambda>_. True"]
  merge_put_list [where n = 4 and s = "\<lambda>v m. m\<lparr>TextMessage_tree_id := v\<rparr>"
    and P = "\<lambda>_. True"]
  merge_put_opt [where n = 5 and s = "\<lambda>v m. m\<lparr>TextMessage_message := v\<rparr>"
    and P = "str_ok rt" and step = "TextMessage_merge_field rt"]
  for rt

interpretation TextMessage: pb_message TextMessage_new TextMessage_merge_field TextMessage_write_items
  TextMessage_unknown_fields TextMessage_compute_size TextMessage_is_initialized TextMessage_ok
proof unfold_locales
  fix rt m assume rt: "pb_ok rt" and m: "TextMessage_ok rt m"
  show "merge_fields (TextMessage_merge_field rt) (map item_field (TextMessage_write_items rt m)) TextMessage_new = Some m"
    using m by (simp add: TextMessage_write_items_def TextMessage_new_def TextMessage_merge_field_def TextMessage_ok_def
        TextMessage_merge_put pb_read rt del: One_nat_def)
  show "items_ok (TextMessage_write_items rt m)"
    using m by (auto simp: TextMessage_write_items_def TextMessage_ok_def pb_item rt pred_defs)
  show "TextMessage_compute_size rt m = word_of_nat (length (items_bytes rt (TextMessage_write_items rt m)))"
    using m by (simp add: TextMessage_write_items_def TextMessage_compute_size_def TextMessage_ok_def pb_size rt pb_unknown
        pred_defs)
qed (simp add: TextMessage_ok_def)

lemmas TextMessage_parse_written = TextMessage.parse_written [folded TextMessage_write_to_def TextMessage_parse_def]
lemmas TextMessage_size_written = TextMessage.size_written [folded TextMessage_write_to_def]

datatype PermissionDenied_DenyType =
    PermissionDenied_DenyType_Text
  | PermissionDenied_DenyType_Permission
  | PermissionDenied_DenyType_SuperUser
  | PermissionDenied_DenyType_ChannelName
  | PermissionDenied_DenyType_TextTooLong
  | PermissionDenied_DenyType_H9K
  | PermissionDenied_DenyType_TemporaryChannel
  | PermissionDenied_DenyType_MissingCertificate
  | PermissionDenied_DenyType_UserName
  | PermissionDenied_DenyType_ChannelFull
  | PermissionDenied_DenyType_NestingLimit
  | PermissionDenied_DenyType_ChannelCountLimit
  | PermissionDenied_DenyType_ChannelListenerLimit
  | PermissionDenied_DenyType_UserListenerLimit

primrec PermissionDenied_DenyType_value :: "PermissionDenied_DenyType \<Rightarrow> i32" where
  "PermissionDenied_DenyType_value PermissionDenied_DenyType_Text = 0"
| "PermissionDenied_DenyType_value PermissionDenied_DenyType_Permission = 1"
| "PermissionDenied_DenyType_value PermissionDenied_DenyType_SuperUser = 2"
| "PermissionDenied_DenyType_value PermissionDenied_DenyType_ChannelName = 3"
| "PermissionDenied_DenyType_value PermissionDenied_DenyType_TextTooLong = 4"
| "PermissionDenied_DenyType_value PermissionDenied_DenyType_H9K = 5"
| "PermissionDenied_DenyType_value PermissionDenied_DenyType_TemporaryChannel = 6"
| "PermissionDenied_DenyType_value PermissionDenied_DenyType_MissingCertificate = 7"
| "PermissionDenied_DenyType_value PermissionDenied_DenyType_UserName = 8"
| "PermissionDenied_DenyType_value PermissionDenied_DenyType_ChannelFull = 9"
| "PermissionDenied_DenyType_value PermissionDenied_DenyType_NestingLimit = 10"
| "PermissionDenied_DenyType_value PermissionDenied_DenyType_ChannelCountLimit = 11"
| "PermissionDenied_DenyType_value PermissionDenied_DenyType_ChannelListenerLimit = 12"
| "PermissionDenied_DenyType_value PermissionDenied_DenyType_UserListenerLimit = 13"

definition PermissionDenied_DenyType_from_i32 :: "i32 \<Rightarrow> PermissionDenied_DenyType option" where
  "PermissionDenied_DenyType_from_i32 value = (
     if value = 0 then Some PermissionDenied_DenyType_Text
     else if value = 1 then Some PermissionDenied_DenyType_Permission
     else if value = 2 then Some PermissionDenied_DenyType_SuperUser
     else if value = 3 then Some PermissionDenied_DenyType_ChannelName
     else if value = 4 then Some PermissionDenied_DenyType_TextTooLong
     else if value = 5 then Some PermissionDenied_DenyType_H9K
     else if value = 6 then Some PermissionDenied_DenyType_TemporaryChannel
     else if value = 7 then Some PermissionDenied_DenyType_MissingCertificate
     else if value = 8 then Some PermissionDenied_DenyType_UserName
     else if value = 9 then Some PermissionDenied_DenyType_ChannelFull
     else if value = 10 then Some PermissionDenied_DenyType_NestingLimit
     else if value = 11 then Some PermissionDenied_DenyType_ChannelCountLimit
     else if value = 12 then Some PermissionDenied_DenyType_ChannelListenerLimit
     else if value = 13 then Some PermissionDenied_DenyType_UserListenerLimit
     else None)"

lemma PermissionDenied_DenyType_values [pb_read]: "PermissionDenied_DenyType_from_i32 (PermissionDenied_DenyType_value v) = Some v"
  by (cases v) (simp_all add: PermissionDenied_DenyType_from_i32_def)

section \<open>PermissionDenied\<close>

record PermissionDenied =
  PermissionDenied_permission :: "u32 option"
  PermissionDenied_channel_id :: "u32 option"
  PermissionDenied_session :: "u32 option"
  PermissionDenied_reason :: "string option"
  PermissionDenied_field_type :: "PermissionDenied_DenyType option"
  PermissionDenied_name :: "string option"
  PermissionDenied_unknown_fields :: "pb_field list"

definition PermissionDenied_new :: PermissionDenied where
  "PermissionDenied_new = \<lparr>PermissionDenied_permission = None, PermissionDenied_channel_id = None,
     PermissionDenied_session = None, PermissionDenied_reason = None,
     PermissionDenied_field_type = None, PermissionDenied_name = None,
     PermissionDenied_unknown_fields = []\<rparr>"

definition PermissionDenied_is_initialized :: "PermissionDenied \<Rightarrow> bool" where
  "PermissionDenied_is_initialized m = True"

definition PermissionDenied_merge_field :: "pb_runtime \<Rightarrow> PermissionDenied \<Rightarrow> pb_field \<Rightarrow> PermissionDenied option" where
  "PermissionDenied_merge_field rt m f = (case f of (n, v) \<Rightarrow>
     if n = 1 then map_option (\<lambda>tmp. m\<lparr>PermissionDenied_permission := Some tmp\<rparr>) (read_uint32 rt v)
     else if n = 2 then map_option (\<lambda>tmp. m\<lparr>PermissionDenied_channel_id := Some tmp\<rparr>) (read_uint32 rt v)
     else if n = 3 then map_option (\<lambda>tmp. m\<lparr>PermissionDenied_session := Some tmp\<rparr>) (read_uint32 rt v)
     else if n = 4 then map_option (\<lambda>tmp. m\<lparr>PermissionDenied_reason := Some tmp\<rparr>) (read_string rt v)
     else if n = 5 then map_option (\<lambda>tmp. case tmp of
         Inl e \<Rightarrow> m\<lparr>PermissionDenied_field_type := Some e\<rparr> | Inr u \<Rightarrow> m\<lparr>PermissionDenied_unknown_fields := PermissionDenied_unknown_fields m @ u\<rparr>)
       (read_enum PermissionDenied_DenyType_from_i32 rt n v)
     else if n = 6 then map_option (\<lambda>tmp. m\<lparr>PermissionDenied_name := Some tmp\<rparr>) (read_string rt v)
     else Some (m\<lparr>PermissionDenied_unknown_fields := PermissionDenied_unknown_fields m @ read_unknown f\<rparr>))"

definition PermissionDenied_compute_size :: "pb_runtime \<Rightarrow> PermissionDenied \<Rightarrow> u32" where
  "PermissionDenied_compute_size rt m =
     size_opt (s_uint32 rt 1) (PermissionDenied_permission m) +
     size_opt (s_uint32 rt 2) (PermissionDenied_channel_id m) +
     size_opt (s_uint32 rt 3) (PermissionDenied_session m) +
     size_opt (s_string rt 4) (PermissionDenied_reason m) +
     size_opt (s_int32 rt 5) (map_option PermissionDenied_DenyType_value (PermissionDenied_field_type m)) +
     size_opt (s_string rt 6) (PermissionDenied_name m) +
     rt_unknown_size rt (PermissionDenied_unknown_fields m)"

definition PermissionDenied_write_items :: "pb_runtime \<Rightarrow> PermissionDenied \<Rightarrow> pb_item list" where
  "PermissionDenied_write_items rt m =
     put_opt 1 w_uint32 (PermissionDenied_permission m) @
     put_opt 2 w_uint32 (PermissionDenied_channel_id m) @
     put_opt 3 w_uint32 (PermissionDenied_session m) @
     put_opt 4 w_string (PermissionDenied_reason m) @
     put_opt 5 w_int32 (map_option PermissionDenied_DenyType_value (PermissionDenied_field_type m)) @
     put_opt 6 w_string (PermissionDenied_name m)"

definition PermissionDenied_write_to :: "pb_runtime \<Rightarrow> PermissionDenied \<Rightarrow> bytes" where
  "PermissionDenied_write_to rt m = write_to rt (PermissionDenied_write_items rt m) (PermissionDenied_unknown_fields m)"

definition PermissionDenied_parse :: "pb_runtime \<Rightarrow> bytes \<Rightarrow> PermissionDenied option" where
  "PermissionDenied_parse = parse_from_bytes PermissionDenied_new PermissionDenied_merge_field PermissionDenied_is_initialized"

definition PermissionDenied_ok :: "pb_runtime \<Rightarrow> PermissionDenied \<Rightarrow> bool" where
  "PermissionDenied_ok rt m = (PermissionDenied_unknown_fields m = [] \<and>
     pred_option (str_ok rt) (PermissionDenied_reason m) \<and>
     pred_option (str_ok rt) (PermissionDenied_name m))"

lemmas PermissionDenied_merge_put =
  merge_put_opt [where n = 1 and s = "\<lambda>v m. m\<lparr>PermissionDenied_permission := v\<rparr>"
    and P = "\<lambda>_. True"]
  merge_put_opt [where n = 2 and s = "\<lambda>v m. m\<lparr>PermissionDenied_channel_id := v\<rparr>"
    and P = "\<lambda>_. True"]
  merge_put_opt [where n = 3 and s = "\<lambda>v m. m\<lparr>PermissionDenied_session := v\<rparr>"
    and P = "\<lambda>_. True"]
  merge_put_opt [where n = 4 and s = "\<lambda>v m. m\<lparr>PermissionDenied_reason := v\<rparr>"
    and P = "str_ok rt" and step = "PermissionDenied_merge_field rt"]
  merge_put_enum [where n = 5 and s = "\<lambda>v m. m\<lparr>PermissionDenied_field_type := v\<rparr>" and vl = PermissionDenied_DenyType_value]
  merge_put_opt [where n = 6 and s = "\<lambda>v m. m\<lparr>PermissionDenied_name := v\<rparr>"
    and P = "str_ok rt" and step = "PermissionDenied_merge_field rt"]
  for rt

interpretation PermissionDenied: pb_message PermissionDenied_new PermissionDenied_merge_field PermissionDenied_write_items
  PermissionDenied_unknown_fields PermissionDenied_compute_size PermissionDenied_is_initialized PermissionDenied_ok
proof unfold_locales
  fix rt m assume rt: "pb_ok rt" and m: "PermissionDenied_ok rt m"
  show "merge_fields (PermissionDenied_merge_field rt) (map item_field (PermissionDenied_write_items rt m)) PermissionDenied_new = Some m"
    using m by (simp add: PermissionDenied_write_items_def PermissionDenied_new_def PermissionDenied_merge_field_def PermissionDenied_ok_def
        PermissionDenied_merge_put pb_read rt del: One_nat_def)
  show "items_ok (PermissionDenied_write_items rt m)"
    using m by (auto simp: PermissionDenied_write_items_def PermissionDenied_ok_def pb_item rt pred_defs)
  show "PermissionDenied_compute_size rt m = word_of_nat (length (items_bytes rt (PermissionDenied_write_items rt m)))"
    using m by (simp add: PermissionDenied_write_items_def PermissionDenied_compute_size_def PermissionDenied_ok_def pb_size rt pb_unknown
        pred_defs)
qed (simp add: PermissionDenied_ok_def)

lemmas PermissionDenied_parse_written = PermissionDenied.parse_written [folded PermissionDenied_write_to_def PermissionDenied_parse_def]
lemmas PermissionDenied_size_written = PermissionDenied.size_written [folded PermissionDenied_write_to_def]

section \<open>ACL_ChanGroup\<close>

record ACL_ChanGroup =
  ACL_ChanGroup_name :: "string option"
  ACL_ChanGroup_inherited :: "bool option"
  ACL_ChanGroup_inherit :: "bool option"
  ACL_ChanGroup_inheritable :: "bool option"
  ACL_ChanGroup_add :: "u32 list"
  ACL_ChanGroup_remove :: "u32 list"
  ACL_ChanGroup_inherited_members :: "u32 list"
  ACL_ChanGroup_unknown_fields :: "pb_field list"

definition ACL_ChanGroup_new :: ACL_ChanGroup where
  "ACL_ChanGroup_new = \<lparr>ACL_ChanGroup_name = None, ACL_ChanGroup_inherited = None, ACL_ChanGroup_inherit = None,
     ACL_ChanGroup_inheritable = None, ACL_ChanGroup_add = [], ACL_ChanGroup_remove = [],
     ACL_ChanGroup_inherited_members = [],
     ACL_ChanGroup_unknown_fields = []\<rparr>"

definition ACL_ChanGroup_is_initialized :: "ACL_ChanGroup \<Rightarrow> bool" where
  "ACL_ChanGroup_is_initialized m = (ACL_ChanGroup_name m \<noteq> None)"

definition ACL_ChanGroup_merge_field :: "pb_runtime \<Rightarrow> ACL_ChanGroup \<Rightarrow> pb_field \<Rightarrow> ACL_ChanGroup option" where
  "ACL_ChanGroup_merge_field rt m f = (case f of (n, v) \<Rightarrow>
     if n = 1 then map_option (\<lambda>tmp. m\<lparr>ACL_ChanGroup_name := Some tmp\<rparr>) (read_string rt v)
     else if n = 2 then map_option (\<lambda>tmp. m\<lparr>ACL_ChanGroup_inherited := Some tmp\<rparr>) (read_bool rt v)
     else if n = 3 then map_option (\<lambda>tmp. m\<lparr>ACL_ChanGroup_inherit := Some tmp\<rparr>) (read_bool rt v)
     else if n = 4 then map_option (\<lambda>tmp. m\<lparr>ACL_ChanGroup_inheritable := Some tmp\<rparr>) (read_bool rt v)
     else if n = 5 then map_option (\<lambda>tmp. m\<lparr>ACL_ChanGroup_add := ACL_ChanGroup_add m @ tmp\<rparr>) (read_repeated_uint32 rt v)
     else if n = 6 then map_option (\<lambda>tmp. m\<lparr>ACL_ChanGroup_remove := ACL_ChanGroup_remove m @ tmp\<rparr>) (read_repeated_uint32 rt v)
     else if n = 7 then map_option (\<lambda>tmp. m\<lparr>ACL_ChanGroup_inherited_members := ACL_ChanGroup_inherited_members m @ tmp\<rparr>) (read_repeated_uint32 rt v)
     else Some (m\<lparr>ACL_ChanGroup_unknown_fields := ACL_ChanGroup_unknown_fields m @ read_unknown f\<rparr>))"

definition ACL_ChanGroup_compute_size :: "pb_runtime \<Rightarrow> ACL_ChanGroup \<Rightarrow> u32" where
  "ACL_ChanGroup_compute_size rt m =
     size_opt (s_string rt 1) (ACL_ChanGroup_name m) +
     size_opt (\<lambda>_. 2) (ACL_ChanGroup_inherited m) +
     size_opt (\<lambda>_. 2) (ACL_ChanGroup_inherit m) +
     size_opt (\<lambda>_. 2) (ACL_ChanGroup_inheritable m) +
     size_rep (s_uint32 rt 5) (ACL_ChanGroup_add m) +
     size_rep (s_uint32 rt 6) (ACL_ChanGroup_remove m) +
     size_rep (s_uint32 rt 7) (ACL_ChanGroup_inherited_members m) +
     rt_unknown_size rt (ACL_ChanGroup_unknown_fields m)"

definition ACL_ChanGroup_write_items :: "pb_runtime \<Rightarrow> ACL_ChanGroup \<Rightarrow> pb_item list" where
  "ACL_ChanGroup_write_items rt m =
     put_opt 1 w_string (ACL_ChanGroup_name m) @
     put_opt 2 w_bool (ACL_ChanGroup_inherited m) @
     put_opt 3 w_bool (ACL_ChanGroup_inherit m) @
     put_opt 4 w_bool (ACL_ChanGroup_inheritable m) @
     put_list 5 w_uint32 (ACL_ChanGroup_add m) @
     put_list 6 w_uint32 (ACL_ChanGroup_remove m) @
     put_list 7 w_uint32 (ACL_ChanGroup_inherited_members m)"

definition ACL_ChanGroup_write_to :: "pb_runtime \<Rightarrow> ACL_ChanGroup \<Rightarrow> bytes" where
  "ACL_ChanGroup_write_to rt m = write_to rt (ACL_ChanGroup_write_items rt m) (ACL_ChanGroup_unknown_fields m)"

definition ACL_ChanGroup_parse :: "pb_runtime \<Rightarrow> bytes \<Rightarrow> ACL_ChanGroup option" where
  "ACL_ChanGroup_parse = parse_from_bytes ACL_ChanGroup_new ACL_ChanGroup_merge_field ACL_ChanGroup_is_initialized"

definition ACL_ChanGroup_ok :: "pb_runtime \<Rightarrow> ACL_ChanGroup \<Rightarrow> bool" where
  "ACL_ChanGroup_ok rt m = (ACL_ChanGroup_unknown_fields m = [] \<and>
     pred_option (str_ok rt) (ACL_ChanGroup_name m))"

lemmas ACL_ChanGroup_merge_put =
  merge_put_opt [where n = 1 and s = "\<lambda>v m. m\<lparr>ACL_ChanGroup_name := v\<rparr>"
    and P = "str_ok rt" and step = "ACL_ChanGroup_merge_field rt"]
  merge_put_opt [where n = 2 and s = "\<lambda>v m. m\<lparr>ACL_ChanGroup_inherited := v\<rparr>"
    and P = "\<lambda>_. True"]
  merge_put_opt [where n = 3 and s = "\<lambda>v m. m\<lparr>ACL_ChanGroup_inherit := v\<rparr>"
    and P = "\<lambda>_. True"]
  merge_put_opt [where n = 4 and s = "\<lambda>v m. m\<lparr>ACL_ChanGroup_inheritable := v\<rparr>"
    and P = "\<lambda>_. True"]
  merge_put_list [where n = 5 and s = "\<lambda>v m. m\<lparr>ACL_ChanGroup_add := v\<rparr>"
    and P = "\<lambda>_. True"]
  merge_put_list [where n = 6 and s = "\<lambda>v m. m\<lparr>ACL_ChanGroup_remove := v\<rparr>"
    and P = "\<lambda>_. True"]
  merge_put_list [where n = 7 and s = "\<lambda>v m. m\<lparr>ACL_ChanGroup_inherited_members := v\<rparr>"
    and P = "\<lambda>_. True"]
  for rt

interpretation ACL_ChanGroup: pb_message ACL_ChanGroup_new ACL_ChanGroup_merge_field ACL_ChanGroup_write_items
  ACL_ChanGroup_unknown_fields ACL_ChanGroup_compute_size ACL_ChanGroup_is_initialized ACL_ChanGroup_ok
proof unfold_locales
  fix rt m assume rt: "pb_ok rt" and m: "ACL_ChanGroup_ok rt m"
  show "merge_fields (ACL_ChanGroup_merge_field rt) (map item_field (ACL_ChanGroup_write_items rt m)) ACL_ChanGroup_new = Some m"
    using m by (simp add: ACL_ChanGroup_write_items_def ACL_ChanGroup_new_def ACL_ChanGroup_merge_field_def ACL_ChanGroup_ok_def
        ACL_ChanGroup_merge_put pb_read rt del: One_nat_def)
  show "items_ok (ACL_ChanGroup_write_items rt m)"
    using m by (auto simp: ACL_ChanGroup_write_items_def ACL_ChanGroup_ok_def pb_item rt pred_defs)
  show "ACL_ChanGroup_compute_size rt m = word_of_nat (length (items_bytes rt (ACL_ChanGroup_write_items rt m)))"
    using m by (simp add: ACL_ChanGroup_write_items_def ACL_ChanGroup_compute_size_def ACL_ChanGroup_ok_def pb_size rt pb_unknown
        pred_defs)
qed (simp add: ACL_ChanGroup_ok_def)

lemmas ACL_ChanGroup_parse_written = ACL_ChanGroup.parse_written [folded ACL_ChanGroup_write_to_def ACL_ChanGroup_parse_def]
lemmas ACL_ChanGroup_size_written = ACL_ChanGroup.size_written [folded ACL_ChanGroup_write_to_def]

section \<open>ACL_ChanACL\<close>

record ACL_ChanACL =
  ACL_ChanACL_apply_here :: "bool option"
  ACL_ChanACL_apply_subs :: "bool option"
  ACL_ChanACL_inherited :: "bool option"
  ACL_ChanACL_user_id :: "u32 option"
  ACL_ChanACL_group :: "string option"
  ACL_ChanACL_grant :: "u32 option"
  ACL_ChanACL_deny :: "u32 option"
  ACL_ChanACL_unknown_fields :: "pb_field list"

definition ACL_ChanACL_new :: ACL_ChanACL where
  "ACL_ChanACL_new = \<lparr>ACL_ChanACL_apply_here = None, ACL_ChanACL_apply_subs = None, ACL_ChanACL_inherited = None,
     ACL_ChanACL_user_id = None, ACL_ChanACL_group = None, ACL_ChanACL_grant = None,
     ACL_ChanACL_deny = None,
     ACL_ChanACL_unknown_fields = []\<rparr>"

definition ACL_ChanACL_is_initialized :: "ACL_ChanACL \<Rightarrow> bool" where
  "ACL_ChanACL_is_initialized m = True"

definition ACL_ChanACL_merge_field :: "pb_runtime \<Rightarrow> ACL_ChanACL \<Rightarrow> pb_field \<Rightarrow> ACL_ChanACL option" where
  "ACL_ChanACL_merge_field rt m f = (case f of (n, v) \<Rightarrow>
     if n = 1 then map_option (\<lambda>tmp. m\<lparr>ACL_ChanACL_apply_here := Some tmp\<rparr>) (read_bool rt v)
     else if n = 2 then map_option (\<lambda>tmp. m\<lparr>ACL_ChanACL_apply_subs := Some tmp\<rparr>) (read_bool rt v)
     else if n = 3 then map_option (\<lambda>tmp. m\<lparr>ACL_ChanACL_inherited := Some tmp\<rparr>) (read_bool rt v)
     else if n = 4 then map_option (\<lambda>tmp. m\<lparr>ACL_ChanACL_user_id := Some tmp\<rparr>) (read_uint32 rt v)
     else if n = 5 then map_option (\<lambda>tmp. m\<lparr>ACL_ChanACL_group := Some tmp\<rparr>) (read_string rt v)
     else if n = 6 then map_option (\<lambda>tmp. m\<lparr>ACL_ChanACL_grant := Some tmp\<rparr>) (read_uint32 rt v)
     else if n = 7 then map_option (\<lambda>tmp. m\<lparr>ACL_ChanACL_deny := Some tmp\<rparr>) (read_uint32 rt v)
     else Some (m\<lparr>ACL_ChanACL_unknown_fields := ACL_ChanACL_unknown_fields m @ read_unknown f\<rparr>))"

definition ACL_ChanACL_compute_size :: "pb_runtime \<Rightarrow> ACL_ChanACL \<Rightarrow> u32" where
  "ACL_ChanACL_compute_size rt m =
     size_opt (\<lambda>_. 2) (ACL_ChanACL_apply_here m) +
     size_opt (\<lambda>_. 2) (ACL_ChanACL_apply_subs m) +
     size_opt (\<lambda>_. 2) (ACL_ChanACL_inherited m) +
     size_opt (s_uint32 rt 4) (ACL_ChanACL_user_id m) +
     size_opt (s_string rt 5) (ACL_ChanACL_group m) +
     size_opt (s_uint32 rt 6) (ACL_ChanACL_grant m) +
     size_opt (s_uint32 rt 7) (ACL_ChanACL_deny m) +
     rt_unknown_size rt (ACL_ChanACL_unknown_fields m)"

definition ACL_ChanACL_write_items :: "pb_runtime \<Rightarrow> ACL_ChanACL \<Rightarrow> pb_item list" where
  "ACL_ChanACL_write_items rt m =
     put_opt 1 w_bool (ACL_ChanACL_apply_here m) @
     put_opt 2 w_bool (ACL_ChanACL_apply_subs m) @
     put_opt 3 w_bool (ACL_ChanACL_inherited m) @
     put_opt 4 w_uint32 (ACL_ChanACL_user_id m) @
     put_opt 5 w_string (ACL_ChanACL_group m) @
     put_opt 6 w_uint32 (ACL_ChanACL_grant m) @
     put_opt 7 w_uint32 (ACL_ChanACL_deny m)"

definition ACL_ChanACL_write_to :: "pb_runtime \<Rightarrow> ACL_ChanACL \<Rightarrow> bytes" where
  "ACL_ChanACL_write_to rt m = write_to rt (ACL_ChanACL_write_items rt m) (ACL_ChanACL_unknown_fields m)"

definition ACL_ChanACL_parse :: "pb_runtime \<Rightarrow> bytes \<Rightarrow> ACL_ChanACL option" where
  "ACL_ChanACL_parse = parse_from_bytes ACL_ChanACL_new ACL_ChanACL_merge_field ACL_ChanACL_is_initialized"

definition ACL_ChanACL_ok :: "pb_runtime \<Rightarrow> ACL_ChanACL \<Rightarrow> bool" where
  "ACL_ChanACL_ok rt m = (ACL_ChanACL_unknown_fields m = [] \<and>
     pred_option (str_ok rt) (ACL_ChanACL_group m))"

lemmas ACL_ChanACL_merge_put =
  merge_put_opt [where n = 1 and s = "\<lambda>v m. m\<lparr>ACL_ChanACL_apply_here := v\<rparr>"
    and P = "\<lambda>_. True"]
  merge_put_opt [where n = 2 and s = "\<lambda>v m. m\<lparr>ACL_ChanACL_apply_subs := v\<rparr>"
    and P = "\<lambda>_. True"]
  merge_put_opt [where n = 3 and s = "\<lambda>v m. m\<lparr>ACL_ChanACL_inherited := v\<rparr>"
    and P = "\<lambda>_. True"]
  merge_put_opt [where n = 4 and s = "\<lambda>v m. m\<lparr>ACL_ChanACL_user_id := v\<rparr>"
    and P = "\<lambda>_. True"]
  merge_put_opt [where n = 5 and s = "\<lambda>v m. m\<lparr>ACL_ChanACL_group := v\<rparr>"
    and P = "str_ok rt" and step = "ACL_ChanACL_merge_field rt"]
  merge_put_opt [where n = 6 and s = "\<lambda>v m. m\<lparr>ACL_ChanACL_grant := v\<rparr>"
    and P = "\<lambda>_. True"]
  merge_put_opt [where n = 7 and s = "\<lambda>v m. m\<lparr>ACL_ChanACL_deny := v\<rparr>"
    and P = "\<lambda>_. True"]
  for rt

interpretation ACL_ChanACL: pb_message ACL_ChanACL_new ACL_ChanACL_merge_field ACL_ChanACL_write_items
  ACL_ChanACL_unknown_fields ACL_ChanACL_compute_size ACL_ChanACL_is_initialized ACL_ChanACL_ok
proof unfold_locales
  fix rt m assume rt: "pb_ok rt" and m: "ACL_ChanACL_ok rt m"
  show "merge_fields (ACL_ChanACL_merge_field rt) (map item_field (ACL_ChanACL_write_items rt m)) ACL_ChanACL_new = Some m"
    using m by (simp add: ACL_ChanACL_write_items_def ACL_ChanACL_new_def ACL_ChanACL_merge_field_def ACL_ChanACL_ok_def
        ACL_ChanACL_merge_put pb_read rt del: One_nat_def)
  show "items_ok (ACL_ChanACL_write_items rt m)"
    using m by (auto simp: ACL_ChanACL_write_items_def ACL_ChanACL_ok_def pb_item rt pred_defs)
  show "ACL_ChanACL_compute_size rt m = word_of_nat (length (items_bytes rt (ACL_ChanACL_write_items rt m)))"
    using m by (simp add: ACL_ChanACL_write_items_def ACL_ChanACL_compute_size_def ACL_ChanACL_ok_def pb_size rt pb_unknown
        pred_defs)
qed (simp add: ACL_ChanACL_ok_def)

lemmas ACL_ChanACL_parse_written = ACL_ChanACL.parse_written [folded ACL_ChanACL_write_to_def ACL_ChanACL_parse_def]
lemmas ACL_ChanACL_size_written = ACL_ChanACL.size_written [folded ACL_ChanACL_write_to_def]

section \<open>ACL\<close>

record ACL =
  ACL_channel_id :: "u32 option"
  ACL_inherit_acls :: "bool option"
  ACL_groups :: "ACL_ChanGroup list"
  ACL_acls :: "ACL_ChanACL list"
  ACL_query :: "bool option"
  ACL_unknown_fields :: "pb_field list"

definition ACL_new :: ACL where
  "ACL_new = \<lparr>ACL_channel_id = None, ACL_inherit_acls = None, ACL_groups = [], ACL_acls = [],
     ACL_query = None,
     ACL_unknown_fields = []\<rparr>"

definition ACL_is_initialized :: "ACL \<Rightarrow> bool" where
  "ACL_is_initialized m = (ACL_channel_id m \<noteq> None \<and> list_all ACL_ChanGroup_is_initialized (ACL_groups m) \<and> list_all ACL_ChanACL_is_initialized (ACL_acls m))"

definition ACL_merge_field :: "pb_runtime \<Rightarrow> ACL \<Rightarrow> pb_field \<Rightarrow> ACL option" where
  "ACL_merge_field rt m f = (case f of (n, v) \<Rightarrow>
     if n = 1 then map_option (\<lambda>tmp. m\<lparr>ACL_channel_id := Some tmp\<rparr>) (read_uint32 rt v)
     else if n = 2 then map_option (\<lambda>tmp. m\<lparr>ACL_inherit_acls := Some tmp\<rparr>) (read_bool rt v)
     else if n = 3 then map_option (\<lambda>tmp. m\<lparr>ACL_groups := ACL_groups m @ [tmp]\<rparr>) (read_message ACL_ChanGroup_new ACL_ChanGroup_merge_field rt None v)
     else if n = 4 then map_option (\<lambda>tmp. m\<lparr>ACL_acls := ACL_acls m @ [tmp]\<rparr>) (read_message ACL_ChanACL_new ACL_ChanACL_merge_field rt None v)
     else if n = 5 then map_option (\<lambda>tmp. m\<lparr>ACL_query := Some tmp\<rparr>) (read_bool rt v)
     else Some (m\<lparr>ACL_unknown_fields := ACL_unknown_fields m @ read_unknown f\<rparr>))"

definition ACL_compute_size :: "pb_runtime \<Rightarrow> ACL \<Rightarrow> u32" where
  "ACL_compute_size rt m =
     size_opt (s_uint32 rt 1) (ACL_channel_id m) +
     size_opt (\<lambda>_. 2) (ACL_inherit_acls m) +
     size_rep (\<lambda>v. s_message rt 1 (ACL_ChanGroup_compute_size rt v)) (ACL_groups m) +
     size_rep (\<lambda>v. s_message rt 1 (ACL_ChanACL_compute_size rt v)) (ACL_acls m) +
     size_opt (\<lambda>_. 2) (ACL_query m) +
     rt_unknown_size rt (ACL_unknown_fields m)"

definition ACL_write_items :: "pb_runtime \<Rightarrow> ACL \<Rightarrow> pb_item list" where
  "ACL_write_items rt m =
     put_opt 1 w_uint32 (ACL_channel_id m) @
     put_opt 2 w_bool (ACL_inherit_acls m) @
     put_message 3 (ACL_ChanGroup_compute_size rt) (ACL_ChanGroup_write_to rt) (ACL_groups m) @
     put_message 4 (ACL_ChanACL_compute_size rt) (ACL_ChanACL_write_to rt) (ACL_acls m) @
     put_opt 5 w_bool (ACL_query m)"

definition ACL_write_to :: "pb_runtime \<Rightarrow> ACL \<Rightarrow> bytes" where
  "ACL_write_to rt m = write_to rt (ACL_write_items rt m) (ACL_unknown_fields m)"

definition ACL_parse :: "pb_runtime \<Rightarrow> bytes \<Rightarrow> ACL option" where
  "ACL_parse = parse_from_bytes ACL_new ACL_merge_field ACL_is_initialized"

definition ACL_ok :: "pb_runtime \<Rightarrow> ACL \<Rightarrow> bool" where
  "ACL_ok rt m = (ACL_unknown_fields m = [] \<and>
     list_all (\<lambda>x. ACL_ChanGroup_ok rt x \<and> length (ACL_ChanGroup_write_to rt x) < 2 ^ 32) (ACL_groups m) \<and>
     list_all (\<lambda>x. ACL_ChanACL_ok rt x \<and> length (ACL_ChanACL_write_to rt x) < 2 ^ 32) (ACL_acls m))"

lemmas ACL_merge_put =
  merge_put_opt [where n = 1 and s = "\<lambda>v m. m\<lparr>ACL_channel_id := v\<rparr>"
    and P = "\<lambda>_. True"]
  merge_put_opt [where n = 2 and s = "\<lambda>v m. m\<lparr>ACL_inherit_acls := v\<rparr>"
    and P = "\<lambda>_. True"]
  merge_put_messages [where n = 3 and s = "\<lambda>v m. m\<lparr>ACL_groups := v\<rparr>"
    and P = "\<lambda>x. ACL_ChanGroup_ok rt x \<and> length (ACL_ChanGroup_write_to rt x) < 2 ^ 32" and step = "ACL_merge_field rt"]
  merge_put_messages [where n = 4 and s = "\<lambda>v m. m\<lparr>ACL_acls := v\<rparr>"
    and P = "\<lambda>x. ACL_ChanACL_ok rt x \<and> length (ACL_ChanACL_write_to rt x) < 2 ^ 32" and step = "ACL_merge_field rt"]
  merge_put_opt [where n = 5 and s = "\<lambda>v m. m\<lparr>ACL_query := v\<rparr>"
    and P = "\<lambda>_. True"]
  for rt

interpretation ACL: pb_message ACL_new ACL_merge_field ACL_write_items
  ACL_unknown_fields ACL_compute_size ACL_is_initialized ACL_ok
proof unfold_locales
  fix rt m assume rt: "pb_ok rt" and m: "ACL_ok rt m"
  show "merge_fields (ACL_merge_field rt) (map item_field (ACL_write_items rt m)) ACL_new = Some m"
    using m by (simp add: ACL_write_items_def ACL_new_def ACL_merge_field_def ACL_ok_def
        ACL_merge_put pb_read rt
        ACL_ChanGroup.read_written [folded ACL_ChanGroup_write_to_def] ACL_ChanGroup.size_written [folded ACL_ChanGroup_write_to_def]
        ACL_ChanACL.read_written [folded ACL_ChanACL_write_to_def] ACL_ChanACL.size_written [folded ACL_ChanACL_write_to_def] del: One_nat_def)
  show "items_ok (ACL_write_items rt m)"
    using m by (auto simp: ACL_write_items_def ACL_ok_def pb_item rt pred_defs
        ACL_ChanGroup.read_written [folded ACL_ChanGroup_write_to_def] ACL_ChanGroup.size_written [folded ACL_ChanGroup_write_to_def]
        ACL_ChanACL.read_written [folded ACL_ChanACL_write_to_def] ACL_ChanACL.size_written [folded ACL_ChanACL_write_to_def])
  show "ACL_compute_size rt m = word_of_nat (length (items_bytes rt (ACL_write_items rt m)))"
    using m by (simp add: ACL_write_items_def ACL_compute_size_def ACL_ok_def pb_size rt pb_unknown
        pred_defs
        ACL_ChanGroup.read_written [folded ACL_ChanGroup_write_to_def] ACL_ChanGroup.size_written [folded ACL_ChanGroup_write_to_def]
        ACL_ChanACL.read_written [folded ACL_ChanACL_write_to_def] ACL_ChanACL.size_written [folded ACL_ChanACL_write_to_def])
qed (simp add: ACL_ok_def)

lemmas ACL_parse_written = ACL.parse_written [folded ACL_write_to_def ACL_parse_def]
lemmas ACL_size_written = ACL.size_written [folded ACL_write_to_def]

section \<open>QueryUsers\<close>

record QueryUsers =
  QueryUsers_ids :: "u32 list"
  QueryUsers_names :: "string list"
  QueryUsers_unknown_fields :: "pb_field list"

definition QueryUsers_new :: QueryUsers where
  "QueryUsers_new = \<lparr>QueryUsers_ids = [], QueryUsers_names = [],
     QueryUsers_unknown_fields = []\<rparr>"

definition QueryUsers_is_initialized :: "QueryUsers \<Rightarrow> bool" where
  "QueryUsers_is_initialized m = True"

definition QueryUsers_merge_field :: "pb_runtime \<Rightarrow> QueryUsers \<Rightarrow> pb_field \<Rightarrow> QueryUsers option" where
  "QueryUsers_merge_field rt m f = (case f of (n, v) \<Rightarrow>
     if n = 1 then map_option (\<lambda>tmp. m\<lparr>QueryUsers_ids := QueryUsers_ids m @ tmp\<rparr>) (read_repeated_uint32 rt v)
     else if n = 2 then map_option (\<lambda>tmp. m\<lparr>QueryUsers_names := QueryUsers_names m @ [tmp]\<rparr>) (read_string rt v)
     else Some (m\<lparr>QueryUsers_unknown_fields := QueryUsers_unknown_fields m @ read_unknown f\<rparr>))"

definition QueryUsers_compute_size :: "pb_runtime \<Rightarrow> QueryUsers \<Rightarrow> u32" where
  "QueryUsers_compute_size rt m =
     size_rep (s_uint32 rt 1) (QueryUsers_ids m) +
     size_rep (s_string rt 2) (QueryUsers_names m) +
     rt_unknown_size rt (QueryUsers_unknown_fields m)"

definition QueryUsers_write_items :: "pb_runtime \<Rightarrow> QueryUsers \<Rightarrow> pb_item list" where
  "QueryUsers_write_items rt m =
     put_list 1 w_uint32 (QueryUsers_ids m) @
     put_list 2 w_string (QueryUsers_names m)"

definition QueryUsers_write_to :: "pb_runtime \<Rightarrow> QueryUsers \<Rightarrow> bytes" where
  "QueryUsers_write_to rt m = write_to rt (QueryUsers_write_items rt m) (QueryUsers_unknown_fields m)"

definition QueryUsers_parse :: "pb_runtime \<Rightarrow> bytes \<Rightarrow> QueryUsers option" where
  "QueryUsers_parse = parse_from_bytes QueryUsers_new QueryUsers_merge_field QueryUsers_is_initialized"

definition QueryUsers_ok :: "pb_runtime \<Rightarrow> QueryUsers \<Rightarrow> bool" where
  "QueryUsers_ok rt m = (QueryUsers_unknown_fields m = [] \<and>
     list_all (str_ok rt) (QueryUsers_names m))"

lemmas QueryUsers_merge_put =
  merge_put_list [where n = 1 and s = "\<lambda>v m. m\<lparr>QueryUsers_ids := v\<rparr>"
    and P = "\<lambda>_. True"]
  merge_put_list [where n = 2 and s = "\<lambda>v m. m\<lparr>QueryUsers_names := v\<rparr>"
    and P = "str_ok rt" and step = "QueryUsers_merge_field rt"]
  for rt

interpretation QueryUsers: pb_message QueryUsers_new QueryUsers_merge_field QueryUsers_write_items
  QueryUsers_unknown_fields QueryUsers_compute_size QueryUsers_is_initialized QueryUsers_ok
proof unfold_locales
  fix rt m assume rt: "pb_ok rt" and m: "QueryUsers_ok rt m"
  show "merge_fields (QueryUsers_merge_field rt) (map item_field (QueryUsers_write_items rt m)) QueryUsers_new = Some m"
    using m by (simp add: QueryUsers_write_items_def QueryUsers_new_def QueryUsers_merge_field_def QueryUsers_ok_def
        QueryUsers_merge_put pb_read rt del: One_nat_def)
  show "items_ok (QueryUsers_write_items rt m)"
    using m by (auto simp: QueryUsers_write_items_def QueryUsers_ok_def pb_item rt pred_defs)
  show "QueryUsers_compute_size rt m = word_of_nat (length (items_bytes rt (QueryUsers_write_items rt m)))"
    using m by (simp add: QueryUsers_write_items_def QueryUsers_compute_size_def QueryUsers_ok_def pb_size rt pb_unknown
        pred_defs)
qed (simp add: QueryUsers_ok_def)

lemmas QueryUsers_parse_written = QueryUsers.parse_written [folded QueryUsers_write_to_def QueryUsers_parse_def]
lemmas QueryUsers_size_written = QueryUsers.size_written [folded QueryUsers_write_to_def]

datatype ContextActionModify_Context =
    ContextActionModify_Context_Server
  | ContextActionModify_Context_Channel
  | ContextActionModify_Context_User

primrec ContextActionModify_Context_value :: "ContextActionModify_Context \<Rightarrow> i32" where
  "ContextActionModify_Context_value ContextActionModify_Context_Server = 1"
| "ContextActionModify_Context_value ContextActionModify_Context_Channel = 2"
| "ContextActionModify_Context_value ContextActionModify_Context_User = 4"

definition ContextActionModify_Context_from_i32 :: "i32 \<Rightarrow> ContextActionModify_Context option" where
  "ContextActionModify_Context_from_i32 value = (
     if value = 1 then Some ContextActionModify_Context_Server
     else if value = 2 then Some ContextActionModify_Context_Channel
     else if value = 4 then Some ContextActionModify_Context_User
     else None)"

lemma ContextActionModify_Context_values [pb_read]: "ContextActionModify_Context_from_i32 (ContextActionModify_Context_value v) = Some v"
  by (cases v) (simp_all add: ContextActionModify_Context_from_i32_def)

datatype ContextActionModify_Operation =
    ContextActionModify_Operation_Add
  | ContextActionModify_Operation_Remove

primrec ContextActionModify_Operation_value :: "ContextActionModify_Operation \<Rightarrow> i32" where
  "ContextActionModify_Operation_value ContextActionModify_Operation_Add = 0"
| "ContextActionModify_Operation_value ContextActionModify_Operation_Remove = 1"

definition ContextActionModify_Operation_from_i32 :: "i32 \<Rightarrow> ContextActionModify_Operation option" where
  "ContextActionModify_Operation_from_i32 value = (
     if value = 0 then Some ContextActionModify_Operation_Add
     else if value = 1 then Some ContextActionModify_Operation_Remove
     else None)"

lemma ContextActionModify_Operation_values [pb_read]: "ContextActionModify_Operation_from_i32 (ContextActionModify_Operation_value v) = Some v"
  by (cases v) (simp_all add: ContextActionModify_Operation_from_i32_def)

section \<open>ContextActionModify\<close>

record ContextActionModify =
  ContextActionModify_action :: "string option"
  ContextActionModify_text :: "string option"
  ContextActionModify_context :: "u32 option"
  ContextActionModify_operation :: "ContextActionModify_Operation option"
  ContextActionModify_unknown_fields :: "pb_field list"

definition ContextActionModify_new :: ContextActionModify where
  "ContextActionModify_new = \<lparr>ContextActionModify_action = None, ContextActionModify_text = None,
     ContextActionModify_context = None, ContextActionModify_operation = None,
     ContextActionModify_unknown_fields = []\<rparr>"

definition ContextActionModify_is_initialized :: "ContextActionModify \<Rightarrow> bool" where
  "ContextActionModify_is_initialized m = (ContextActionModify_action m \<noteq> None)"

definition ContextActionModify_merge_field :: "pb_runtime \<Rightarrow> ContextActionModify \<Rightarrow> pb_field \<Rightarrow> ContextActionModify option" where
  "ContextActionModify_merge_field rt m f = (case f of (n, v) \<Rightarrow>
     if n = 1 then map_option (\<lambda>tmp. m\<lparr>ContextActionModify_action := Some tmp\<rparr>) (read_string rt v)
     else if n = 2 then map_option (\<lambda>tmp. m\<lparr>ContextActionModify_text := Some tmp\<rparr>) (read_string rt v)
     else if n = 3 then map_option (\<lambda>tmp. m\<lparr>ContextActionModify_context := Some tmp\<rparr>) (read_uint32 rt v)
     else if n = 4 then map_option (\<lambda>tmp. case tmp of
         Inl e \<Rightarrow> m\<lparr>ContextActionModify_operation := Some e\<rparr> | Inr u \<Rightarrow> m\<lparr>ContextActionModify_unknown_fields := ContextActionModify_unknown_fields m @ u\<rparr>)
       (read_enum ContextActionModify_Operation_from_i32 rt n v)
     else Some (m\<lparr>ContextActionModify_unknown_fields := ContextActionModify_unknown_fields m @ read_unknown f\<rparr>))"

definition ContextActionModify_compute_size :: "pb_runtime \<Rightarrow> ContextActionModify \<Rightarrow> u32" where
  "ContextActionModify_compute_size rt m =
     size_opt (s_string rt 1) (ContextActionModify_action m) +
     size_opt (s_string rt 2) (ContextActionModify_text m) +
     size_opt (s_uint32 rt 3) (ContextActionModify_context m) +
     size_opt (s_int32 rt 4) (map_option ContextActionModify_Operation_value (ContextActionModify_operation m)) +
     rt_unknown_size rt (ContextActionModify_unknown_fields m)"

definition ContextActionModify_write_items :: "pb_runtime \<Rightarrow> ContextActionModify \<Rightarrow> pb_item list" where
  "ContextActionModify_write_items rt m =
     put_opt 1 w_string (ContextActionModify_action m) @
     put_opt 2 w_string (ContextActionModify_text m) @
     put_opt 3 w_uint32 (ContextActionModify_context m) @
     put_opt 4 w_int32 (map_option ContextActionModify_Operation_value (ContextActionModify_operation m))"

definition ContextActionModify_write_to :: "pb_runtime \<Rightarrow> ContextActionModify \<Rightarrow> bytes" where
  "ContextActionModify_write_to rt m = write_to rt (ContextActionModify_write_items rt m) (ContextActionModify_unknown_fields m)"

definition ContextActionModify_parse :: "pb_runtime \<Rightarrow> bytes \<Rightarrow> ContextActionModify option" where
  "ContextActionModify_parse = parse_from_bytes ContextActionModify_new ContextActionModify_merge_field ContextActionModify_is_initialized"

definition ContextActionModify_ok :: "pb_runtime \<Rightarrow> ContextActionModify \<Rightarrow> bool" where
  "ContextActionModify_ok rt m = (ContextActionModify_unknown_fields m = [] \<and>
     pred_option (str_ok rt) (ContextActionModify_action m) \<and>
     pred_option (str_ok rt) (ContextActionModify_text m))"

lemmas ContextActionModify_merge_put =
  merge_put_opt [where n = 1 and s = "\<lambda>v m. m\<lparr>ContextActionModify_action := v\<rparr>"
    and P = "str_ok rt" and step = "ContextActionModify_merge_field rt"]
  merge_put_opt [where n = 2 and s = "\<lambda>v m. m\<lparr>ContextActionModify_text := v\<rparr>"
    and P = "str_ok rt" and step = "ContextActionModify_merge_field rt"]
  merge_put_opt [where n = 3 and s = "\<lambda>v m. m\<lparr>ContextActionModify_context := v\<rparr>"
    and P = "\<lambda>_. True"]
  merge_put_enum [where n = 4 and s = "\<lambda>v m. m\<lparr>ContextActionModify_operation := v\<rparr>" and vl = ContextActionModify_Operation_value]
  for rt

interpretation ContextActionModify: pb_message ContextActionModify_new ContextActionModify_merge_field ContextActionModify_write_items
  ContextActionModify_unknown_fields ContextActionModify_compute_size ContextActionModify_is_initialized ContextActionModify_ok
proof unfold_locales
  fix rt m assume rt: "pb_ok rt" and m: "ContextActionModify_ok rt m"
  show "merge_fields (ContextActionModify_merge_field rt) (map item_field (ContextActionModify_write_items rt m)) ContextActionModify_new = Some m"
    using m by (simp add: ContextActionModify_write_items_def ContextActionModify_new_def ContextActionModify_merge_field_def ContextActionModify_ok_def
        ContextActionModify_merge_put pb_read rt del: One_nat_def)
  show "items_ok (ContextActionModify_write_items rt m)"
    using m by (auto simp: ContextActionModify_write_items_def ContextActionModify_ok_def pb_item rt pred_defs)
  show "ContextActionModify_compute_size rt m = word_of_nat (length (items_bytes rt (ContextActionModify_write_items rt m)))"
    using m by (simp add: ContextActionModify_write_items_def ContextActionModify_compute_size_def ContextActionModify_ok_def pb_size rt pb_unknown
        pred_defs)
qed (simp add: ContextActionModify_ok_def)

lemmas ContextActionModify_parse_written = ContextActionModify.parse_written [folded ContextActionModify_write_to_def ContextActionModify_parse_def]
lemmas ContextActionModify_size_written = ContextActionModify.size_written [folded ContextActionModify_write_to_def]

section \<open>ContextAction\<close>

record ContextAction =
  ContextAction_session :: "u32 option"
  ContextAction_channel_id :: "u32 option"
  ContextAction_action :: "string option"
  ContextAction_unknown_fields :: "pb_field list"

definition ContextAction_new :: ContextAction where
  "ContextAction_new = \<lparr>ContextAction_session = None, ContextAction_channel_id = None, ContextAction_action = None,
     ContextAction_unknown_fields = []\<rparr>"

definition ContextAction_is_initialized :: "ContextAction \<Rightarrow> bool" where
  "ContextAction_is_initialized m = (ContextAction_action m \<noteq> None)"

definition ContextAction_merge_field :: "pb_runtime \<Rightarrow> ContextAction \<Rightarrow> pb_field \<Rightarrow> ContextAction option" where
  "ContextAction_merge_field rt m f = (case f of (n, v) \<Rightarrow>
     if n = 1 then map_option (\<lambda>tmp. m\<lparr>ContextAction_session := Some tmp\<rparr>) (read_uint32 rt v)
     else if n = 2 then map_option (\<lambda>tmp. m\<lparr>ContextAction_channel_id := Some tmp\<rparr>) (read_uint32 rt v)
     else if n = 3 then map_option (\<lambda>tmp. m\<lparr>ContextAction_action := Some tmp\<rparr>) (read_string rt v)
     else Some (m\<lparr>ContextAction_unknown_fields := ContextAction_unknown_fields m @ read_unknown f\<rparr>))"

definition ContextAction_compute_size :: "pb_runtime \<Rightarrow> ContextAction \<Rightarrow> u32" where
  "ContextAction_compute_size rt m =
     size_opt (s_uint32 rt 1) (ContextAction_session m) +
     size_opt (s_uint32 rt 2) (ContextAction_channel_id m) +
     size_opt (s_string rt 3) (ContextAction_action m) +
     rt_unknown_size rt (ContextAction_unknown_fields m)"

definition ContextAction_write_items :: "pb_runtime \<Rightarrow> ContextAction \<Rightarrow> pb_item list" where
  "ContextAction_write_items rt m =
     put_opt 1 w_uint32 (ContextAction_session m) @
     put_opt 2 w_uint32 (ContextAction_channel_id m) @
     put_opt 3 w_string (ContextAction_action m)"

definition ContextAction_write_to :: "pb_runtime \<Rightarrow> ContextAction \<Rightarrow> bytes" where
  "ContextAction_write_to rt m = write_to rt (ContextAction_write_items rt m) (ContextAction_unknown_fields m)"

definition ContextAction_parse :: "pb_runtime \<Rightarrow> bytes \<Rightarrow> ContextAction option" where
  "ContextAction_parse = parse_from_bytes ContextAction_new ContextAction_merge_field ContextAction_is_initialized"

definition ContextAction_ok :: "pb_runtime \<Rightarrow> ContextAction \<Rightarrow> bool" where
  "ContextAction_ok rt m = (ContextAction_unknown_fields m = [] \<and>
     pred_option (str_ok rt) (ContextAction_action m))"

lemmas ContextAction_merge_put =
  merge_put_opt [where n = 1 and s = "\<lambda>v m. m\<lparr>ContextAction_session := v\<rparr>"
    and P = "\<lambda>_. True"]
  merge_put_opt [where n = 2 and s = "\<lambda>v m. m\<lparr>ContextAction_channel_id := v\<rparr>"
    and P = "\<lambda>_. True"]
  merge_put_opt [where n = 3 and s = "\<lambda>v m. m\<lparr>ContextAction_action := v\<rparr>"
    and P = "str_ok rt" and step = "ContextAction_merge_field rt"]
  for rt

interpretation ContextAction: pb_message ContextAction_new ContextAction_merge_field ContextAction_write_items
  ContextAction_unknown_fields ContextAction_compute_size ContextAction_is_initialized ContextAction_ok
proof unfold_locales
  fix rt m assume rt: "pb_ok rt" and m: "ContextAction_ok rt m"
  show "merge_fields (ContextAction_merge_field rt) (map item_field (ContextAction_write_items rt m)) ContextAction_new = Some m"
    using m by (simp add: ContextAction_write_items_def ContextAction_new_def ContextAction_merge_field_def ContextAction_ok_def
        ContextAction_merge_put pb_read rt del: One_nat_def)
  show "items_ok (ContextAction_write_items rt m)"
    using m by (auto simp: ContextAction_write_items_def ContextAction_ok_def pb_item rt pred_defs)
  show "ContextAction_compute_size rt m = word_of_nat (length (items_bytes rt (ContextAction_write_items rt m)))"
    using m by (simp add: ContextAction_write_items_def ContextAction_compute_size_def ContextAction_ok_def pb_size rt pb_unknown
        pred_defs)
qed (simp add: ContextAction_ok_def)

lemmas ContextAction_parse_written = ContextAction.parse_written [folded ContextAction_write_to_def ContextAction_parse_def]
lemmas ContextAction_size_written = ContextAction.size_written [folded ContextAction_write_to_def]

section \<open>UserList_User\<close>

record UserList_User =
  UserList_User_user_id :: "u32 option"
  UserList_User_name :: "string option"
  UserList_User_last_seen :: "string option"
  UserList_User_last_channel :: "u32 option"
  UserList_User_unknown_fields :: "pb_field list"

definition UserList_User_new :: UserList_User where
  "UserList_User_new = \<lparr>UserList_User_user_id = None, UserList_User_name = None, UserList_User_last_seen = None,
     UserList_User_last_channel = None,
     UserList_User_unknown_fields = []\<rparr>"

definition UserList_User_is_initialized :: "UserList_User \<Rightarrow> bool" where
  "UserList_User_is_initialized m = (UserList_User_user_id m \<noteq> None)"

definition UserList_User_merge_field :: "pb_runtime \<Rightarrow> UserList_User \<Rightarrow> pb_field \<Rightarrow> UserList_User option" where
  "UserList_User_merge_field rt m f = (case f of (n, v) \<Rightarrow>
     if n = 1 then map_option (\<lambda>tmp. m\<lparr>UserList_User_user_id := Some tmp\<rparr>) (read_uint32 rt v)
     else if n = 2 then map_option (\<lambda>tmp. m\<lparr>UserList_User_name := Some tmp\<rparr>) (read_string rt v)
     else if n = 3 then map_option (\<lambda>tmp. m\<lparr>UserList_User_last_seen := Some tmp\<rparr>) (read_string rt v)
     else if n = 4 then map_option (\<lambda>tmp. m\<lparr>UserList_User_last_channel := Some tmp\<rparr>) (read_uint32 rt v)
     else Some (m\<lparr>UserList_User_unknown_fields := UserList_User_unknown_fields m @ read_unknown f\<rparr>))"

definition UserList_User_compute_size :: "pb_runtime \<Rightarrow> UserList_User \<Rightarrow> u32" where
  "UserList_User_compute_size rt m =
     size_opt (s_uint32 rt 1) (UserList_User_user_id m) +
     size_opt (s_string rt 2) (UserList_User_name m) +
     size_opt (s_string rt 3) (UserList_User_last_seen m) +
     size_opt (s_uint32 rt 4) (UserList_User_last_channel m) +
     rt_unknown_size rt (UserList_User_unknown_fields m)"

definition UserList_User_write_items :: "pb_runtime \<Rightarrow> UserList_User \<Rightarrow> pb_item list" where
  "UserList_User_write_items rt m =
     put_opt 1 w_uint32 (UserList_User_user_id m) @
     put_opt 2 w_string (UserList_User_name m) @
     put_opt 3 w_string (UserList_User_last_seen m) @
     put_opt 4 w_uint32 (UserList_User_last_channel m)"

definition UserList_User_write_to :: "pb_runtime \<Rightarrow> UserList_User \<Rightarrow> bytes" where
  "UserList_User_write_to rt m = write_to rt (UserList_User_write_items rt m) (UserList_User_unknown_fields m)"

definition UserList_User_parse :: "pb_runtime \<Rightarrow> bytes \<Rightarrow> UserList_User option" where
  "UserList_User_parse = parse_from_bytes UserList_User_new UserList_User_merge_field UserList_User_is_initialized"

definition UserList_User_ok :: "pb_runtime \<Rightarrow> UserList_User \<Rightarrow> bool" where
  "UserList_User_ok rt m = (UserList_User_unknown_fields m = [] \<and>
     pred_option (str_ok rt) (UserList_User_name m) \<and>
     pred_option (str_ok rt) (UserList_User_last_seen m))"

lemmas UserList_User_merge_put =
  merge_put_opt [where n = 1 and s = "\<lambda>v m. m\<lparr>UserList_User_user_id := v\<rparr>"
    and P = "\<lambda>_. True"]
  merge_put_opt [where n = 2 and s = "\<lambda>v m. m\<lparr>UserList_User_name := v\<rparr>"
    and P = "str_ok rt" and step = "UserList_User_merge_field rt"]
  merge_put_opt [where n = 3 and s = "\<lambda>v m. m\<lparr>UserList_User_last_seen := v\<rparr>"
    and P = "str_ok rt" and step = "UserList_User_merge_field rt"]
  merge_put_opt [where n = 4 and s = "\<lambda>v m. m\<lparr>UserList_User_last_channel := v\<rparr>"
    and P = "\<lambda>_. True"]
  for rt

interpretation UserList_User: pb_message UserList_User_new UserList_User_merge_field UserList_User_write_items
  UserList_User_unknown_fields UserList_User_compute_size UserList_User_is_initialized UserList_User_ok
proof unfold_locales
  fix rt m assume rt: "pb_ok rt" and m: "UserList_User_ok rt m"
  show "merge_fields (UserList_User_merge_field rt) (map item_field (UserList_User_write_items rt m)) UserList_User_new = Some m"
    using m by (simp add: UserList_User_write_items_def UserList_User_new_def UserList_User_merge_field_def UserList_User_ok_def
        UserList_User_merge_put pb_read rt del: One_nat_def)
  show "items_ok (UserList_User_write_items rt m)"
    using m by (auto simp: UserList_User_write_items_def UserList_User_ok_def pb_item rt pred_defs)
  show "UserList_User_compute_size rt m = word_of_nat (length (items_bytes rt (UserList_User_write_items rt m)))"
    using m by (simp add: UserList_User_write_items_def UserList_User_compute_size_def UserList_User_ok_def pb_size rt pb_unknown
        pred_defs)
qed (simp add: UserList_User_ok_def)

lemmas UserList_User_parse_written = UserList_User.parse_written [folded UserList_User_write_to_def UserList_User_parse_def]
lemmas UserList_User_size_written = UserList_User.size_written [folded UserList_User_write_to_def]

section \<open>UserList\<close>

record UserList =
  UserList_users :: "UserList_User list"
  UserList_unknown_fields :: "pb_field list"

definition UserList_new :: UserList where
  "UserList_new = \<lparr>UserList_users = [],
     UserList_unknown_fields = []\<rparr>"

definition UserList_is_initialized :: "UserList \<Rightarrow> bool" where
  "UserList_is_initialized m = (list_all UserList_User_is_initialized (UserList_users m))"

definition UserList_merge_field :: "pb_runtime \<Rightarrow> UserList \<Rightarrow> pb_field \<Rightarrow> UserList option" where
  "UserList_merge_field rt m f = (case f of (n, v) \<Rightarrow>
     if n = 1 then map_option (\<lambda>tmp. m\<lparr>UserList_users := UserList_users m @ [tmp]\<rparr>) (read_message UserList_User_new UserList_User_merge_field rt None v)
     else Some (m\<lparr>UserList_unknown_fields := UserList_unknown_fields m @ read_unknown f\<rparr>))"

definition UserList_compute_size :: "pb_runtime \<Rightarrow> UserList \<Rightarrow> u32" where
  "UserList_compute_size rt m =
     size_rep (\<lambda>v. s_message rt 1 (UserList_User_compute_size rt v)) (UserList_users m) +
     rt_unknown_size rt (UserList_unknown_fields m)"

definition UserList_write_items :: "pb_runtime \<Rightarrow> UserList \<Rightarrow> pb_item list" where
  "UserList_write_items rt m =
     put_message 1 (UserList_User_compute_size rt) (UserList_User_write_to rt) (UserList_users m)"

definition UserList_write_to :: "pb_runtime \<Rightarrow> UserList \<Rightarrow> bytes" where
  "UserList_write_to rt m = write_to rt (UserList_write_items rt m) (UserList_unknown_fields m)"

definition UserList_parse :: "pb_runtime \<Rightarrow> bytes \<Rightarrow> UserList option" where
  "UserList_parse = parse_from_bytes UserList_new UserList_merge_field UserList_is_initialized"

definition UserList_ok :: "pb_runtime \<Rightarrow> UserList \<Rightarrow> bool" where
  "UserList_ok rt m = (UserList_unknown_fields m = [] \<and>
     list_all (\<lambda>x. UserList_User_ok rt x \<and> length (UserList_User_write_to rt x) < 2 ^ 32) (UserList_users m))"

lemmas UserList_merge_put =
  merge_put_messages [where n = 1 and s = "\<lambda>v m. m\<lparr>UserList_users := v\<rparr>"
    and P = "\<lambda>x. UserList_User_ok rt x \<and> length (UserList_User_write_to rt x) < 2 ^ 32" and step = "UserList_merge_field rt"]
  for rt

interpretation UserList: pb_message UserList_new UserList_merge_field UserList_write_items
  UserList_unknown_fields UserList_compute_size UserList_is_initialized UserList_ok
proof unfold_locales
  fix rt m assume rt: "pb_ok rt" and m: "UserList_ok rt m"
  show "merge_fields (UserList_merge_field rt) (map item_field (UserList_write_items rt m)) UserList_new = Some m"
    using m by (simp add: UserList_write_items_def UserList_new_def UserList_merge_field_def UserList_ok_def
        UserList_merge_put pb_read rt
        UserList_User.read_written [folded UserList_User_write_to_def] UserList_User.size_written [folded UserList_User_write_to_def] del: One_nat_def)
  show "items_ok (UserList_write_items rt m)"
    using m by (auto simp: UserList_write_items_def UserList_ok_def pb_item rt pred_defs
        UserList_User.read_written [folded UserList_User_write_to_def] UserList_User.size_written [folded UserList_User_write_to_def])
  show "UserList_compute_size rt m = word_of_nat (length (items_bytes rt (UserList_write_items rt m)))"
    using m by (simp add: UserList_write_items_def UserList_compute_size_def UserList_ok_def pb_size rt pb_unknown
        pred_defs
        UserList_User.read_written [folded UserList_User_write_to_def] UserList_User.size_written [folded UserList_User_write_to_def])
qed (simp add: UserList_ok_def)

lemmas UserList_parse_written = UserList.parse_written [folded UserList_write_to_def UserList_parse_def]
lemmas UserList_size_written = UserList.size_written [folded UserList_write_to_def]

section \<open>RequestBlob\<close>

record RequestBlob =
  RequestBlob_session_texture :: "u32 list"
  RequestBlob_session_comment :: "u32 list"
  RequestBlob_channel_description :: "u32 list"
  RequestBlob_unknown_fields :: "pb_field list"

definition RequestBlob_new :: RequestBlob where
  "RequestBlob_new = \<lparr>RequestBlob_session_texture = [], RequestBlob_session_comment = [],
     RequestBlob_channel_description = [],
     RequestBlob_unknown_fields = []\<rparr>"

definition RequestBlob_is_initialized :: "RequestBlob \<Rightarrow> bool" where
  "RequestBlob_is_initialized m = True"

definition RequestBlob_merge_field :: "pb_runtime \<Rightarrow> RequestBlob \<Rightarrow> pb_field \<Rightarrow> RequestBlob option" where
  "RequestBlob_merge_field rt m f = (case f of (n, v) \<Rightarrow>
     if n = 1 then map_option (\<lambda>tmp. m\<lparr>RequestBlob_session_texture := RequestBlob_session_texture m @ tmp\<rparr>) (read_repeated_uint32 rt v)
     else if n = 2 then map_option (\<lambda>tmp. m\<lparr>RequestBlob_session_comment := RequestBlob_session_comment m @ tmp\<rparr>) (read_repeated_uint32 rt v)
     else if n = 3 then map_option (\<lambda>tmp. m\<lparr>RequestBlob_channel_description := RequestBlob_channel_description m @ tmp\<rparr>) (read_repeated_uint32 rt v)
     else Some (m\<lparr>RequestBlob_unknown_fields := RequestBlob_unknown_fields m @ read_unknown f\<rparr>))"

definition RequestBlob_compute_size :: "pb_runtime \<Rightarrow> RequestBlob \<Rightarrow> u32" where
  "RequestBlob_compute_size rt m =
     size_rep (s_uint32 rt 1) (RequestBlob_session_texture m) +
     size_rep (s_uint32 rt 2) (RequestBlob_session_comment m) +
     size_rep (s_uint32 rt 3) (RequestBlob_channel_description m) +
     rt_unknown_size rt (RequestBlob_unknown_fields m)"

definition RequestBlob_write_items :: "pb_runtime \<Rightarrow> RequestBlob \<Rightarrow> pb_item list" where
  "RequestBlob_write_items rt m =
     put_list 1 w_uint32 (RequestBlob_session_texture m) @
     put_list 2 w_uint32 (RequestBlob_session_comment m) @
     put_list 3 w_uint32 (RequestBlob_channel_description m)"

definition RequestBlob_write_to :: "pb_runtime \<Rightarrow> RequestBlob \<Rightarrow> bytes" where
  "RequestBlob_write_to rt m = write_to rt (RequestBlob_write_items rt m) (RequestBlob_unknown_fields m)"

definition RequestBlob_parse :: "pb_runtime \<Rightarrow> bytes \<Rightarrow> RequestBlob option" where
  "RequestBlob_parse = parse_from_bytes RequestBlob_new RequestBlob_merge_field RequestBlob_is_initialized"

definition RequestBlob_ok :: "pb_runtime \<Rightarrow> RequestBlob \<Rightarrow> bool" where
  "RequestBlob_ok rt m = (RequestBlob_unknown_fields m = [])"

lemmas RequestBlob_merge_put =
  merge_put_list [where n = 1 and s = "\<lambda>v m. m\<lparr>RequestBlob_session_texture := v\<rparr>"
    and P = "\<lambda>_. True"]
  merge_put_list [where n = 2 and s = "\<lambda>v m. m\<lparr>RequestBlob_session_comment := v\<rparr>"
    and P = "\<lambda>_. True"]
  merge_put_list [where n = 3 and s = "\<lambda>v m. m\<lparr>RequestBlob_channel_description := v\<rparr>"
    and P = "\<lambda>_. True"]


interpretation RequestBlob: pb_message RequestBlob_new RequestBlob_merge_field RequestBlob_write_items
  RequestBlob_unknown_fields RequestBlob_compute_size RequestBlob_is_initialized RequestBlob_ok
proof unfold_locales
  fix rt m assume rt: "pb_ok rt" and m: "RequestBlob_ok rt m"
  show "merge_fields (RequestBlob_merge_field rt) (map item_field (RequestBlob_write_items rt m)) RequestBlob_new = Some m"
    using m by (simp add: RequestBlob_write_items_def RequestBlob_new_def RequestBlob_merge_field_def RequestBlob_ok_def
        RequestBlob_merge_put pb_read rt del: One_nat_def)
  show "items_ok (RequestBlob_write_items rt m)"
    using m by (auto simp: RequestBlob_write_items_def RequestBlob_ok_def pb_item rt pred_defs)
  show "RequestBlob_compute_size rt m = word_of_nat (length (items_bytes rt (RequestBlob_write_items rt m)))"
    using m by (simp add: RequestBlob_write_items_def RequestBlob_compute_size_def RequestBlob_ok_def pb_size rt pb_unknown
        pred_defs)
qed (simp add: RequestBlob_ok_def)

lemmas RequestBlob_parse_written = RequestBlob.parse_written [folded RequestBlob_write_to_def RequestBlob_parse_def]
lemmas RequestBlob_size_written = RequestBlob.size_written [folded RequestBlob_write_to_def]

section \<open>SuggestConfig\<close>

record SuggestConfig =
  SuggestConfig_version :: "u32 option"
  SuggestConfig_positional :: "bool option"
  SuggestConfig_push_to_talk :: "bool option"
  SuggestConfig_unknown_fields :: "pb_field list"

definition SuggestConfig_new :: SuggestConfig where
  "SuggestConfig_new = \<lparr>SuggestConfig_version = None, SuggestConfig_positional = None,
     SuggestConfig_push_to_talk = None,
     SuggestConfig_unknown_fields = []\<rparr>"

definition SuggestConfig_is_initialized :: "SuggestConfig \<Rightarrow> bool" where
  "SuggestConfig_is_initialized m = True"

definition SuggestConfig_merge_field :: "pb_runtime \<Rightarrow> SuggestConfig \<Rightarrow> pb_field \<Rightarrow> SuggestConfig option" where
  "SuggestConfig_merge_field rt m f = (case f of (n, v) \<Rightarrow>
     if n = 1 then map_option (\<lambda>tmp. m\<lparr>SuggestConfig_version := Some tmp\<rparr>) (read_uint32 rt v)
     else if n = 2 then map_option (\<lambda>tmp. m\<lparr>SuggestConfig_positional := Some tmp\<rparr>) (read_bool rt v)
     else if n = 3 then map_option (\<lambda>tmp. m\<lparr>SuggestConfig_push_to_talk := Some tmp\<rparr>) (read_bool rt v)
     else Some (m\<lparr>SuggestConfig_unknown_fields := SuggestConfig_unknown_fields m @ read_unknown f\<rparr>))"

definition SuggestConfig_compute_size :: "pb_runtime \<Rightarrow> SuggestConfig \<Rightarrow> u32" where
  "SuggestConfig_compute_size rt m =
     size_opt (s_uint32 rt 1) (SuggestConfig_version m) +
     size_opt (\<lambda>_. 2) (SuggestConfig_positional m) +
     size_opt (\<lambda>_. 2) (SuggestConfig_push_to_talk m) +
     rt_unknown_size rt (SuggestConfig_unknown_fields m)"

definition SuggestConfig_write_items :: "pb_runtime \<Rightarrow> SuggestConfig \<Rightarrow> pb_item list" where
  "SuggestConfig_write_items rt m =
     put_opt 1 w_uint32 (SuggestConfig_version m) @
     put_opt 2 w_bool (SuggestConfig_positional m) @
     put_opt 3 w_bool (SuggestConfig_push_to_talk m)"

definition SuggestConfig_write_to :: "pb_runtime \<Rightarrow> SuggestConfig \<Rightarrow> bytes" where
  "SuggestConfig_write_to rt m = write_to rt (SuggestConfig_write_items rt m) (SuggestConfig_unknown_fields m)"

definition SuggestConfig_parse :: "pb_runtime \<Rightarrow> bytes \<Rightarrow> SuggestConfig option" where
  "SuggestConfig_parse = parse_from_bytes SuggestConfig_new SuggestConfig_merge_field SuggestConfig_is_initialized"

definition SuggestConfig_ok :: "pb_runtime \<Rightarrow> SuggestConfig \<Rightarrow> bool" where
  "SuggestConfig_ok rt m = (SuggestConfig_unknown_fields m = [])"

lemmas SuggestConfig_merge_put =
  merge_put_opt [where n = 1 and s = "\<lambda>v m. m\<lparr>SuggestConfig_version := v\<rparr>"
    and P = "\<lambda>_. True"]
  merge_put_opt [where n = 2 and s = "\<lambda>v m. m\<lparr>SuggestConfig_positional := v\<rparr>"
    and P = "\<lambda>_. True"]
  merge_put_opt [where n = 3 and s = "\<lambda>v m. m\<lparr>SuggestConfig_push_to_talk := v\<rparr>"
    and P = "\<lambda>_. True"]


interpretation SuggestConfig: pb_message SuggestConfig_new SuggestConfig_merge_field SuggestConfig_write_items
  SuggestConfig_unknown_fields SuggestConfig_compute_size SuggestConfig_is_initialized SuggestConfig_ok
proof unfold_locales
  fix rt m assume rt: "pb_ok rt" and m: "SuggestConfig_ok rt m"
  show "merge_fields (SuggestConfig_merge_field rt) (map item_field (SuggestConfig_write_items rt m)) SuggestConfig_new = Some m"
    using m by (simp add: SuggestConfig_write_items_def SuggestConfig_new_def SuggestConfig_merge_field_def SuggestConfig_ok_def
        SuggestConfig_merge_put pb_read rt del: One_nat_def)
  show "items_ok (SuggestConfig_write_items rt m)"
    using m by (auto simp: SuggestConfig_write_items_def SuggestConfig_ok_def pb_item rt pred_defs)
  show "SuggestConfig_compute_size rt m = word_of_nat (length (items_bytes rt (SuggestConfig_write_items rt m)))"
    using m by (simp add: SuggestConfig_write_items_def SuggestConfig_compute_size_def SuggestConfig_ok_def pb_size rt pb_unknown
        pred_defs)
qed (simp add: SuggestConfig_ok_def)

lemmas SuggestConfig_parse_written = SuggestConfig.parse_written [folded SuggestConfig_write_to_def SuggestConfig_parse_def]
lemmas SuggestConfig_size_written = SuggestConfig.size_written [folded SuggestConfig_write_to_def]

end
