(* ===== verification/Proto.thy ===== *)
theory Proto
  imports Crypt Mumble_Admin
begin

text \<open>
  The control protocol of \<open>src/src/proto/mod.rs\<close>: message kinds, framing, and the reading of an
  expected message during the handshake; the errors of \<open>src/src/error.rs\<close> and the messages between
  tasks of \<open>src/src/message/mod.rs\<close>. The input of a connection is the list of bytes the peer sends
  before it closes the stream.
\<close>

section \<open>Errors and kinds\<close>

datatype mumble_error =
    UnexpectedMessageKind u16
  | MumbleIo io_error
  | Parse
  | Decrypt decrypt_error
  | SendError
  | InvalidVoiceTarget
  | ChannelDoesntExist
  | PacketDiscarded
  | ClientInitFailed
  | WritterShutDown
  | UnknownError

datatype disconnect_reason =
    Disconnected
  | ClientTimedOutTcp
  | LostReceivingChannel
  | ClientMSPCFull
  | Anticheat

datatype message_kind =
    KVersion | KUDPTunnel | KAuthenticate | KPing | KReject | KServerSync | KChannelRemove
  | KChannelState | KUserRemove | KUserState | KBanList | KTextMessage | KPermissionDenied | KAcl
  | KQueryUsers | KCryptSetup | KContextActionModify | KContextAction | KUserList | KVoiceTarget
  | KPermissionQuery | KCodecVersion | KUserStats | KRequestBlob | KServerConfig | KSuggestConfig

datatype client_message =
    RouteVoicePacket "u32 voice_packet"
  | SendVoicePacket "u32 voice_packet"
  | SendMessage message_kind bytes

text \<open>The discriminants of the enum: \<open>kind as u16\<close>.\<close>

fun kind_u16 :: "message_kind \<Rightarrow> u16" where
  "kind_u16 KVersion = 0"
| "kind_u16 KUDPTunnel = 1"
| "kind_u16 KAuthenticate = 2"
| "kind_u16 KPing = 3"
| "kind_u16 KReject = 4"
| "kind_u16 KServerSync = 5"
| "kind_u16 KChannelRemove = 6"
| "kind_u16 KChannelState = 7"
| "kind_u16 KUserRemove = 8"
| "kind_u16 KUserState = 9"
| "kind_u16 KBanList = 10"
| "kind_u16 KTextMessage = 11"
| "kind_u16 KPermissionDenied = 12"
| "kind_u16 KAcl = 13"
| "kind_u16 KQueryUsers = 14"
| "kind_u16 KCryptSetup = 15"
| "kind_u16 KContextActionModify = 16"
| "kind_u16 KContextAction = 17"
| "kind_u16 KUserList = 18"
| "kind_u16 KVoiceTarget = 19"
| "kind_u16 KPermissionQuery = 20"
| "kind_u16 KCodecVersion = 21"
| "kind_u16 KUserStats = 22"
| "kind_u16 KRequestBlob = 23"
| "kind_u16 KServerConfig = 24"
| "kind_u16 KSuggestConfig = 25"

text \<open>\<open>MessageKind::try_from\<close>, and the names of \<open>Display\<close> that label the metrics.\<close>

definition try_from_u16 :: "u16 \<Rightarrow> mumble_error + message_kind" where
  "try_from_u16 value =
    (if value = 0 then Inr KVersion
     else if value = 1 then Inr KUDPTunnel
     else if value = 2 then Inr KAuthenticate
     else if value = 3 then Inr KPing
     else if value = 4 then Inr KReject
     else if value = 5 then Inr KServerSync
     else if value = 6 then Inr KChannelRemove
     else if value = 7 then Inr KChannelState
     else if value = 8 then Inr KUserRemove
     else if value = 9 then Inr KUserState
     else if value = 10 then Inr KBanList
     else if value = 11 then Inr KTextMessage
     else if value = 12 then Inr KPermissionDenied
     else if value = 13 then Inr KAcl
     else if value = 14 then Inr KQueryUsers
     else if value = 15 then Inr KCryptSetup
     else if value = 16 then Inr KContextActionModify
     else if value = 17 then Inr KContextAction
     else if value = 18 then Inr KUserList
     else if value = 19 then Inr KVoiceTarget
     else if value = 20 then Inr KPermissionQuery
     else if value = 21 then Inr KCodecVersion
     else if value = 22 then Inr KUserStats
     else if value = 23 then Inr KRequestBlob
     else if value = 24 then Inr KServerConfig
     else if value = 25 then Inr KSuggestConfig
     else Inl (UnexpectedMessageKind value))"

fun kind_name :: "message_kind \<Rightarrow> string" where
  "kind_name KVersion = ''Version''"
| "kind_name KUDPTunnel = ''UDPTunnel''"
| "kind_name KAuthenticate = ''Authenticate''"
| "kind_name KPing = ''Ping''"
| "kind_name KReject = ''Reject''"
| "kind_name KServerSync = ''ServerSync''"
| "kind_name KChannelRemove = ''ChannelRemove''"
| "kind_name KChannelState = ''ChannelState''"
| "kind_name KUserRemove = ''UserRemove''"
| "kind_name KUserState = ''UserState''"
| "kind_name KBanList = ''BanList''"
| "kind_name KTextMessage = ''TextMessage''"
| "kind_name KPermissionDenied = ''PermissionDenied''"
| "kind_name KAcl = ''ACL''"
| "kind_name KQueryUsers = ''QueryUsers''"
| "kind_name KCryptSetup = ''CryptSetup''"
| "kind_name KContextActionModify = ''ContextActionModify''"
| "kind_name KContextAction = ''ContextAction''"
| "kind_name KUserList = ''UserList''"
| "kind_name KVoiceTarget = ''VoiceTarget''"
| "kind_name KPermissionQuery = ''PermissionQuery''"
| "kind_name KCodecVersion = ''CodecVersion''"
| "kind_name KUserStats = ''UserStats''"
| "kind_name KRequestBlob = ''RequestBlob''"
| "kind_name KServerConfig = ''ServerConfig''"
| "kind_name KSuggestConfig = ''SuggestConfig''"

section \<open>Framing\<close>

definition get_mumble_buffer :: "message_kind \<Rightarrow> bytes \<Rightarrow> bytes" where
  "get_mumble_buffer kind bs = be_bytes 2 (kind_u16 kind) @ be_bytes 4 (word_of_nat (length bs) :: u32) @ bs"

text \<open>
  \<open>write_to_bytes\<close> checks the required fields before it writes. The message type comes in as its
  check and its writer.
\<close>

definition message_to_bytes ::
    "('m \<Rightarrow> bool) \<Rightarrow> ('m \<Rightarrow> bytes) \<Rightarrow> message_kind \<Rightarrow> 'm \<Rightarrow> mumble_error + bytes" where
  "message_to_bytes is_init write kind message =
     (if is_init message then Inr (get_mumble_buffer kind (write message)) else Inl Parse)"

text \<open>\<open>AsyncReadExt::read_exact\<close> and the integers read with it: an early end is \<open>UnexpectedEof\<close>.\<close>

definition read_exact :: "nat \<Rightarrow> bytes \<Rightarrow> mumble_error + bytes \<times> bytes" where
  "read_exact n stream =
     (if length stream < n then Inl (MumbleIo UnexpectedEof) else Inr (take n stream, drop n stream))"

definition read_u16 :: "bytes \<Rightarrow> mumble_error + u16 \<times> bytes" where
  "read_u16 stream = rbind (read_exact 2 stream) (\<lambda>(bs, stream). Inr (of_be bs, stream))"

definition read_u32 :: "bytes \<Rightarrow> mumble_error + u32 \<times> bytes" where
  "read_u32 stream = rbind (read_exact 4 stream) (\<lambda>(bs, stream). Inr (of_be bs, stream))"

definition get_message :: "(bytes \<Rightarrow> 'm option) \<Rightarrow> bytes \<Rightarrow> mumble_error + 'm \<times> bytes" where
  "get_message parse stream =
     rbind (read_u32 stream) (\<lambda>(size, stream).
     rbind (read_exact (unat size) stream) (\<lambda>(data, stream).
     case parse data of None \<Rightarrow> Inl Parse | Some message \<Rightarrow> Inr (message, stream)))"

text \<open>
  The loop of \<open>expected_message\<close>; the first argument counts the retries that are left, ten at the
  start.
\<close>

fun skip_tunnels :: "nat \<Rightarrow> message_kind \<Rightarrow> u16 \<Rightarrow> bytes \<Rightarrow> mumble_error + bytes" where
  "skip_tunnels 0 kind message_kind stream = Inr stream"
| "skip_tunnels (Suc retries) kind message_kind stream =
     (if message_kind \<noteq> kind_u16 kind then
        rbind (read_u32 stream) (\<lambda>(size, stream).
        rbind (read_exact (unat size) stream) (\<lambda>(data, stream).
        if message_kind = kind_u16 KUDPTunnel
        then rbind (read_u16 stream) (\<lambda>(message_kind, stream).
               skip_tunnels retries kind message_kind stream)
        else Inl (UnexpectedMessageKind message_kind)))
      else Inr stream)"

definition expected_message ::
    "(bytes \<Rightarrow> 'm option) \<Rightarrow> message_kind \<Rightarrow> bytes \<Rightarrow> mumble_error + 'm \<times> bytes" where
  "expected_message parse kind stream =
     rbind (read_u16 stream) (\<lambda>(message_kind, stream).
     rbind (skip_tunnels 10 kind message_kind stream) (get_message parse))"

section \<open>Reading frames\<close>

lemma of_be_16 [simp]: "of_be (be_bytes 2 w) = (w :: u16)"
  using of_be_be_bytes [of 2 w] by simp

lemma of_be_32 [simp]: "of_be (be_bytes 4 w) = (w :: u32)"
  using of_be_be_bytes [of 4 w] by simp

lemma be_bytes_2_append_inject [simp]:
  "be_bytes 2 (a :: u16) @ xs = be_bytes 2 b @ ys \<longleftrightarrow> a = b \<and> xs = ys"
proof -
  have "be_bytes 2 a = be_bytes 2 b \<longleftrightarrow> a = b" by (metis of_be_16)
  then show ?thesis by simp
qed

lemma read_u16_be [simp]: "read_u16 (be_bytes 2 w @ stream) = Inr (w, stream)"
  by (simp add: read_u16_def read_exact_def)

lemma read_u32_be [simp]: "read_u32 (be_bytes 4 w @ stream) = Inr (w, stream)"
  by (simp add: read_u32_def read_exact_def)

lemma unat_length [simp]: "length (bs :: bytes) < 2 ^ 32 \<Longrightarrow> unat (word_of_nat (length bs) :: u32) = length bs"
  by (simp add: unsigned_of_nat take_bit_nat_eq_self)

lemma kind_u16_inject [simp]: "kind_u16 a = kind_u16 b \<longleftrightarrow> a = b"
  by (cases a; cases b; simp)

lemma kind_u16_tunnel [simp]: "kind_u16 k = 1 \<longleftrightarrow> k = KUDPTunnel"
  by (cases k) simp_all

lemma get_message_frame:
  assumes "length bs < 2 ^ 32"
  shows "get_message parse (be_bytes 4 (word_of_nat (length bs) :: u32) @ bs @ stream) =
    (case parse bs of None \<Rightarrow> Inl Parse | Some message \<Rightarrow> Inr (message, stream))"
  using unat_length [OF assms] by (simp add: get_message_def read_exact_def)

text \<open>
  What \<open>expected_message\<close> makes of a stream of tunnelled voice packets, at most ten of them,
  followed by a frame of some kind \<open>k\<close>.
\<close>

lemma frames_start:
  "\<exists>(m :: u16) rest. concat (map (get_mumble_buffer KUDPTunnel) ts) @ be_bytes 2 (kind_u16 k) @ stream =
    be_bytes 2 m @ rest"
  by (cases ts) (simp_all add: get_mumble_buffer_def)

lemma skip_tunnels_frames:
  assumes "\<forall>t \<in> set ts. length t < 2 ^ 32" and "length ts \<le> r" and "kind \<noteq> KUDPTunnel"
    and "concat (map (get_mumble_buffer KUDPTunnel) ts) @ be_bytes 2 (kind_u16 k) @ stream =
      be_bytes 2 n @ rest"
  shows "skip_tunnels r kind n rest = skip_tunnels (r - length ts) kind (kind_u16 k) stream"
  using assms
proof (induction ts arbitrary: r n rest)
  case Nil
  then show ?case by simp
next
  case (Cons t ts)
  let ?tail = "concat (map (get_mumble_buffer KUDPTunnel) ts) @ be_bytes 2 (kind_u16 k) @ stream"
  from Cons.prems(4) have eq: "be_bytes 2 (kind_u16 KUDPTunnel) @
      (be_bytes 4 (word_of_nat (length t) :: u32) @ t @ ?tail) = be_bytes 2 n @ rest"
    by (simp add: get_mumble_buffer_def [of KUDPTunnel t])
  then have n: "n = kind_u16 KUDPTunnel" and rest: "rest = be_bytes 4 (word_of_nat (length t) :: u32) @ t @ ?tail"
    unfolding be_bytes_2_append_inject by blast+
  obtain m :: u16 and rest' where tail: "?tail = be_bytes 2 m @ rest'" using frames_start by blast
  from Cons.prems(2) obtain r' where r: "r = Suc r'" by (cases r) auto
  have "length t < 2 ^ 32" using Cons.prems(1) by simp
  then have "skip_tunnels r kind n rest = skip_tunnels r' kind m rest'"
    using Cons.prems(3) unfolding r n rest by (simp add: read_exact_def tail)
  also have "\<dots> = skip_tunnels (r' - length ts) kind (kind_u16 k) stream"
    using Cons.IH [of r' m rest'] Cons.prems r tail by simp
  finally show ?case by (simp add: r)
qed

lemma expected_message_frames:
  assumes "\<forall>t \<in> set ts. length t < 2 ^ 32" and "length bs < 2 ^ 32" and "length ts \<le> 10"
    and "kind \<noteq> KUDPTunnel" and "k \<noteq> KUDPTunnel"
  shows "expected_message parse kind
      (concat (map (get_mumble_buffer KUDPTunnel) ts) @ get_mumble_buffer k bs @ stream) =
    (if k = kind \<or> length ts = 10
     then (case parse bs of None \<Rightarrow> Inl Parse | Some message \<Rightarrow> Inr (message, stream))
     else Inl (UnexpectedMessageKind (kind_u16 k)))"
proof -
  let ?frame = "be_bytes 4 (word_of_nat (length bs) :: u32) @ bs @ stream"
  obtain m :: u16 and rest where split: "concat (map (get_mumble_buffer KUDPTunnel) ts) @
      be_bytes 2 (kind_u16 k) @ ?frame = be_bytes 2 m @ rest"
    using frames_start by blast
  have skip: "skip_tunnels 10 kind m rest = skip_tunnels (10 - length ts) kind (kind_u16 k) ?frame"
    by (rule skip_tunnels_frames [OF assms(1,3,4) split])
  have "skip_tunnels (10 - length ts) kind (kind_u16 k) ?frame =
      (if k = kind \<or> length ts = 10 then Inr ?frame else Inl (UnexpectedMessageKind (kind_u16 k)))"
    using assms by (cases "10 - length ts") (auto simp: read_exact_def)
  moreover have "expected_message parse kind (be_bytes 2 m @ rest) =
      rbind (skip_tunnels 10 kind m rest) (get_message parse)"
    by (simp add: expected_message_def)
  moreover have "concat (map (get_mumble_buffer KUDPTunnel) ts) @ get_mumble_buffer k bs @ stream =
      be_bytes 2 m @ rest"
    using split by (simp add: get_mumble_buffer_def)
  ultimately show ?thesis
    using skip get_message_frame [OF assms(2), of parse stream] by simp
qed

section \<open>Properties\<close>

text \<open>
  The kind numbers of the protocol and the kinds of the program correspond one to one: a
  number is accepted exactly when it is the number of a kind, and then as that kind.
\<close>

lemma message_kind_codec:
  "try_from_u16 (kind_u16 k) = Inr k \<and>
   (try_from_u16 n = Inr k \<longleftrightarrow> kind_u16 k = n) \<and>
   (25 < n \<longleftrightarrow> try_from_u16 n = Inl (UnexpectedMessageKind n))"
proof -
  have 1: "try_from_u16 (kind_u16 k) = Inr k" for k
    by (cases k) (simp_all add: try_from_u16_def)
  have 2: "kind_u16 k' = n" if "try_from_u16 n = Inr k'" for k'
    using that unfolding try_from_u16_def by (simp split: if_split_asm)
  have small: "kind_u16 k' \<le> 25" for k' by (cases k') simp_all
  have 3: "try_from_u16 n = Inl (UnexpectedMessageKind n)" if "25 < n"
    using that unfolding try_from_u16_def by (auto simp: not_le)
  have 4: "25 < n" if "try_from_u16 n = Inl (UnexpectedMessageKind n)"
  proof (rule ccontr)
    assume "\<not> 25 < n"
    then have "unat n < 26" by (simp add: word_less_nat_alt)
    moreover have "n = word_of_nat (unat n)" by simp
    ultimately have "n \<in> set (map word_of_nat [0..<26])" by (metis atLeastLessThan_iff image_eqI
          list.set_map set_upt zero_le)
    then have "n \<in> set (map kind_u16 [KVersion, KUDPTunnel, KAuthenticate, KPing, KReject, KServerSync,
        KChannelRemove, KChannelState, KUserRemove, KUserState, KBanList, KTextMessage,
        KPermissionDenied, KAcl, KQueryUsers, KCryptSetup, KContextActionModify, KContextAction,
        KUserList, KVoiceTarget, KPermissionQuery, KCodecVersion, KUserStats, KRequestBlob,
        KServerConfig, KSuggestConfig])"
      by (simp add: upt_rec)
    then obtain k' where "n = kind_u16 k'" unfolding set_map by blast
    with that 1 [of k'] show False by simp
  qed
  from 1 2 3 4 show ?thesis by blast
qed

text \<open>
  A message comes through a stream: it is framed by \<open>message_to_bytes\<close>, the number of its kind is read from
  the front of the stream, the message itself by \<open>get_message\<close>, both together by \<open>expected_message\<close>, and
  what follows it in the stream is left.
\<close>

definition reads_back ::
    "('m \<Rightarrow> bool) \<Rightarrow> ('m \<Rightarrow> bytes) \<Rightarrow> (bytes \<Rightarrow> 'm option) \<Rightarrow> message_kind \<Rightarrow> 'm \<Rightarrow> bytes \<Rightarrow> bool" where
  "reads_back is_init write parse kind m rest \<longleftrightarrow>
     (case message_to_bytes is_init write kind m of
        Inl _ \<Rightarrow> False
      | Inr frame \<Rightarrow>
          expected_message parse kind (frame @ rest) = Inr (m, rest) \<and>
          (case read_u16 (frame @ rest) of
             Inl _ \<Rightarrow> False
           | Inr (n, stream) \<Rightarrow> try_from_u16 n = Inr kind \<and> get_message parse stream = Inr (m, rest)))"

lemma reads_backI:
  assumes "parse (write m) = Some m" and "is_init m" and "length (write m) < 2 ^ 32"
  shows "reads_back is_init write parse kind m rest"
proof -
  have skip: "skip_tunnels 10 kind (kind_u16 kind) stream = Inr stream" for stream
    by (simp add: eval_nat_numeral)
  show ?thesis
    using assms message_kind_codec [of kind]
    by (simp add: reads_back_def message_to_bytes_def get_mumble_buffer_def get_message_frame expected_message_def skip)
qed

text \<open>
  C21: Messages survive the wire. A message of any of the twenty-six kinds, without unknown fields, with its
  required fields set and of fewer than \<open>2\<^sup>3\<^sup>2\<close> bytes, is framed by the server and read back from the stream as
  the same kind and the same message, and the rest of the stream is left.
\<close>

theorem message_round_trip:
  assumes "pb_ok rt"
  shows "(\<forall>m rest. Version_ok rt m \<and> Version_is_initialized m \<and> length (Version_write_to rt m) < 2 ^ 32 \<longrightarrow>
      reads_back Version_is_initialized (Version_write_to rt) (Version_parse rt) KVersion m rest) \<and>
    (\<forall>m rest. UDPTunnel_ok rt m \<and> UDPTunnel_is_initialized m \<and> length (UDPTunnel_write_to rt m) < 2 ^ 32 \<longrightarrow>
      reads_back UDPTunnel_is_initialized (UDPTunnel_write_to rt) (UDPTunnel_parse rt) KUDPTunnel m rest) \<and>
    (\<forall>m rest. Authenticate_ok rt m \<and> Authenticate_is_initialized m \<and> length (Authenticate_write_to rt m) < 2 ^ 32 \<longrightarrow>
      reads_back Authenticate_is_initialized (Authenticate_write_to rt) (Authenticate_parse rt) KAuthenticate m rest) \<and>
    (\<forall>m rest. Ping_ok rt m \<and> Ping_is_initialized m \<and> length (Ping_write_to rt m) < 2 ^ 32 \<longrightarrow>
      reads_back Ping_is_initialized (Ping_write_to rt) (Ping_parse rt) KPing m rest) \<and>
    (\<forall>m rest. Reject_ok rt m \<and> Reject_is_initialized m \<and> length (Reject_write_to rt m) < 2 ^ 32 \<longrightarrow>
      reads_back Reject_is_initialized (Reject_write_to rt) (Reject_parse rt) KReject m rest) \<and>
    (\<forall>m rest. ServerSync_ok rt m \<and> ServerSync_is_initialized m \<and> length (ServerSync_write_to rt m) < 2 ^ 32 \<longrightarrow>
      reads_back ServerSync_is_initialized (ServerSync_write_to rt) (ServerSync_parse rt) KServerSync m rest) \<and>
    (\<forall>m rest. ChannelRemove_ok rt m \<and> ChannelRemove_is_initialized m \<and> length (ChannelRemove_write_to rt m) < 2 ^ 32 \<longrightarrow>
      reads_back ChannelRemove_is_initialized (ChannelRemove_write_to rt) (ChannelRemove_parse rt) KChannelRemove m rest) \<and>
    (\<forall>m rest. ChannelState_ok rt m \<and> ChannelState_is_initialized m \<and> length (ChannelState_write_to rt m) < 2 ^ 32 \<longrightarrow>
      reads_back ChannelState_is_initialized (ChannelState_write_to rt) (ChannelState_parse rt) KChannelState m rest) \<and>
    (\<forall>m rest. UserRemove_ok rt m \<and> UserRemove_is_initialized m \<and> length (UserRemove_write_to rt m) < 2 ^ 32 \<longrightarrow>
      reads_back UserRemove_is_initialized (UserRemove_write_to rt) (UserRemove_parse rt) KUserRemove m rest) \<and>
    (\<forall>m rest. UserState_ok rt m \<and> UserState_is_initialized m \<and> length (UserState_write_to rt m) < 2 ^ 32 \<longrightarrow>
      reads_back UserState_is_initialized (UserState_write_to rt) (UserState_parse rt) KUserState m rest) \<and>
    (\<forall>m rest. BanList_ok rt m \<and> BanList_is_initialized m \<and> length (BanList_write_to rt m) < 2 ^ 32 \<longrightarrow>
      reads_back BanList_is_initialized (BanList_write_to rt) (BanList_parse rt) KBanList m rest) \<and>
    (\<forall>m rest. TextMessage_ok rt m \<and> TextMessage_is_initialized m \<and> length (TextMessage_write_to rt m) < 2 ^ 32 \<longrightarrow>
      reads_back TextMessage_is_initialized (TextMessage_write_to rt) (TextMessage_parse rt) KTextMessage m rest) \<and>
    (\<forall>m rest. PermissionDenied_ok rt m \<and> PermissionDenied_is_initialized m \<and> length (PermissionDenied_write_to rt m) < 2 ^ 32 \<longrightarrow>
      reads_back PermissionDenied_is_initialized (PermissionDenied_write_to rt) (PermissionDenied_parse rt) KPermissionDenied m rest) \<and>
    (\<forall>m rest. ACL_ok rt m \<and> ACL_is_initialized m \<and> length (ACL_write_to rt m) < 2 ^ 32 \<longrightarrow>
      reads_back ACL_is_initialized (ACL_write_to rt) (ACL_parse rt) KAcl m rest) \<and>
    (\<forall>m rest. QueryUsers_ok rt m \<and> QueryUsers_is_initialized m \<and> length (QueryUsers_write_to rt m) < 2 ^ 32 \<longrightarrow>
      reads_back QueryUsers_is_initialized (QueryUsers_write_to rt) (QueryUsers_parse rt) KQueryUsers m rest) \<and>
    (\<forall>m rest. CryptSetup_ok rt m \<and> CryptSetup_is_initialized m \<and> length (CryptSetup_write_to rt m) < 2 ^ 32 \<longrightarrow>
      reads_back CryptSetup_is_initialized (CryptSetup_write_to rt) (CryptSetup_parse rt) KCryptSetup m rest) \<and>
    (\<forall>m rest. ContextActionModify_ok rt m \<and> ContextActionModify_is_initialized m \<and> length (ContextActionModify_write_to rt m) < 2 ^ 32 \<longrightarrow>
      reads_back ContextActionModify_is_initialized (ContextActionModify_write_to rt) (ContextActionModify_parse rt) KContextActionModify m rest) \<and>
    (\<forall>m rest. ContextAction_ok rt m \<and> ContextAction_is_initialized m \<and> length (ContextAction_write_to rt m) < 2 ^ 32 \<longrightarrow>
      reads_back ContextAction_is_initialized (ContextAction_write_to rt) (ContextAction_parse rt) KContextAction m rest) \<and>
    (\<forall>m rest. UserList_ok rt m \<and> UserList_is_initialized m \<and> length (UserList_write_to rt m) < 2 ^ 32 \<longrightarrow>
      reads_back UserList_is_initialized (UserList_write_to rt) (UserList_parse rt) KUserList m rest) \<and>
    (\<forall>m rest. VoiceTarget_ok rt m \<and> VoiceTarget_is_initialized m \<and> length (VoiceTarget_write_to rt m) < 2 ^ 32 \<longrightarrow>
      reads_back VoiceTarget_is_initialized (VoiceTarget_write_to rt) (VoiceTarget_parse rt) KVoiceTarget m rest) \<and>
    (\<forall>m rest. PermissionQuery_ok rt m \<and> PermissionQuery_is_initialized m \<and> length (PermissionQuery_write_to rt m) < 2 ^ 32 \<longrightarrow>
      reads_back PermissionQuery_is_initialized (PermissionQuery_write_to rt) (PermissionQuery_parse rt) KPermissionQuery m rest) \<and>
    (\<forall>m rest. CodecVersion_ok rt m \<and> CodecVersion_is_initialized m \<and> length (CodecVersion_write_to rt m) < 2 ^ 32 \<longrightarrow>
      reads_back CodecVersion_is_initialized (CodecVersion_write_to rt) (CodecVersion_parse rt) KCodecVersion m rest) \<and>
    (\<forall>m rest. UserStats_ok rt m \<and> UserStats_is_initialized m \<and> length (UserStats_write_to rt m) < 2 ^ 32 \<longrightarrow>
      reads_back UserStats_is_initialized (UserStats_write_to rt) (UserStats_parse rt) KUserStats m rest) \<and>
    (\<forall>m rest. RequestBlob_ok rt m \<and> RequestBlob_is_initialized m \<and> length (RequestBlob_write_to rt m) < 2 ^ 32 \<longrightarrow>
      reads_back RequestBlob_is_initialized (RequestBlob_write_to rt) (RequestBlob_parse rt) KRequestBlob m rest) \<and>
    (\<forall>m rest. ServerConfig_ok rt m \<and> ServerConfig_is_initialized m \<and> length (ServerConfig_write_to rt m) < 2 ^ 32 \<longrightarrow>
      reads_back ServerConfig_is_initialized (ServerConfig_write_to rt) (ServerConfig_parse rt) KServerConfig m rest) \<and>
    (\<forall>m rest. SuggestConfig_ok rt m \<and> SuggestConfig_is_initialized m \<and> length (SuggestConfig_write_to rt m) < 2 ^ 32 \<longrightarrow>
      reads_back SuggestConfig_is_initialized (SuggestConfig_write_to rt) (SuggestConfig_parse rt) KSuggestConfig m rest)"
  using assms
  by (intro conjI allI impI; elim conjE)
    (rule reads_backI, simp_all only: Version_parse_written
      UDPTunnel_parse_written
      Authenticate_parse_written
      Ping_parse_written
      Reject_parse_written
      ServerSync_parse_written
      ChannelRemove_parse_written
      ChannelState_parse_written
      UserRemove_parse_written
      UserState_parse_written
      BanList_parse_written
      TextMessage_parse_written
      PermissionDenied_parse_written
      ACL_parse_written
      QueryUsers_parse_written
      CryptSetup_parse_written
      ContextActionModify_parse_written
      ContextAction_parse_written
      UserList_parse_written
      VoiceTarget_parse_written
      PermissionQuery_parse_written
      CodecVersion_parse_written
      UserStats_parse_written
      RequestBlob_parse_written
      ServerConfig_parse_written
      SuggestConfig_parse_written)+

theorem message_round_trip_witness:
  "reads_back PermissionQuery_is_initialized (PermissionQuery_write_to std_runtime) (PermissionQuery_parse std_runtime)
     KPermissionQuery (PermissionQuery_new\<lparr>PermissionQuery_channel_id := Some 7\<rparr>) [1, 2]"
proof -
  let ?m = "PermissionQuery_new\<lparr>PermissionQuery_channel_id := Some 7\<rparr>"
  have "length (PermissionQuery_write_to std_runtime ?m) < 2 ^ 32"
    by (simp add: PermissionQuery_write_to_def write_to_def PermissionQuery_write_items_def PermissionQuery_new_def
        put_opt_def put_list_def items_bytes_def item_bytes_def std_runtime_def w_uint32_def length_leb)
  moreover have "PermissionQuery_ok std_runtime ?m" "PermissionQuery_is_initialized ?m"
    by (simp_all add: PermissionQuery_ok_def PermissionQuery_is_initialized_def PermissionQuery_new_def)
  ultimately show ?thesis using message_round_trip [OF std_runtime_ok] by simp
qed

text \<open>
  The sizes that \<open>compute_size\<close> caches, and that a nested message is framed with, are the
  number of bytes \<open>write_to\<close> produces.
\<close>

lemma compute_size_exact:
  assumes "pb_ok rt"
  shows "(\<forall>m. Version_ok rt m \<longrightarrow> Version_compute_size rt m = word_of_nat (length (Version_write_to rt m))) \<and>
    (\<forall>m. UDPTunnel_ok rt m \<longrightarrow> UDPTunnel_compute_size rt m = word_of_nat (length (UDPTunnel_write_to rt m))) \<and>
    (\<forall>m. Authenticate_ok rt m \<longrightarrow> Authenticate_compute_size rt m = word_of_nat (length (Authenticate_write_to rt m))) \<and>
    (\<forall>m. Ping_ok rt m \<longrightarrow> Ping_compute_size rt m = word_of_nat (length (Ping_write_to rt m))) \<and>
    (\<forall>m. CryptSetup_ok rt m \<longrightarrow> CryptSetup_compute_size rt m = word_of_nat (length (CryptSetup_write_to rt m))) \<and>
    (\<forall>m. CodecVersion_ok rt m \<longrightarrow> CodecVersion_compute_size rt m = word_of_nat (length (CodecVersion_write_to rt m))) \<and>
    (\<forall>m. ServerSync_ok rt m \<longrightarrow> ServerSync_compute_size rt m = word_of_nat (length (ServerSync_write_to rt m))) \<and>
    (\<forall>m. ServerConfig_ok rt m \<longrightarrow> ServerConfig_compute_size rt m = word_of_nat (length (ServerConfig_write_to rt m))) \<and>
    (\<forall>m. ChannelRemove_ok rt m \<longrightarrow> ChannelRemove_compute_size rt m = word_of_nat (length (ChannelRemove_write_to rt m))) \<and>
    (\<forall>m. ChannelState_ok rt m \<longrightarrow> ChannelState_compute_size rt m = word_of_nat (length (ChannelState_write_to rt m))) \<and>
    (\<forall>m. UserRemove_ok rt m \<longrightarrow> UserRemove_compute_size rt m = word_of_nat (length (UserRemove_write_to rt m))) \<and>
    (\<forall>m. UserState_ok rt m \<longrightarrow> UserState_compute_size rt m = word_of_nat (length (UserState_write_to rt m))) \<and>
    (\<forall>m. VoiceTarget_ok rt m \<longrightarrow> VoiceTarget_compute_size rt m = word_of_nat (length (VoiceTarget_write_to rt m))) \<and>
    (\<forall>m. PermissionQuery_ok rt m \<longrightarrow> PermissionQuery_compute_size rt m = word_of_nat (length (PermissionQuery_write_to rt m))) \<and>
    (\<forall>m. UserStats_ok rt m \<longrightarrow> UserStats_compute_size rt m = word_of_nat (length (UserStats_write_to rt m)))"
  using assms
  by (simp add: Version_size_written
      UDPTunnel_size_written
      Authenticate_size_written
      Ping_size_written
      CryptSetup_size_written
      CodecVersion_size_written
      ServerSync_size_written
      ServerConfig_size_written
      ChannelRemove_size_written
      ChannelState_size_written
      UserRemove_size_written
      UserState_size_written
      VoiceTarget_size_written
      PermissionQuery_size_written
      UserStats_size_written)

text \<open>
  The handshake reads what the client wrote. An \<open>Authenticate\<close> message that reaches the server
  behind at most ten tunnelled voice packets is returned as it was sent, and the stream is left
  at the byte that follows it.
\<close>

lemma handshake_message_read:
  assumes "pb_ok rt" and "Authenticate_ok rt m" and "length (Authenticate_write_to rt m) < 2 ^ 32"
    and "\<forall>t \<in> set ts. length t < 2 ^ 32" and "length ts \<le> 10"
  shows "\<exists>frame. message_to_bytes Authenticate_is_initialized (Authenticate_write_to rt) KAuthenticate m =
      Inr frame \<and>
    expected_message (Authenticate_parse rt) KAuthenticate
      (concat (map (get_mumble_buffer KUDPTunnel) ts) @ frame @ stream) = Inr (m, stream)"
  using expected_message_frames [OF assms(4,3,5), of KAuthenticate KAuthenticate
      "Authenticate_parse rt" stream] Authenticate_parse_written [OF assms(1,2)]
  by (simp add: message_to_bytes_def Authenticate_is_initialized_def)

text \<open>
  C23: The retry bound of \<open>expected_message\<close> does not end the handshake. Behind exactly ten
  tunnelled voice packets a frame of any other kind is taken for the expected message and handed
  to its parser, where behind fewer it is refused.
\<close>

theorem eleventh_message_kind_unchecked:
  assumes "\<forall>t \<in> set ts. length t < 2 ^ 32" and "length bs < 2 ^ 32" and "length ts \<le> 10"
    and "kind \<noteq> KUDPTunnel" and "k \<noteq> KUDPTunnel" and "k \<noteq> kind"
  shows "expected_message parse kind
      (concat (map (get_mumble_buffer KUDPTunnel) ts) @ get_mumble_buffer k bs @ stream) =
    (if length ts = 10
     then (case parse bs of None \<Rightarrow> Inl Parse | Some message \<Rightarrow> Inr (message, stream))
     else Inl (UnexpectedMessageKind (kind_u16 k)))"
  using expected_message_frames [OF assms(1-5), of parse stream] assms(6) by simp

theorem eleventh_message_kind_unchecked_witness:
  "expected_message (Version_parse std_runtime) KVersion
     (concat (map (get_mumble_buffer KUDPTunnel) (replicate 10 [])) @ get_mumble_buffer KPing [] @ []) =
   Inr (Version_new, [])"
proof -
  have "Version_parse std_runtime [] = Some Version_new"
    by (simp add: Version_parse_def parse_from_bytes_def merge_from_def std_runtime_def
        Version_is_initialized_def)
  with eleventh_message_kind_unchecked [of "replicate 10 []" "[]" KVersion KPing
      "Version_parse std_runtime" "[]"]
  show ?thesis by simp
qed

end
