(* ===== verification/Text.thy ===== *)
theory Text
  imports "HOL-Library.Sublist" Prelude
begin

text \<open>
  What the program uses of Rust's strings: searching, trimming, case-insensitive comparison and the
  formatting of numbers and network addresses. A string is the list of its UTF-8 bytes.
\<close>

section \<open>Searching and trimming\<close>

text \<open>\<open>str::find\<close> with a string pattern: what stands behind the first occurrence.\<close>

fun after_pattern :: "string \<Rightarrow> string \<Rightarrow> string option" where
  "after_pattern pat [] = (if pat = [] then Some [] else None)"
| "after_pattern pat (c # s) =
     (if prefix pat (c # s) then Some (drop (length pat) (c # s)) else after_pattern pat s)"

text \<open>The UTF-8 encodings of the characters with the property \<open>White_Space\<close>.\<close>

definition whitespace :: "string list" where
  "whitespace =
    [[CHR 0x09], [CHR 0x0A], [CHR 0x0B], [CHR 0x0C], [CHR 0x0D], [CHR 0x20], [CHR 0xC2, CHR 0x85],
     [CHR 0xC2, CHR 0xA0], [CHR 0xE1, CHR 0x9A, CHR 0x80], [CHR 0xE2, CHR 0x80, CHR 0x80],
     [CHR 0xE2, CHR 0x80, CHR 0x81], [CHR 0xE2, CHR 0x80, CHR 0x82],
     [CHR 0xE2, CHR 0x80, CHR 0x83], [CHR 0xE2, CHR 0x80, CHR 0x84],
     [CHR 0xE2, CHR 0x80, CHR 0x85], [CHR 0xE2, CHR 0x80, CHR 0x86],
     [CHR 0xE2, CHR 0x80, CHR 0x87], [CHR 0xE2, CHR 0x80, CHR 0x88],
     [CHR 0xE2, CHR 0x80, CHR 0x89], [CHR 0xE2, CHR 0x80, CHR 0x8A],
     [CHR 0xE2, CHR 0x80, CHR 0xA8], [CHR 0xE2, CHR 0x80, CHR 0xA9],
     [CHR 0xE2, CHR 0x80, CHR 0xAF], [CHR 0xE2, CHR 0x81, CHR 0x9F],
     [CHR 0xE3, CHR 0x80, CHR 0x80]]"

function strip :: "string list \<Rightarrow> string \<Rightarrow> string" where
  "strip ws s = (case List.find (\<lambda>w. w \<noteq> [] \<and> prefix w s) ws of
     None \<Rightarrow> s
   | Some w \<Rightarrow> strip ws (drop (length w) s))"
  by pat_completeness auto
termination
  by (relation "measure (\<lambda>(_, s). length s)")
    (auto simp: find_Some_iff prefix_def)

declare strip.simps [simp del]

definition trim :: "string \<Rightarrow> string" where
  "trim s = rev (strip (map rev whitespace) (rev (strip whitespace s)))"

definition to_ascii_lowercase :: "char \<Rightarrow> char" where
  "to_ascii_lowercase c =
     (let n = of_char c :: int in if 65 \<le> n \<and> n \<le> 90 then char_of (n + 32) else c)"

definition eq_ignore_ascii_case :: "string \<Rightarrow> string \<Rightarrow> bool" where
  "eq_ignore_ascii_case a b = (map to_ascii_lowercase a = map to_ascii_lowercase b)"

section \<open>Formatting\<close>

function digits :: "int \<Rightarrow> int \<Rightarrow> string" where
  "digits base n =
     (let d = n mod base; c = char_of (if d < 10 then d + 48 else d + 87)
      in if base < 2 \<or> n < base then [c] else digits base (n div base) @ [c])"
  by pat_completeness auto
termination
proof (relation "measure (\<lambda>(_, n). nat n)")
  fix base n :: int and d c
  assume "\<not> (base < 2 \<or> n < base)"
  then have "0 < n" "1 < base" by simp_all
  then have "n div base < n" by (rule int_div_less_self)
  with \<open>0 < n\<close> show "((base, n div base), base, n) \<in> measure (\<lambda>(_, n). nat n)" by simp
qed simp

declare digits.simps [simp del]

definition dec :: "nat \<Rightarrow> string" where
  "dec n = digits 10 (int n)"

definition hex :: "nat \<Rightarrow> string" where
  "hex n = digits 16 (int n)"

text \<open>\<open>{:02}\<close> and \<open>{:04}\<close>.\<close>

definition pad :: "nat \<Rightarrow> nat \<Rightarrow> string" where
  "pad w n = replicate (w - length (dec n)) CHR ''0'' @ dec n"

fun join :: "string \<Rightarrow> string list \<Rightarrow> string" where
  "join sep [] = []"
| "join sep [x] = x"
| "join sep (x # y # xs) = x @ sep @ join sep (y # xs)"

section \<open>Network addresses\<close>

datatype ip_addr = V4 u8 u8 u8 u8 | V6 "u16 list"

type_synonym socket_addr = "ip_addr \<times> u16"

text \<open>\<open>Display for Ipv6Addr\<close> shortens the first longest run of at least two zero segments.\<close>

fun zero_run :: "u16 list \<Rightarrow> nat" where
  "zero_run [] = 0"
| "zero_run (s # ss) = (if s = 0 then Suc (zero_run ss) else 0)"

fun longest_run :: "nat \<Rightarrow> u16 list \<Rightarrow> nat \<times> nat" where
  "longest_run i [] = (i, 0)"
| "longest_run i (s # ss) =
     (let here = zero_run (s # ss); (j, n) = longest_run (Suc i) ss
      in if here \<ge> n then (i, here) else (j, n))"

definition segments_string :: "u16 list \<Rightarrow> string" where
  "segments_string ss = join '':'' (map (\<lambda>s. hex (unat s)) ss)"

definition v4_string :: "nat \<Rightarrow> nat \<Rightarrow> nat \<Rightarrow> nat \<Rightarrow> string" where
  "v4_string a b c d = join ''.'' [dec a, dec b, dec c, dec d]"

fun ip_string :: "ip_addr \<Rightarrow> string" where
  "ip_string (V4 a b c d) = v4_string (unat a) (unat b) (unat c) (unat d)"
| "ip_string (V6 ss) =
     (if length ss = 8 \<and> take 6 ss = [0, 0, 0, 0, 0, 0xFFFF] then
        ''::ffff:'' @ v4_string (unat (ss ! 6) div 256) (unat (ss ! 6) mod 256)
          (unat (ss ! 7) div 256) (unat (ss ! 7) mod 256)
      else
        let (i, n) = longest_run 0 ss in
        if n > 1 then segments_string (take i ss) @ ''::'' @ segments_string (drop (i + n) ss)
        else segments_string ss)"

section \<open>Lemmas\<close>

lemma strip_suffix: "\<exists>p. s = p @ strip ws s"
proof (induction ws s rule: strip.induct)
  case (1 ws s)
  show ?case
  proof (cases "List.find (\<lambda>w. w \<noteq> [] \<and> prefix w s) ws")
    case None
    then show ?thesis by (subst strip.simps) simp
  next
    case (Some w)
    with 1 obtain p where p: "drop (length w) s = p @ strip ws (drop (length w) s)" by blast
    have "s = take (length w) s @ drop (length w) s" by simp
    with p Some show ?thesis
      by (subst strip.simps) (metis append_assoc option.simps(5))
  qed
qed

lemma strip_fixed:
  "(\<forall>w \<in> set ws. w = [] \<or> \<not> prefix w s) \<Longrightarrow> strip ws s = s"
  by (subst strip.simps) (auto split: option.split simp: find_Some_iff)

lemma strip_stripped: "w \<in> set ws \<Longrightarrow> w \<noteq> [] \<Longrightarrow> \<not> prefix w (strip ws s)"
proof (induction ws s rule: strip.induct)
  case (1 ws s)
  then show ?case
    by (subst strip.simps) (auto split: option.split simp: find_None_iff)
qed

lemma strip_strip: "strip ws (strip ws s) = strip ws s"
  using strip_stripped by (intro strip_fixed) blast

lemma strip_prefix_fixed:
  assumes "strip ws s = s" and "s = a @ b" 
  shows "strip ws a = a"
proof (rule strip_fixed, rule ballI)
  fix w assume "w \<in> set ws"
  then show "w = [] \<or> \<not> prefix w a"
    using strip_stripped [of w ws s] assms by (metis prefix_append)
qed

text \<open>Trimming twice is trimming once.\<close>

lemma trim_trim: "trim (trim s) = trim s"
proof -
  let ?t = "strip whitespace s"
  let ?r = "strip (map rev whitespace) (rev ?t)"
  obtain p where "rev ?t = p @ ?r" using strip_suffix by blast
  then have "?t = rev ?r @ rev p" by (metis rev_append rev_rev_ident)
  with strip_prefix_fixed [OF strip_strip [of whitespace s]]
  have "strip whitespace (rev ?r) = rev ?r" by metis
  then show ?thesis by (simp add: trim_def strip_strip)
qed

lemma eq_ignore_ascii_case_refl [simp]: "eq_ignore_ascii_case s s"
  by (simp add: eq_ignore_ascii_case_def)

lemma after_pattern_split:
  "\<not> sublist pat (s @ butlast pat) \<Longrightarrow> pat \<noteq> [] \<Longrightarrow> after_pattern pat (s @ pat @ t) = Some t"
proof (induction s)
  case Nil
  then show ?case by (cases pat) simp_all
next
  case (Cons c s)
  have "\<not> sublist pat (s @ butlast pat)"
    using Cons.prems(1) by (metis append_Cons sublist_Cons_right)
  with Cons have IH: "after_pattern pat (s @ pat @ t) = Some t" by simp
  have "\<not> prefix pat ((c # s) @ pat @ t)"
  proof
    assume "prefix pat ((c # s) @ pat @ t)"
    then have "pat = take (length pat) ((c # s) @ pat @ t)"
      by (metis append_eq_conv_conj prefix_def)
    moreover have "take (length pat) ((c # s) @ pat @ t) = take (length pat) ((c # s) @ butlast pat)"
      using Cons.prems(2) by (auto simp: butlast_conv_take take_Cons' min_def)
    ultimately have "prefix pat ((c # s) @ butlast pat)" by (metis take_is_prefix)
    with Cons.prems(1) show False by (simp add: prefix_imp_sublist)
  qed
  then show ?case using IH by simp
qed

end
