(* ===== verification/F32.thy ===== *)
theory F32
  imports Wire
begin

text \<open>
  The \<open>f32\<close> arithmetic that the position tracking of \<open>src/src/anticheat.rs\<close> uses: IEEE 754 single
  precision on the bit patterns, every operation computed exactly and rounded once to nearest,
  ties to even. A finite value is an integer multiple of \<open>2\<^sup>-\<^sup>1\<^sup>4\<^sup>9\<close>, its \<open>units\<close>; an infinity has more
  units than any finite value, which makes the comparisons uniform.
\<close>

section \<open>Values\<close>

definition f32_sign :: "f32 \<Rightarrow> bool" where
  "f32_sign x = bit x 31"

definition f32_exp :: "f32 \<Rightarrow> nat" where
  "f32_exp x = nat (uint (drop_bit 23 x) mod 256)"

definition f32_frac :: "f32 \<Rightarrow> int" where
  "f32_frac x = uint x mod 2 ^ 23"

definition f32_nan :: "f32 \<Rightarrow> bool" where
  "f32_nan x = (f32_exp x = 255 \<and> f32_frac x \<noteq> 0)"

definition f32_finite :: "f32 \<Rightarrow> bool" where
  "f32_finite x = (f32_exp x \<noteq> 255)"

definition f32_inf :: "f32 \<Rightarrow> bool" where
  "f32_inf x = (f32_exp x = 255 \<and> f32_frac x = 0)"

definition f32_mag :: "f32 \<Rightarrow> int" where
  "f32_mag x = (if f32_exp x = 0 then f32_frac x else (f32_frac x + 2 ^ 23) * 2 ^ (f32_exp x - 1))"

definition units :: "f32 \<Rightarrow> int" where
  "units x = (if f32_sign x then - f32_mag x else f32_mag x)"

definition f32_pack :: "bool \<Rightarrow> int \<Rightarrow> f32" where
  "f32_pack s b = word_of_int ((if s then 2 ^ 31 else 0) + b)"

definition nan :: f32 where "nan = 0x7FC00000"

definition inf :: "bool \<Rightarrow> f32" where "inf s = f32_pack s 0x7F800000"

section \<open>Rounding\<close>

function bitlen :: "int \<Rightarrow> int" where
  "bitlen n = (if n \<le> 0 then 0 else 1 + bitlen (n div 2))"
  by pat_completeness auto
termination
  by (relation "measure nat") auto

declare bitlen.simps [simp del]

text \<open>Nearest integer to a quotient, ties to even.\<close>

definition div_nearest :: "int \<Rightarrow> int \<Rightarrow> int" where
  "div_nearest n d = (let q = n div d; r = n mod d in
     if 2 * r > d \<or> 2 * r = d \<and> odd q then q + 1 else q)"

text \<open>
  The quotient \<open>n / d\<close> scaled by \<open>2\<^sup>-\<^sup>e\<close>, and the exponent that leaves 24 bits before the point, or
  the smallest exponent there is.
\<close>

definition scaled :: "int \<Rightarrow> int \<Rightarrow> int \<Rightarrow> int \<times> int" where
  "scaled n d e = (if e \<ge> 0 then (n, d * 2 ^ nat e) else (n * 2 ^ nat (- e), d))"

definition round_exp :: "int \<Rightarrow> int \<Rightarrow> int" where
  "round_exp n d =
     (let e = bitlen n - bitlen d - 24;
          (a, b) = scaled n d e
      in max (-149) (if a \<ge> b * 2 ^ 24 then e + 1 else e))"

text \<open>The value \<open>n / d\<close> for \<open>n \<ge> 0\<close>, rounded; zero has no leading bit and is a case of its own.\<close>

definition f32_round :: "bool \<Rightarrow> int \<Rightarrow> int \<Rightarrow> f32" where
  "f32_round s n d =
     (if n = 0 then f32_pack s 0
      else let e = round_exp n d; (a, b) = scaled n d e; q = div_nearest a b;
               bits = (e + 149) * 2 ^ 23 + q
           in f32_pack s (min bits 0x7F800000))"

section \<open>Operations\<close>

definition f32_of_int :: "int \<Rightarrow> f32" where
  "f32_of_int n = f32_round (n < 0) \<bar>n\<bar> 1"

definition f32_add :: "f32 \<Rightarrow> f32 \<Rightarrow> f32" where
  "f32_add x y =
     (if f32_nan x \<or> f32_nan y then nan
      else if f32_inf x \<and> f32_inf y then (if f32_sign x = f32_sign y then x else nan)
      else if f32_inf x then x
      else if f32_inf y then y
      else if units x + units y = 0 then f32_pack (f32_sign x \<and> f32_sign y) 0
      else f32_round (units x + units y < 0) \<bar>units x + units y\<bar> (2 ^ 149))"

definition f32_neg :: "f32 \<Rightarrow> f32" where
  "f32_neg x = x XOR 0x80000000"

definition f32_sub :: "f32 \<Rightarrow> f32 \<Rightarrow> f32" where
  "f32_sub x y = f32_add x (f32_neg y)"

definition f32_mul :: "f32 \<Rightarrow> f32 \<Rightarrow> f32" where
  "f32_mul x y =
     (let s = (f32_sign x \<noteq> f32_sign y) in
      if f32_nan x \<or> f32_nan y then nan
      else if f32_inf x \<or> f32_inf y then (if f32_mag x = 0 \<or> f32_mag y = 0 then nan else inf s)
      else if f32_mag x = 0 \<or> f32_mag y = 0 then f32_pack s 0
      else f32_round s (f32_mag x * f32_mag y) (2 ^ 298))"

definition f32_div :: "f32 \<Rightarrow> f32 \<Rightarrow> f32" where
  "f32_div x y =
     (let s = (f32_sign x \<noteq> f32_sign y) in
      if f32_nan x \<or> f32_nan y then nan
      else if f32_inf x then (if f32_inf y then nan else inf s)
      else if f32_inf y then f32_pack s 0
      else if f32_mag y = 0 then (if f32_mag x = 0 then nan else inf s)
      else if f32_mag x = 0 then f32_pack s 0
      else f32_round s (f32_mag x) (f32_mag y))"

text \<open>The integer square root by bisection, and the square root with a sticky bit for the rounding.\<close>

fun isqrt_from :: "nat \<Rightarrow> int \<Rightarrow> int \<Rightarrow> int" where
  "isqrt_from 0 r n = r"
| "isqrt_from (Suc k) r n =
     (let c = r + 2 ^ k in if c * c \<le> n then isqrt_from k c n else isqrt_from k r n)"

definition isqrt :: "int \<Rightarrow> int" where
  "isqrt n = isqrt_from (Suc (nat (bitlen n div 2))) 0 n"

definition f32_sqrt :: "f32 \<Rightarrow> f32" where
  "f32_sqrt x =
     (if f32_nan x then nan
      else if f32_mag x = 0 then x
      else if f32_sign x then nan
      else if f32_inf x then x
      else let n = f32_mag x * 2 ^ 201; r = isqrt n; sticky = (if r * r = n then 0 else 1)
           in f32_round False (2 * r + sticky) (2 ^ 176))"

definition f32_lt :: "f32 \<Rightarrow> f32 \<Rightarrow> bool" where
  "f32_lt x y = (\<not> f32_nan x \<and> \<not> f32_nan y \<and> units x < units y)"

definition f32_le :: "f32 \<Rightarrow> f32 \<Rightarrow> bool" where
  "f32_le x y = (\<not> f32_nan x \<and> \<not> f32_nan y \<and> units x \<le> units y)"

text \<open>\<open>Duration::as_secs_f32\<close>, a duration being its nanoseconds.\<close>

definition as_secs_f32 :: "nat \<Rightarrow> f32" where
  "as_secs_f32 ns =
     f32_add (f32_of_int (int ns div 10 ^ 9)) (f32_div (f32_of_int (int ns mod 10 ^ 9)) (f32_of_int (10 ^ 9)))"

text \<open>The squared distance of two positions, as the code writes it out.\<close>

definition dist2 :: "f32 \<times> f32 \<times> f32 \<Rightarrow> f32 \<times> f32 \<times> f32 \<Rightarrow> f32" where
  "dist2 p q = (case p of (x, y, z) \<Rightarrow> case q of (ax, ay, az) \<Rightarrow>
     f32_add (f32_add (f32_mul (f32_sub x ax) (f32_sub x ax)) (f32_mul (f32_sub y ay) (f32_sub y ay)))
       (f32_mul (f32_sub z az) (f32_sub z az)))"

section \<open>Lemmas\<close>

lemma f32_mag_nonneg: "0 \<le> f32_mag x"
  by (simp add: f32_mag_def f32_frac_def)

lemma f32_exp_bits: "f32_exp x = nat (uint (take_bit 8 (drop_bit 23 x)))"
  using unsigned_take_bit_eq [of 8 "drop_bit 23 x", where 'a = int]
  by (simp add: f32_exp_def take_bit_eq_mod [of 8 "uint _"])

lemma f32_frac_bits: "f32_frac x = uint (take_bit 23 x)"
  using unsigned_take_bit_eq [of 23 x, where 'a = int]
  by (simp add: f32_frac_def take_bit_eq_mod [of 23 "uint _"])

lemma bit_sign_mask: "bit (0x80000000 :: u32) n \<longleftrightarrow> n = 31"
proof -
  have "(0x80000000 :: u32) = push_bit 31 1" by simp
  then show ?thesis by (simp only: bit_push_bit_iff) (auto simp: bit_1_iff)
qed

lemma f32_neg_fields:
  "f32_sign (f32_neg x) = (\<not> f32_sign x)" "f32_exp (f32_neg x) = f32_exp x"
  "f32_frac (f32_neg x) = f32_frac x" "f32_mag (f32_neg x) = f32_mag x"
proof -
  show "f32_sign (f32_neg x) = (\<not> f32_sign x)"
    by (simp add: f32_sign_def f32_neg_def bit_xor_iff bit_sign_mask)
  have "take_bit 8 (drop_bit 23 (f32_neg x)) = take_bit 8 (drop_bit 23 x)"
    by (rule bit_word_eqI) (auto simp: f32_neg_def bit_simps bit_sign_mask simp del: bit_numeral_iff)
  then show e: "f32_exp (f32_neg x) = f32_exp x" by (simp add: f32_exp_bits)
  have "take_bit 23 (f32_neg x) = take_bit 23 x"
    by (rule bit_word_eqI) (auto simp: f32_neg_def bit_simps bit_sign_mask simp del: bit_numeral_iff)
  then show f: "f32_frac (f32_neg x) = f32_frac x" by (simp add: f32_frac_bits)
  from e f show "f32_mag (f32_neg x) = f32_mag x" by (simp add: f32_mag_def)
qed

lemma f32_sub_self: "f32_finite x \<Longrightarrow> f32_sub x x = 0"
  by (simp add: f32_sub_def f32_add_def f32_nan_def f32_inf_def f32_neg_fields f32_finite_def units_def
      f32_pack_def)

lemma f32_zero: "f32_exp 0 = 0" "f32_frac 0 = 0" "f32_mag 0 = 0" "units 0 = 0" "\<not> f32_sign 0"
  by (simp_all add: f32_exp_def f32_frac_def f32_mag_def units_def f32_sign_def)

lemma f32_mul_zero: "f32_mul 0 0 = 0"
  by (simp add: f32_mul_def f32_nan_def f32_inf_def f32_zero f32_pack_def)

lemma f32_add_zero: "f32_add 0 0 = 0"
  by (simp add: f32_add_def f32_nan_def f32_inf_def f32_zero f32_pack_def)

text \<open>A finite position is at distance zero from itself.\<close>

lemma dist2_self:
  "f32_finite x \<Longrightarrow> f32_finite y \<Longrightarrow> f32_finite z \<Longrightarrow> dist2 (x, y, z) (x, y, z) = 0"
  by (simp add: dist2_def f32_sub_self f32_mul_zero f32_add_zero)

lemma f32_sign_pack: "0 \<le> b \<Longrightarrow> b < 2 ^ 31 \<Longrightarrow> \<not> f32_sign (f32_pack False b)"
proof -
  assume b: "0 \<le> b" "b < 2 ^ 31"
  then have "take_bit 31 b = b" by (simp add: take_bit_int_eq_self)
  then have "\<not> bit b 31" by (metis bit_take_bit_iff less_irrefl)
  then show ?thesis by (simp add: f32_sign_def f32_pack_def bit_word_of_int_iff)
qed

lemma f32_sign_round: "0 \<le> n \<Longrightarrow> 0 < d \<Longrightarrow> \<not> f32_sign (f32_round False n d)"
proof -
  assume n: "0 \<le> n" "0 < d"
  obtain a b where ab: "scaled n d (round_exp n d) = (a, b)" by (rule prod.exhaust)
  with n have "0 \<le> a" "0 \<le> b" by (auto simp: scaled_def split: if_splits)
  then have "0 \<le> div_nearest a b" by (simp add: div_nearest_def Let_def pos_imp_zdiv_nonneg_iff)
     (cases "b = 0"; simp add: pos_imp_zdiv_nonneg_iff)
  moreover have "-149 \<le> round_exp n d" by (simp add: round_exp_def Let_def case_prod_unfold)
  ultimately show ?thesis
    unfolding f32_round_def Let_def ab prod.case by (simp add: f32_sign_pack)
qed

text \<open>A square is never below zero.\<close>

lemma f32_square_nonneg: "\<not> f32_lt (f32_mul x x) 0"
proof -
  have "\<not> f32_sign (f32_mul x x) \<or> f32_nan (f32_mul x x)"
  proof -
    have "\<not> f32_sign (f32_pack False 0)" and "\<not> f32_sign (inf False)"
      unfolding inf_def by (intro f32_sign_pack; simp)+
    moreover have "\<not> f32_sign (f32_round False (f32_mag x * f32_mag x) (2 ^ 298))"
      by (rule f32_sign_round) (simp_all add: f32_mag_nonneg)
    moreover have "f32_nan nan"
      by (simp add: f32_nan_def nan_def f32_exp_def f32_frac_def)
    ultimately show ?thesis by (auto simp: f32_mul_def Let_def)
  qed
  then show ?thesis
    using f32_mag_nonneg [of "f32_mul x x"] by (auto simp: f32_lt_def units_def f32_zero)
qed

subsection \<open>Integers are converted exactly\<close>

lemma bitlen_bounds:
  "0 < n \<Longrightarrow> 0 < bitlen n \<and> 2 ^ nat (bitlen n - 1) \<le> n \<and> n < 2 ^ nat (bitlen n)"
proof (induction n rule: bitlen.induct)
  case (1 n)
  show ?case
  proof (cases "n = 1")
    case True
    then show ?thesis by (simp add: bitlen.simps [of 1] bitlen.simps [of 0])
  next
    case False
    define m where "m = n div 2"
    have n: "2 * m \<le> n" "n < 2 * m + 2" unfolding m_def by simp_all
    from False 1 have IH: "0 < bitlen m" "2 ^ nat (bitlen m - 1) \<le> m" "m < 2 ^ nat (bitlen m)"
      by (simp_all add: m_def)
    have b: "bitlen n = bitlen m + 1" using 1 by (simp add: bitlen.simps [of n] m_def)
    have p: "(2 :: int) ^ nat (bitlen n) = 2 * 2 ^ nat (bitlen m)" "(2 :: int) ^ nat (bitlen n - 1) = 2 * 2 ^ nat (bitlen m - 1)"
      using IH(1) power_Suc [of "2 :: int" "nat (bitlen m)"] power_Suc [of "2 :: int" "nat (bitlen m - 1)"]
        Suc_nat_eq_nat_zadd1 [of "bitlen m"] Suc_nat_eq_nat_zadd1 [of "bitlen m - 1"] unfolding b by (simp_all add: add.commute)
    have "2 * 2 ^ nat (bitlen m - 1) \<le> 2 * m" "2 * m + 2 \<le> 2 * 2 ^ nat (bitlen m)" using IH(2,3) by simp_all
    from order_trans [OF this(1) n(1)] less_le_trans [OF n(2) this(2)] IH(1) b show ?thesis unfolding p by simp
  qed
qed

lemma f32_pack_fields:
  assumes "0 \<le> e" and "e < 256" and "0 \<le> f" and "f < 2 ^ 23"
  shows "f32_sign (f32_pack s (e * 2 ^ 23 + f)) = s" "f32_exp (f32_pack s (e * 2 ^ 23 + f)) = nat e"
    "f32_frac (f32_pack s (e * 2 ^ 23 + f)) = f"
proof -
  define w where "w = f32_pack s (e * 2 ^ 23 + f)"
  have small: "e * 2 ^ 23 + f < 2 ^ 31" using assms by simp
  with assms have u: "uint w = (if s then 2 ^ 31 else 0) + (e * 2 ^ 23 + f)"
    unfolding w_def f32_pack_def uint_word_of_int by (intro mod_pos_pos_trivial) auto
  have "bit w 31 = odd (uint w div 2 ^ 31)" using bit_uint_iff [of w 31] by (simp add: bit_iff_odd del: bit_uint_iff)
  also have "uint w div 2 ^ 31 = (if s then 1 else 0)"
    using small assms unfolding u by (simp add: div_add_self1 div_pos_pos_trivial)
  finally show "f32_sign w = s" by (simp add: f32_sign_def)
  have w: "uint w = ((if s then 256 else 0) + e) * 2 ^ 23 + f" unfolding u by simp
  then have "uint w div 2 ^ 23 = (if s then 256 else 0) + e"
    using assms(3,4) by (simp add: div_pos_pos_trivial del: uint_div)
  then show "f32_exp w = nat e"
    using assms by (simp add: f32_exp_def drop_bit_eq_div uint_div)
  show "f32_frac w = f" using assms(3,4) unfolding f32_frac_def w by (simp only: mod_mult_self3 mod_pos_pos_trivial)
qed


text \<open>Every integer of at most 24 bits has its value; larger ones are rounded.\<close>

lemma f32_round_int:
  assumes "0 < n" and "n < 2 ^ 24"
  shows "f32_sign (f32_round s n 1) = s" "f32_mag (f32_round s n 1) = n * 2 ^ 149"
proof -
  define k where "k = nat (bitlen n - 1)"
  have b: "bitlen n = int k + 1" "2 ^ k \<le> n" "n < 2 ^ Suc k"
    using bitlen_bounds [OF assms(1)] Suc_nat_eq_nat_zadd1 [of "bitlen n - 1"] by (simp_all add: k_def del: power_Suc)
  have "(2 :: int) ^ k < 2 ^ 24" using b(2) assms(2) by (rule le_less_trans)
  then have k: "k \<le> 23" using power_less_imp_less_exp [of "2 :: int" k 24] by simp
  have "(2 :: int) ^ 24 = 2 ^ k * 2 ^ (24 - k)" using k by (simp flip: power_add)
  also have "\<dots> \<le> n * 2 ^ (24 - k)" using b(2) by simp
  finally have e: "round_exp n 1 = int k - 23"
    using k by (simp add: round_exp_def b(1) bitlen.simps [of 1] bitlen.simps [of 0] scaled_def nat_diff_distrib)
  define a where "a = n * 2 ^ (23 - k)"
  have sc: "scaled n 1 (int k - 23) = (a, 1)"
    using k by (auto simp: scaled_def a_def nat_diff_distrib)
  have "div_nearest a 1 = a" "n \<noteq> 0" "int k - 23 + 149 = int k + 126" using assms(1) by (simp_all add: div_nearest_def)
  then have r: "f32_round s n 1 = f32_pack s (min ((int k + 126) * 2 ^ 23 + a) 0x7F800000)"
    unfolding f32_round_def e Let_def sc prod.case by (simp only: if_False)
  have p: "(2 :: int) ^ 23 = 2 ^ k * 2 ^ (23 - k)" "(2 :: int) ^ 24 = 2 ^ Suc k * 2 ^ (23 - k)"
    using k by (simp_all flip: power_add power_Suc)
  have a: "2 ^ 23 \<le> a" "a < 2 ^ 24" unfolding p a_def using b(2,3) by simp_all
  then have "f32_round s n 1 = f32_pack s ((int k + 127) * 2 ^ 23 + (a - 2 ^ 23))"
    using k unfolding r by (simp add: min_def algebra_simps)
  note fields = f32_pack_fields [of "int k + 127" "a - 2 ^ 23" s, folded this]
  show "f32_sign (f32_round s n 1) = s" using fields(1) k a by simp
  have "f32_mag (f32_round s n 1) = a * 2 ^ (k + 126)"
    using fields(2,3) k a by (simp add: f32_mag_def nat_add_distrib)
  also have "\<dots> = n * 2 ^ 149" using k by (simp add: a_def flip: power_add)
  finally show "f32_mag (f32_round s n 1) = n * 2 ^ 149" .
qed

lemma units_of_int:
  assumes "\<bar>n\<bar> < 2 ^ 24"
  shows "units (f32_of_int n) = n * 2 ^ 149"
proof (cases "n = 0")
  case True
  then show ?thesis by (simp add: f32_of_int_def f32_round_def f32_pack_def f32_zero)
next
  case False
  then show ?thesis using f32_round_int [of "\<bar>n\<bar>" "n < 0"] assms
    unfolding f32_of_int_def units_def by (cases "n < 0") (simp_all only: if_True if_False; simp)+
qed

lemma f32_of_int_0 [simp]: "f32_of_int 0 = 0"
  by (simp add: f32_of_int_def f32_round_def f32_pack_def)

text \<open>Durations in seconds: nothing, a tenth, and three and a quarter.\<close>

lemma as_secs_f32_examples:
  "as_secs_f32 0 = 0" "as_secs_f32 100000000 = 0x3DCCCCCD" "as_secs_f32 3250000000 = 0x40500000"
proof -
  show "as_secs_f32 0 = 0"
    by (simp add: as_secs_f32_def) code_simp
  have "as_secs_f32 100000000 = f32_add (f32_of_int 0) (f32_div (f32_of_int 100000000) (f32_of_int 1000000000))"
    and "as_secs_f32 3250000000 = f32_add (f32_of_int 3) (f32_div (f32_of_int 250000000) (f32_of_int 1000000000))"
    by (simp_all only: as_secs_f32_def) simp_all
  moreover have "f32_add (f32_of_int 0) (f32_div (f32_of_int 100000000) (f32_of_int 1000000000)) = 0x3DCCCCCD"
    "f32_add (f32_of_int 3) (f32_div (f32_of_int 250000000) (f32_of_int 1000000000)) = 0x40500000" by code_simp+
  ultimately show "as_secs_f32 100000000 = 0x3DCCCCCD" "as_secs_f32 3250000000 = 0x40500000" by simp_all
qed

end
