(* ===== verification/Client.thy ===== *)
theory Client
  imports Proto Text F32
begin

text \<open>
  A connected client, \<open>src/src/client.rs\<close>, with its voice targets (\<open>src/src/target.rs\<close>) and the
  channel it is in (\<open>src/src/channel.rs\<close>). Atomics, mutexes and swap cells are plain fields that an
  operation updates; the anticheat statistics form a record of their own. What lies behind a
  client is part of its record: the TLS writer as the bytes written to it, the message queue
  of its tasks, and the datagrams sent to it.
\<close>

section \<open>Libraries\<close>

text \<open>
  The third-party code the server calls: the protobuf runtime, the block cipher, Unicode
  lowercasing and the regular expression that usernames are matched with.
\<close>

record ext =
  x_rt :: pb_runtime
  x_aes :: aes128
  x_to_lowercase :: "string \<Rightarrow> string"
  x_is_match :: "string \<Rightarrow> string \<Rightarrow> bool"

definition unwrap_or :: "'a \<Rightarrow> 'a option \<Rightarrow> 'a" where
  "unwrap_or d v = (case v of None \<Rightarrow> d | Some x \<Rightarrow> x)"

lemma unwrap_or_simps [simp]: "unwrap_or d None = d" "unwrap_or d (Some x) = x"
  by (simp_all add: unwrap_or_def)

text \<open>The messages the server sends, each with its required-field check and its writer.\<close>

datatype message =
    MVersion Version
  | MPing Ping
  | MServerSync ServerSync
  | MChannelRemove ChannelRemove
  | MChannelState ChannelState
  | MUserRemove UserRemove
  | MUserState UserState
  | MCryptSetup CryptSetup
  | MPermissionQuery PermissionQuery
  | MCodecVersion CodecVersion
  | MUserStats UserStats
  | MServerConfig ServerConfig

fun msg_is_initialized :: "message \<Rightarrow> bool" where
  "msg_is_initialized (MVersion m) = Version_is_initialized m"
| "msg_is_initialized (MPing m) = Ping_is_initialized m"
| "msg_is_initialized (MServerSync m) = ServerSync_is_initialized m"
| "msg_is_initialized (MChannelRemove m) = ChannelRemove_is_initialized m"
| "msg_is_initialized (MChannelState m) = ChannelState_is_initialized m"
| "msg_is_initialized (MUserRemove m) = UserRemove_is_initialized m"
| "msg_is_initialized (MUserState m) = UserState_is_initialized m"
| "msg_is_initialized (MCryptSetup m) = CryptSetup_is_initialized m"
| "msg_is_initialized (MPermissionQuery m) = PermissionQuery_is_initialized m"
| "msg_is_initialized (MCodecVersion m) = CodecVersion_is_initialized m"
| "msg_is_initialized (MUserStats m) = UserStats_is_initialized m"
| "msg_is_initialized (MServerConfig m) = ServerConfig_is_initialized m"

fun msg_write :: "pb_runtime \<Rightarrow> message \<Rightarrow> bytes" where
  "msg_write rt (MVersion m) = Version_write_to rt m"
| "msg_write rt (MPing m) = Ping_write_to rt m"
| "msg_write rt (MServerSync m) = ServerSync_write_to rt m"
| "msg_write rt (MChannelRemove m) = ChannelRemove_write_to rt m"
| "msg_write rt (MChannelState m) = ChannelState_write_to rt m"
| "msg_write rt (MUserRemove m) = UserRemove_write_to rt m"
| "msg_write rt (MUserState m) = UserState_write_to rt m"
| "msg_write rt (MCryptSetup m) = CryptSetup_write_to rt m"
| "msg_write rt (MPermissionQuery m) = PermissionQuery_write_to rt m"
| "msg_write rt (MCodecVersion m) = CodecVersion_write_to rt m"
| "msg_write rt (MUserStats m) = UserStats_write_to rt m"
| "msg_write rt (MServerConfig m) = ServerConfig_write_to rt m"

definition msg_to_bytes :: "ext \<Rightarrow> message_kind \<Rightarrow> message \<Rightarrow> mumble_error + bytes" where
  "msg_to_bytes x kind m = message_to_bytes msg_is_initialized (msg_write (x_rt x)) kind m"

section \<open>State\<close>

text \<open>An address in the heap of client objects, standing for an \<open>Arc\<close> or a \<open>Weak\<close> to the client.\<close>

type_synonym cref = nat

record voice_target =
  vt_sessions :: "(u32, unit) hindex"
  vt_channels :: "(u32, unit) hindex"

record net_stats =
  ns_udp_packets :: u32
  ns_tcp_packets :: u32
  ns_udp_ping_avg :: f32
  ns_udp_ping_var :: f32
  ns_tcp_ping_avg :: f32
  ns_tcp_ping_var :: f32

record heard_entry =
  he_session_id :: u32
  he_name :: string
  he_ip :: string
  he_last :: instant
  he_secs :: u32

record ac_stats =
  ac_score :: u64
  ac_max_recipients :: u32
  ac_flags :: u32
  ac_last_flag :: instant
  ac_exempt :: bool
  ac_reach_instant :: u32
  ac_reach_window :: u32
  ac_mutuality :: u32
  ac_strikes :: u32
  ac_listen_count :: u32
  ac_window :: "(u64, instant) hindex"
  ac_last_webhook :: instant
  ac_pos_x :: f32
  ac_pos_y :: f32
  ac_pos_z :: f32
  ac_has_pos :: bool
  ac_last_pos_time :: instant
  ac_pos_jumps :: u32
  ac_max_speed :: f32
  ac_pos_hist :: "(instant \<times> (f32 \<times> f32 \<times> f32) \<times> bool) list"
  ac_far_targets :: u32
  ac_heard :: "(string, heard_entry) hindex"
  ac_last_heard_rec :: instant

text \<open>
  The write half of the TLS stream: what was written, what the next write yields, and which branch
  \<open>select!\<close> takes when writing is possible and the token is cancelled.
\<close>

record tcp_writer =
  tw_sent :: bytes
  tw_error :: "io_error option"
  tw_cancel_first :: bool

text \<open>The sending end of the \<open>mpsc\<close> channel to the client's task.\<close>

record publisher =
  pub_queue :: "client_message list"
  pub_closed :: bool

definition PUBLISHER_CAPACITY :: nat where "PUBLISHER_CAPACITY = 4096"

text \<open>The shared UDP socket as seen from this client: datagrams sent, and what the next send yields.\<close>

datatype udp_result = UdpSent | UdpError io_error | UdpTimeout

record udp_out =
  uo_sent :: "(socket_addr \<times> bytes) list"
  uo_result :: udp_result

record client =
  cl_name :: string
  cl_log_name :: string
  cl_authenticate :: Authenticate
  cl_net_stats :: net_stats
  cl_session_id :: u32
  cl_channel_id :: u32
  cl_mute :: bool
  cl_deaf :: bool
  cl_write :: "tcp_writer option"
  cl_crypt_state :: crypt_state
  cl_udp_socket_addr :: "socket_addr option"
  cl_cancelled :: bool
  cl_udp :: udp_out
  cl_publisher :: publisher
  cl_targets :: "voice_target list"
  cl_last_tcp_ping :: instant
  cl_last_udp_ping :: instant
  cl_bad_net_count :: u32
  cl_peer_ip :: ip_addr
  cl_version_release :: string
  cl_version_str :: string
  cl_version_os :: string
  cl_ac :: ac_stats

record channel =
  ch_id :: u32
  ch_name :: string
  ch_temporary :: bool
  ch_listeners :: "(u32, cref) hindex"
  ch_clients :: "(u32, cref) hindex"
  ch_state_cache :: ChannelState

section \<open>Channels\<close>

definition channel_new :: "u32 \<Rightarrow> u32 option \<Rightarrow> string \<Rightarrow> string \<Rightarrow> bool \<Rightarrow> channel" where
  "channel_new ident parent_id nm description tmp =
     (let st = ChannelState_new\<lparr>ChannelState_channel_id := Some ident, ChannelState_name := Some nm,
            ChannelState_description := Some description\<rparr>;
          st = (case parent_id of Some p \<Rightarrow> st\<lparr>ChannelState_parent := Some p\<rparr> | None \<Rightarrow> st);
          st = st\<lparr>ChannelState_temporary := Some tmp, ChannelState_position := Some ident\<rparr>
      in \<lparr>ch_id = ident, ch_name = nm, ch_temporary = tmp, ch_listeners = [], ch_clients = [],
          ch_state_cache = st\<rparr>)"

definition get_channel_state :: "channel \<Rightarrow> ChannelState" where
  "get_channel_state c = ch_state_cache c"

definition get_clients :: "channel \<Rightarrow> (u32, cref) hindex" where
  "get_clients c = ch_clients c"

section \<open>Creation\<close>

definition net_stats_default :: net_stats where
  "net_stats_default = \<lparr>ns_udp_packets = 0, ns_tcp_packets = 0, ns_udp_ping_avg = 0,
     ns_udp_ping_var = 0, ns_tcp_ping_avg = 0, ns_tcp_ping_var = 0\<rparr>"

definition voice_target_default :: voice_target where
  "voice_target_default = \<lparr>vt_sessions = [], vt_channels = []\<rparr>"

definition ac_stats_new :: "instant \<Rightarrow> ac_stats" where
  "ac_stats_new now = \<lparr>ac_score = 0, ac_max_recipients = 0, ac_flags = 0, ac_last_flag = now,
     ac_exempt = False, ac_reach_instant = 0, ac_reach_window = 0, ac_mutuality = 255,
     ac_strikes = 0, ac_listen_count = 0, ac_window = [], ac_last_webhook = now - int (secs 3600),
     ac_pos_x = 0, ac_pos_y = 0, ac_pos_z = 0, ac_has_pos = False, ac_last_pos_time = now,
     ac_pos_jumps = 0, ac_max_speed = 0, ac_pos_hist = [], ac_far_targets = 0, ac_heard = [],
     ac_last_heard_rec = now - int (secs 3600)\<rparr>"

definition version_string :: "u32 \<Rightarrow> string" where
  "version_string ver =
     dec (unat (drop_bit 16 ver)) @ ''.'' @ dec (unat (drop_bit 8 ver AND 0xFF)) @ ''.'' @
     dec (unat (ver AND 0xFF))"

definition client_new ::
    "Version \<Rightarrow> Authenticate \<Rightarrow> u32 \<Rightarrow> u32 \<Rightarrow> crypt_state \<Rightarrow> tcp_writer \<Rightarrow> udp_out \<Rightarrow> publisher \<Rightarrow>
       ip_addr \<Rightarrow> instant \<Rightarrow> client" where
  "client_new ver auth session chan crypt_st writer udp publ ip now =
     (let username = unwrap_or '''' (Authenticate_username auth) in
      \<lparr>cl_name = username,
       cl_log_name = username @ '' [session id: '' @ dec (unat session) @ '']'',
       cl_authenticate = auth, cl_net_stats = net_stats_default, cl_session_id = session,
       cl_channel_id = chan, cl_mute = False, cl_deaf = False, cl_write = Some writer,
       cl_crypt_state = crypt_st, cl_udp_socket_addr = None, cl_cancelled = False, cl_udp = udp,
       cl_publisher = publ, cl_targets = replicate 30 voice_target_default,
       cl_last_tcp_ping = now, cl_last_udp_ping = now, cl_bad_net_count = 0, cl_peer_ip = ip,
       cl_version_release = unwrap_or '''' (Version_release ver),
       cl_version_str = version_string (unwrap_or 0 (Version_version ver)),
       cl_version_os = unwrap_or '''' (Version_os ver),
       cl_ac = ac_stats_new now\<rparr>)"

section \<open>Operations\<close>

text \<open>\<open>(id - 1) as usize\<close> wraps around for the id 0, and \<open>get\<close> answers \<open>None\<close> out of range.\<close>

definition get_target :: "client \<Rightarrow> u8 \<Rightarrow> voice_target option" where
  "get_target c ident =
     (let i = unat (ident - 1) in if i < length (cl_targets c) then Some (cl_targets c ! i) else None)"

definition send_bytes :: "client \<Rightarrow> bytes \<Rightarrow> client \<times> (mumble_error + unit)" where
  "send_bytes c data =
     (case cl_write c of
        None \<Rightarrow> (c, Inl WritterShutDown)
      | Some w \<Rightarrow>
          if cl_cancelled c \<and> tw_cancel_first w then (c, Inl WritterShutDown)
          else case tw_error w of
            Some e \<Rightarrow> (c, Inl (MumbleIo e))
          | None \<Rightarrow> (c\<lparr>cl_write := Some (w\<lparr>tw_sent := tw_sent w @ data\<rparr>)\<rparr>, Inr ()))"

definition set_mute :: "bool \<Rightarrow> client \<Rightarrow> client" where
  "set_mute b c = c\<lparr>cl_mute := b\<rparr>"

definition set_deaf :: "bool \<Rightarrow> client \<Rightarrow> client" where
  "set_deaf b c = c\<lparr>cl_deaf := b\<rparr>"

definition send_message :: "ext \<Rightarrow> client \<Rightarrow> message_kind \<Rightarrow> message \<Rightarrow> client \<times> (mumble_error + unit)" where
  "send_message x c kind m =
     (case msg_to_bytes x kind m of Inl e \<Rightarrow> (c, Inl e) | Inr bs \<Rightarrow> send_bytes c bs)"

definition send_message_raw :: "client \<Rightarrow> message_kind \<Rightarrow> bytes \<Rightarrow> client \<times> (mumble_error + unit)" where
  "send_message_raw c kind buffer = send_bytes c (get_mumble_buffer kind buffer)"

definition remove_udp_socket :: "client \<Rightarrow> client \<times> socket_addr option" where
  "remove_udp_socket c = (c\<lparr>cl_udp_socket_addr := None\<rparr>, cl_udp_socket_addr c)"

definition get_crypt_setup :: "crypt_state \<Rightarrow> CryptSetup" where
  "get_crypt_setup st = CryptSetup_new\<lparr>CryptSetup_key := Some (key st),
     CryptSetup_client_nonce := Some (get_decrypt_nonce st),
     CryptSetup_server_nonce := Some (get_encrypt_nonce st)\<rparr>"

definition send_crypt_setup :: "ext \<Rightarrow> instant \<Rightarrow> bool \<Rightarrow> client \<Rightarrow> client \<times> (mumble_error + unit)" where
  "send_crypt_setup x now reset c =
     (let c = (if reset then c\<lparr>cl_crypt_state := crypt_reset now (cl_crypt_state c)\<rparr> else c)
      in send_message x c KCryptSetup (MCryptSetup (get_crypt_setup (cl_crypt_state c))))"

definition get_user_state :: "client \<Rightarrow> UserState" where
  "get_user_state c = UserState_new\<lparr>UserState_user_id := Some (cl_session_id c),
     UserState_channel_id := Some (cl_channel_id c), UserState_session := Some (cl_session_id c),
     UserState_name := Some (cl_name c)\<rparr>"

definition send_my_user_state :: "ext \<Rightarrow> client \<Rightarrow> client \<times> (mumble_error + unit)" where
  "send_my_user_state x c = send_message x c KUserState (MUserState (get_user_state c))"

definition MAX_BANDWIDTH_IN_BITS :: u32 where "MAX_BANDWIDTH_IN_BITS = 144000"

definition send_server_sync :: "ext \<Rightarrow> client \<Rightarrow> client \<times> (mumble_error + unit)" where
  "send_server_sync x c = send_message x c KServerSync (MServerSync
     (ServerSync_new\<lparr>ServerSync_max_bandwidth := Some MAX_BANDWIDTH_IN_BITS,
        ServerSync_session := Some (cl_session_id c),
        ServerSync_welcome_text := Some ''SoZ Mumble Server''\<rparr>))"

definition send_server_config :: "ext \<Rightarrow> client \<Rightarrow> client \<times> (mumble_error + unit)" where
  "send_server_config x c = send_message x c KServerConfig (MServerConfig
     (ServerConfig_new\<lparr>ServerConfig_allow_html := Some False, ServerConfig_message_length := Some 0,
        ServerConfig_image_message_length := Some 0\<rparr>))"

definition send_voice_packet :: "ext \<Rightarrow> client \<Rightarrow> u32 voice_packet \<Rightarrow> client \<times> (mumble_error + unit)" where
  "send_voice_packet x c packet =
     (case cl_udp_socket_addr c of
        Some addr \<Rightarrow>
          let (crypt_st, buf) = encrypt (x_aes x) client_bound (cl_crypt_state c) packet;
              c = c\<lparr>cl_crypt_state := crypt_st\<rparr>
          in (case uo_result (cl_udp c) of
                UdpSent \<Rightarrow> (c\<lparr>cl_udp := (cl_udp c)\<lparr>uo_sent := uo_sent (cl_udp c) @ [(addr, buf)]\<rparr>\<rparr>, Inr ())
              | UdpError e \<Rightarrow> (c, Inl (MumbleIo e))
              | UdpTimeout \<Rightarrow> (c, Inl PacketDiscarded))
      | None \<Rightarrow> send_message_raw c KUDPTunnel (encode_voice_packet client_bound packet))"

definition client_update :: "UserState \<Rightarrow> client \<Rightarrow> client" where
  "client_update st c =
     (let c = (case UserState_mute st of Some b \<Rightarrow> set_mute b c | None \<Rightarrow> c)
      in case UserState_deaf st of Some b \<Rightarrow> set_deaf b c | None \<Rightarrow> c)"

definition join_channel :: "u32 \<Rightarrow> client \<Rightarrow> client \<times> u32 option" where
  "join_channel chan c =
     (if chan = cl_channel_id c then (c, None)
      else (c\<lparr>cl_channel_id := chan\<rparr>, Some (cl_channel_id c)))"

text \<open>\<open>Sender::try_send\<close>: the message is refused when the channel is closed or full.\<close>

definition try_send :: "client_message \<Rightarrow> client \<Rightarrow> client option" where
  "try_send m c =
     (let p = cl_publisher c in
      if pub_closed p \<or> length (pub_queue p) \<ge> PUBLISHER_CAPACITY then None
      else Some (c\<lparr>cl_publisher := p\<lparr>pub_queue := pub_queue p @ [m]\<rparr>\<rparr>))"

section \<open>The handshake\<close>

text \<open>\<open>proto::send_message\<close> writes to the stream before it is split.\<close>

definition stream_send :: "ext \<Rightarrow> tcp_writer \<Rightarrow> message_kind \<Rightarrow> message \<Rightarrow> tcp_writer \<times> (mumble_error + unit)" where
  "stream_send x w kind m =
     (case msg_to_bytes x kind m of
        Inl e \<Rightarrow> (w, Inl e)
      | Inr bs \<Rightarrow> (case tw_error w of
          Some e \<Rightarrow> (w, Inl (MumbleIo e))
        | None \<Rightarrow> (w\<lparr>tw_sent := tw_sent w @ bs\<rparr>, Inr ())))"

text \<open>
  \<open>timeout\<close>: the two flags say whether the message arrives within the second it is given. \<open>k\<close> is
  the key that \<open>CryptState::default\<close> draws.
\<close>

definition client_init ::
    "ext \<Rightarrow> bool \<Rightarrow> bool \<Rightarrow> bytes \<Rightarrow> instant \<Rightarrow> Version \<Rightarrow> tcp_writer \<Rightarrow> bytes \<Rightarrow>
       tcp_writer \<times> (mumble_error + (Version \<times> Authenticate \<times> crypt_state) \<times> bytes)" where
  "client_init x version_in_time auth_in_time k now server_version w stream =
     (if \<not> version_in_time then (w, Inl ClientInitFailed)
      else case expected_message (Version_parse (x_rt x)) KVersion stream of
        Inl e \<Rightarrow> (w, Inl e)
      | Inr (ver, stream) \<Rightarrow>
          (case stream_send x w KVersion (MVersion server_version) of
             (w, Inl e) \<Rightarrow> (w, Inl e)
           | (w, Inr _) \<Rightarrow>
               if \<not> auth_in_time then (w, Inl ClientInitFailed)
               else case expected_message (Authenticate_parse (x_rt x)) KAuthenticate stream of
                 Inl e \<Rightarrow> (w, Inl e)
               | Inr (auth, stream) \<Rightarrow>
                   let crypt_st = crypt_default k now in
                   (case stream_send x w KCryptSetup (MCryptSetup (get_crypt_setup crypt_st)) of
                      (w, Inl e) \<Rightarrow> (w, Inl e)
                    | (w, Inr _) \<Rightarrow> (w, Inr ((ver, auth, crypt_st), stream)))))"

section \<open>Properties\<close>

text \<open>
  C22: A handshake in time succeeds. When the client sends a \<open>Version\<close> and an \<open>Authenticate\<close> message,
  each behind at most ten tunnelled voice packets, \<open>init\<close> returns exactly these messages with a
  fresh crypt state, and the client has been sent the server's version and then the crypt setup.
\<close>

theorem handshake_succeeds:
  assumes "pb_ok (x_rt x)" and "Version_ok (x_rt x) ver" and "Authenticate_ok (x_rt x) auth"
    and "length (Version_write_to (x_rt x) ver) < 2 ^ 32"
    and "length (Authenticate_write_to (x_rt x) auth) < 2 ^ 32"
    and "\<forall>t \<in> set (ts @ us). length t < 2 ^ 32" and "length ts \<le> 10" and "length us \<le> 10"
    and "tw_error w = None"
  shows "client_init x True True k now server_version w
      (concat (map (get_mumble_buffer KUDPTunnel) ts) @
       get_mumble_buffer KVersion (Version_write_to (x_rt x) ver) @
       concat (map (get_mumble_buffer KUDPTunnel) us) @
       get_mumble_buffer KAuthenticate (Authenticate_write_to (x_rt x) auth) @ rest) =
    (w\<lparr>tw_sent := tw_sent w @ get_mumble_buffer KVersion (Version_write_to (x_rt x) server_version) @
         get_mumble_buffer KCryptSetup
           (CryptSetup_write_to (x_rt x) (get_crypt_setup (crypt_default k now)))\<rparr>,
     Inr ((ver, auth, crypt_default k now), rest))"
proof -
  have ts: "\<forall>t \<in> set ts. length t < 2 ^ 32" and us: "\<forall>t \<in> set us. length t < 2 ^ 32"
    using assms(6) by auto
  note v = expected_message_frames [OF ts assms(4,7), of KVersion KVersion "Version_parse (x_rt x)"]
  note a = expected_message_frames [OF us assms(5,8), of KAuthenticate KAuthenticate
      "Authenticate_parse (x_rt x)"]
  have "Version_parse (x_rt x) (Version_write_to (x_rt x) ver) = Some ver"
    using Version_parse_written [OF assms(1,2)] by (simp add: Version_is_initialized_def)
  moreover have "Authenticate_parse (x_rt x) (Authenticate_write_to (x_rt x) auth) = Some auth"
    using Authenticate_parse_written [OF assms(1,3)] by (simp add: Authenticate_is_initialized_def)
  ultimately show ?thesis
    using assms(9) v a
    by (simp add: client_init_def stream_send_def msg_to_bytes_def message_to_bytes_def
        Version_is_initialized_def CryptSetup_is_initialized_def Let_def)
qed

text \<open>Libraries for the witnesses.\<close>

definition std_ext :: ext where
  "std_ext = \<lparr>x_rt = std_runtime, x_aes = xor_cipher, x_to_lowercase = map to_ascii_lowercase,
     x_is_match = (\<lambda>pattern s. take 1 s = ''['')\<rparr>"

theorem handshake_succeeds_witness:
  "snd (client_init std_ext True True (replicate 16 7) 0 Version_new
      \<lparr>tw_sent = [], tw_error = None, tw_cancel_first = True\<rparr>
      (get_mumble_buffer KVersion (Version_write_to std_runtime Version_new) @
       get_mumble_buffer KUDPTunnel [32, 0] @
       get_mumble_buffer KAuthenticate (Authenticate_write_to std_runtime
         (Authenticate_new\<lparr>Authenticate_username := Some ''[1] a''\<rparr>)) @ [9])) =
   Inr ((Version_new, Authenticate_new\<lparr>Authenticate_username := Some ''[1] a''\<rparr>,
     crypt_default (replicate 16 7) 0), [9])"
proof -
  let ?auth = "Authenticate_new\<lparr>Authenticate_username := Some ''[1] a''\<rparr>"
  have "length (Authenticate_write_to std_runtime ?auth) < 2 ^ 32"
    by (simp add: Authenticate_write_to_def write_to_def Authenticate_write_items_def Authenticate_new_def
        put_opt_def put_list_def items_bytes_def item_bytes_def std_runtime_def w_string_def
        string_bytes_def length_leb)
  moreover have "length (Version_write_to std_runtime Version_new) < 2 ^ 32"
    by (simp add: Version_write_to_def write_to_def Version_write_items_def Version_new_def
        put_opt_def put_list_def items_bytes_def item_bytes_def std_runtime_def)
  ultimately show ?thesis
    using handshake_succeeds [of std_ext Version_new ?auth "[]" "[[32, 0]]"
        "\<lparr>tw_sent = [], tw_error = None, tw_cancel_first = True\<rparr>" "replicate 16 7" 0 Version_new "[9]"]
    by (simp add: std_ext_def std_runtime_ok Version_ok_def Version_new_def Authenticate_ok_def
        Authenticate_new_def str_ok_def) (simp add: std_runtime_def)
qed

lemma send_bytes_state: "cl_crypt_state (fst (send_bytes c data)) = cl_crypt_state c"
  by (simp add: send_bytes_def split: option.split)

lemma send_crypt_setup_state:
  "cl_crypt_state (fst (send_crypt_setup x now reset c)) =
     (if reset then crypt_reset now (cl_crypt_state c) else cl_crypt_state c)"
  by (simp add: send_crypt_setup_def send_message_def send_bytes_state Let_def split: sum.split)

lemma peers_decrypt:
  assumes "aes_ok A" and "wf_packet p" and "wf_packet q"
    and "key peer = key st" and "encrypt_nonce peer = decrypt_nonce st" and "decrypt_nonce peer = encrypt_nonce st"
  shows "snd (decrypt A client_bound now peer (snd (encrypt A client_bound st p))) = Inr p \<and>
    snd (decrypt A server_bound now st (snd (encrypt A server_bound peer q))) = Inr q"
proof -
  have "encrypt_nonce st = decrypt_nonce peer + word_of_nat 0" "encrypt_nonce peer = decrypt_nonce st + word_of_nat 0"
    using assms(5,6) by simp_all
  from decrypt_encrypted [OF assms(1) _ cb.voice_dst_axioms assms(2) surjective_pairing nonce_step_ahead [OF this(1)], of now]
    decrypt_encrypted [OF assms(1) _ sb.voice_dst_axioms assms(3) surjective_pairing nonce_step_ahead [OF this(2)], of now]
  show ?thesis using assms(4) by simp
qed

text \<open>
  C24: A crypt setup synchronises both ends. The server, after it has reset its crypt state if it was asked
  to, writes one frame to the client; a peer that reads the frame and takes its key and its nonces from it
  decrypts what the server encrypts next, and the server decrypts what the peer encrypts next.
\<close>

theorem crypt_setup_synchronises:
  assumes "pb_ok (x_rt x)" and "aes_ok (x_aes x)" and "wf_packet p" and "wf_packet q"
    and "crypt_wf (cl_crypt_state c)" and "cl_write c = Some w" and "tw_error w = None" and "\<not> cl_cancelled c"
    and "send_crypt_setup x now reset c = (c', res)"
    and "length (CryptSetup_write_to (x_rt x) (get_crypt_setup (cl_crypt_state c'))) < 2 ^ 32"
  shows "cl_crypt_state c' = (if reset then crypt_reset now (cl_crypt_state c) else cl_crypt_state c) \<and> res = Inr () \<and>
    (\<exists>frame setup k cn sn. cl_write c' = Some (w\<lparr>tw_sent := tw_sent w @ frame\<rparr>) \<and>
       expected_message (CryptSetup_parse (x_rt x)) KCryptSetup frame = Inr (setup, []) \<and>
       CryptSetup_key setup = Some k \<and> CryptSetup_client_nonce setup = Some cn \<and> CryptSetup_server_nonce setup = Some sn \<and>
       (\<forall>peer. key peer = k \<and> encrypt_nonce peer = of_le cn \<and> decrypt_nonce peer = of_le sn \<longrightarrow>
          snd (decrypt (x_aes x) client_bound now' peer (snd (encrypt (x_aes x) client_bound (cl_crypt_state c') p))) = Inr p \<and>
          snd (decrypt (x_aes x) server_bound now' (cl_crypt_state c') (snd (encrypt (x_aes x) server_bound peer q))) = Inr q))"
proof -
  define st where "st = (if reset then crypt_reset now (cl_crypt_state c) else cl_crypt_state c)"
  define frame where "frame = get_mumble_buffer KCryptSetup (CryptSetup_write_to (x_rt x) (get_crypt_setup st))"
  have "send_crypt_setup x now reset c = send_message x (c\<lparr>cl_crypt_state := st\<rparr>) KCryptSetup (MCryptSetup (get_crypt_setup st))"
    by (simp add: send_crypt_setup_def st_def)
  also have "\<dots> = (c\<lparr>cl_crypt_state := st, cl_write := Some (w\<lparr>tw_sent := tw_sent w @ frame\<rparr>)\<rparr>, Inr ())"
    using assms(6-8) by (simp add: send_message_def msg_to_bytes_def message_to_bytes_def CryptSetup_is_initialized_def
        send_bytes_def frame_def)
  finally have c': "cl_crypt_state c' = st" "cl_write c' = Some (w\<lparr>tw_sent := tw_sent w @ frame\<rparr>)" "res = Inr ()"
    using assms(9) by auto
  have "CryptSetup_ok (x_rt x) (get_crypt_setup st)"
    using assms(5) by (simp add: CryptSetup_ok_def get_crypt_setup_def CryptSetup_new_def bytes_ok_def crypt_wf_def st_def
        crypt_reset_def get_decrypt_nonce_def get_encrypt_nonce_def)
  then have "CryptSetup_parse (x_rt x) (CryptSetup_write_to (x_rt x) (get_crypt_setup st)) = Some (get_crypt_setup st)"
    using CryptSetup_parse_written [OF assms(1)] by (simp add: CryptSetup_is_initialized_def)
  with reads_backI [of "CryptSetup_parse (x_rt x)" "CryptSetup_write_to (x_rt x)" "get_crypt_setup st" "\<lambda>_. True"
      KCryptSetup "[]"] assms(10)
  have read: "expected_message (CryptSetup_parse (x_rt x)) KCryptSetup frame = Inr (get_crypt_setup st, [])"
    by (simp add: c'(1) reads_back_def message_to_bytes_def frame_def)
  note peer = peers_decrypt [OF assms(2-4), of _ st now']
  have "of_le (get_decrypt_nonce st) = decrypt_nonce st" "of_le (get_encrypt_nonce st) = encrypt_nonce st"
    using of_le_le_bytes [of 16 "decrypt_nonce st"] of_le_le_bytes [of 16 "encrypt_nonce st"]
    by (simp_all add: get_decrypt_nonce_def get_encrypt_nonce_def)
  moreover have "CryptSetup_key (get_crypt_setup st) = Some (key st)"
    "CryptSetup_client_nonce (get_crypt_setup st) = Some (get_decrypt_nonce st)"
    "CryptSetup_server_nonce (get_crypt_setup st) = Some (get_encrypt_nonce st)"
    by (simp_all add: get_crypt_setup_def CryptSetup_new_def)
  ultimately show ?thesis using c' read peer unfolding st_def [symmetric] by auto
qed

definition demo_peer :: client where
  "demo_peer = client_new Version_new Authenticate_new 2 0 (crypt_default (replicate 16 7) 0)
     \<lparr>tw_sent = [], tw_error = None, tw_cancel_first = True\<rparr> \<lparr>uo_sent = [], uo_result = UdpSent\<rparr>
     \<lparr>pub_queue = [], pub_closed = False\<rparr> (V4 127 0 0 1) 0"

theorem crypt_setup_synchronises_witness:
  "\<exists>c' w setup. send_crypt_setup std_ext 5 True demo_peer = (c', Inr ()) \<and> cl_write c' = Some w \<and>
     expected_message (CryptSetup_parse std_runtime) KCryptSetup (tw_sent w) = Inr (setup, []) \<and>
     encrypt_nonce (cl_crypt_state c') = 0"
proof -
  let ?w = "\<lparr>tw_sent = [], tw_error = None, tw_cancel_first = True\<rparr>"
  obtain c' res where s: "send_crypt_setup std_ext 5 True demo_peer = (c', res)" by (rule prod.exhaust)
  have demo: "cl_crypt_state demo_peer = crypt_default (replicate 16 7) 0" "cl_write demo_peer = Some ?w" "\<not> cl_cancelled demo_peer"
    by (simp_all add: demo_peer_def client_new_def Let_def)
  have "length (key (cl_crypt_state c')) = 16"
    using send_crypt_setup_state [of std_ext 5 True demo_peer] s demo(1) by (simp add: crypt_reset_def crypt_default_def)
  then have "length (CryptSetup_write_to std_runtime (get_crypt_setup (cl_crypt_state c'))) < 2 ^ 32"
    by (simp add: CryptSetup_write_to_def write_to_def CryptSetup_write_items_def get_crypt_setup_def CryptSetup_new_def
        put_opt_def put_list_def items_bytes_def item_bytes_def std_runtime_def w_bytes_def length_leb
        get_decrypt_nonce_def get_encrypt_nonce_def)
  moreover have ext: "x_rt std_ext = std_runtime" "x_aes std_ext = xor_cipher" by (simp_all add: std_ext_def)
  moreover have "crypt_wf (cl_crypt_state demo_peer)" unfolding demo by (simp add: crypt_wf_def crypt_default_def)
  ultimately have "cl_crypt_state c' = crypt_reset 5 (cl_crypt_state demo_peer) \<and> res = Inr () \<and>
      (\<exists>frame setup. cl_write c' = Some (?w\<lparr>tw_sent := tw_sent ?w @ frame\<rparr>) \<and>
         expected_message (CryptSetup_parse std_runtime) KCryptSetup frame = Inr (setup, []))"
    using crypt_setup_synchronises [of std_ext "Ping 5" "Ping 6" demo_peer ?w 5 True c' res 9] s demo(2,3)
    by (auto simp: std_runtime_ok xor_cipher_ok)
  then show ?thesis using s by (auto simp: crypt_reset_def)
qed

text \<open>
  The voice target slots. The ids 1 to 30 of the protocol name the thirty slots of a client, in
  order, and no other id names one; in particular the subtraction that wraps around at 0 does not
  reach a slot.
\<close>

lemma get_target_slots:
  assumes "length (cl_targets c) = 30"
  shows "get_target c ident =
    (if 1 \<le> ident \<and> ident \<le> 30 then Some (cl_targets c ! (unat ident - 1)) else None)"
proof (cases "ident = 0")
  case True
  have "unat (- 1 :: u8) = 255" by (simp add: unsigned_minus_1_eq_mask mask_eq_exp_minus_1)
  then show ?thesis using True assms by (simp add: get_target_def)
next
  case False
  then have "unat (ident - 1) = unat ident - 1" by (simp add: unat_minus_one)
  moreover from False have "0 < unat ident" by (simp add: unat_gt_0)
  ultimately show ?thesis
    using assms by (auto simp: get_target_def word_le_nat_alt Let_def)
qed

end
