(* ===== verification/Bans.thy ===== *)
theory Bans
  imports Client
begin

text \<open>
  The persistent list of bans and mutes, \<open>BanList\<close> of \<open>src/src/anticheat.rs\<close>. The file system is
  a map from paths to contents; the JSON printer and parser of the list are parameters (serde).
\<close>

section \<open>State\<close>

record ban_entry =
  be_id :: u64
  be_kind :: string
  be_ip :: "string option"
  be_name :: "string option"
  be_display :: string
  be_reason :: string
  be_at :: string

record ban_list =
  bl_bans :: "ban_entry list"
  bl_next_id :: u64
  bl_file :: "string option"

text \<open>The file system: the contents of the files, and whether the next write succeeds.\<close>

record disk =
  d_files :: "string \<Rightarrow> string option"
  d_writable :: bool

definition write_file :: "string \<Rightarrow> string \<Rightarrow> disk \<Rightarrow> disk" where
  "write_file path data d = (if d_writable d then d\<lparr>d_files := (d_files d)(path \<mapsto> data)\<rparr> else d)"

text \<open>\<open>serde_json\<close> on the list of bans, and what the code relies on.\<close>

record ban_json =
  bj_print :: "ban_entry list \<Rightarrow> string"
  bj_parse :: "string \<Rightarrow> ban_entry list option"

definition ban_json_ok :: "ban_json \<Rightarrow> bool" where
  "ban_json_ok j \<longleftrightarrow> (\<forall>bs. bj_parse j (bj_print j bs) = Some bs)"

section \<open>Operations\<close>

definition name_part :: "string \<Rightarrow> string" where
  "name_part username = (case after_pattern ''] '' username of Some rest \<Rightarrow> trim rest | None \<Rightarrow> trim username)"

text \<open>\<open>secs\<close> since the epoch to hours, minutes and seconds.\<close>

definition hms_now :: "nat \<Rightarrow> string" where
  "hms_now epoch = pad 2 (epoch div 3600 mod 24) @ '':'' @ pad 2 (epoch div 60 mod 60) @ '':'' @ pad 2 (epoch mod 60)"

definition bans_load :: "ban_json \<Rightarrow> string option \<Rightarrow> disk \<Rightarrow> ban_list" where
  "bans_load j file d =
     (case Option.bind (Option.bind file (d_files d)) (bj_parse j) of
        Some v \<Rightarrow> \<lparr>bl_bans = v, bl_next_id = fold (\<lambda>b. max (be_id b)) v 0 + 1, bl_file = file\<rparr>
      | None \<Rightarrow> \<lparr>bl_bans = [], bl_next_id = 1, bl_file = file\<rparr>)"

definition bans_save :: "ban_json \<Rightarrow> ban_list \<Rightarrow> disk \<Rightarrow> disk" where
  "bans_save j b d = (case bl_file b of Some f \<Rightarrow> write_file f (bj_print j (bl_bans b)) d | None \<Rightarrow> d)"

definition ban_matches :: "ban_entry \<Rightarrow> string \<Rightarrow> string \<Rightarrow> bool" where
  "ban_matches entry ip nm =
     (be_ip entry = Some ip \<or>
      (case be_name entry of Some bn \<Rightarrow> bn \<noteq> [] \<and> eq_ignore_ascii_case bn nm | None \<Rightarrow> False))"

definition is_banned :: "ban_list \<Rightarrow> string \<Rightarrow> string \<Rightarrow> string option" where
  "is_banned b ip nm =
     map_option be_reason (List.find (\<lambda>e. be_kind e = ''ban'' \<and> ban_matches e ip nm) (bl_bans b))"

definition is_muted :: "ban_list \<Rightarrow> string \<Rightarrow> string \<Rightarrow> bool" where
  "is_muted b ip nm = list_ex (\<lambda>e. be_kind e = ''mute'' \<and> ban_matches e ip nm) (bl_bans b)"

definition bans_add ::
    "ban_json \<Rightarrow> nat \<Rightarrow> string \<Rightarrow> string option \<Rightarrow> string option \<Rightarrow> string \<Rightarrow> string \<Rightarrow>
       ban_list \<times> disk \<Rightarrow> ban_list \<times> disk" where
  "bans_add j epoch kind ip nm display reason bd =
     (let (b, d) = bd;
          entry = \<lparr>be_id = bl_next_id b, be_kind = kind, be_ip = ip, be_name = nm, be_display = display,
            be_reason = reason, be_at = hms_now epoch\<rparr>;
          b = b\<lparr>bl_next_id := bl_next_id b + 1, bl_bans := bl_bans b @ [entry]\<rparr>
      in (b, bans_save j b d))"

definition bans_remove :: "ban_json \<Rightarrow> u64 \<Rightarrow> ban_list \<times> disk \<Rightarrow> ban_list \<times> disk" where
  "bans_remove j ident bd =
     (let (b, d) = bd; b = b\<lparr>bl_bans := filter (\<lambda>e. be_id e \<noteq> ident) (bl_bans b)\<rparr>
      in (b, bans_save j b d))"

definition bans_remove_matching ::
    "ban_json \<Rightarrow> string \<Rightarrow> string \<Rightarrow> string \<Rightarrow> ban_list \<times> disk \<Rightarrow> ban_list \<times> disk" where
  "bans_remove_matching j ip nm kind bd =
     (let (b, d) = bd;
          b = b\<lparr>bl_bans := filter (\<lambda>e. \<not> (be_kind e = kind \<and> ban_matches e ip nm)) (bl_bans b)\<rparr>
      in (b, bans_save j b d))"

definition bans_list :: "ban_list \<Rightarrow> ban_entry list" where
  "bans_list b = bl_bans b"

section \<open>The invariant\<close>

text \<open>Ids are distinct and below the next id.\<close>

definition bans_wf :: "ban_list \<Rightarrow> bool" where
  "bans_wf b \<longleftrightarrow> distinct (map be_id (bl_bans b)) \<and> (\<forall>e \<in> set (bl_bans b). be_id e < bl_next_id b)"

lemma bans_wf_filter: "bans_wf b \<Longrightarrow> bans_wf (b\<lparr>bl_bans := filter p (bl_bans b)\<rparr>)"
  by (auto simp: bans_wf_def distinct_map_filter)

lemma less_plus_one: "x \<noteq> - 1 \<Longrightarrow> x < x + (1 :: u64)"
  using unatSuc [of x] by (auto simp: word_less_nat_alt add.commute add_eq_0_iff)

lemma bans_wf_add:
  assumes "bans_wf b" and "bl_next_id b \<noteq> - 1"
  shows "bans_wf (fst (bans_add j epoch kind ip nm display reason (b, d)))"
  using assms(1) less_plus_one [OF assms(2)]
  by (auto simp: bans_add_def bans_wf_def Let_def intro: less_trans)

lemma fold_max_ge: "acc \<le> fold (\<lambda>b. max (f b)) v acc \<and> (\<forall>e \<in> set v. f e \<le> fold (\<lambda>b. max (f b)) v (acc :: u64))"
proof (induction v arbitrary: acc)
  case (Cons b v)
  from Cons [of "max (f b) acc"] show ?case by auto
qed simp

lemma fold_max_in: "fold (\<lambda>b. max (f b)) v (acc :: u64) \<in> insert acc (f ` set v)"
proof (induction v arbitrary: acc)
  case (Cons b v)
  from Cons [of "max (f b) acc"] show ?case by (auto simp: max_def split: if_splits)
qed simp

lemma bans_wf_load:
  assumes "bans_load j file d = b" and "distinct (map be_id (bl_bans b))"
    and "\<forall>e \<in> set (bl_bans b). be_id e \<noteq> - 1"
  shows "bans_wf b"
proof (cases "Option.bind (Option.bind file (d_files d)) (bj_parse j)")
  case None
  with assms(1) show ?thesis by (auto simp: bans_load_def bans_wf_def)
next
  case (Some v)
  let ?m = "fold (\<lambda>b. max (be_id b)) v 0"
  from Some assms(1) have b: "bl_bans b = v" "bl_next_id b = ?m + 1" by (auto simp: bans_load_def)
  have "?m \<noteq> - 1" using fold_max_in [of be_id v 0] assms(3) b(1) by auto
  then have "?m < bl_next_id b" using less_plus_one b(2) by simp
  with fold_max_ge [where f = be_id and v = v and acc = 0] assms(2) b(1) show ?thesis
    by (auto simp: bans_wf_def intro: le_less_trans)
qed

lemma is_banned_eq_None_iff:
  "is_banned b ip nm = None \<longleftrightarrow>
    (\<forall>e \<in> set (bl_bans b). \<not> (be_kind e = ''ban'' \<and> ban_matches e ip nm))"
  by (auto simp: is_banned_def find_None_iff)

lemma load_added:
  assumes "ban_json_ok j" and "bl_file b = Some f" and "d_writable d"
    and "bans_add j epoch kind ip nm display reason (b, d) = (b', d')"
  shows "bl_bans (bans_load j (Some f) d') = bl_bans b'"
proof -
  have "d_files d' f = Some (bj_print j (bl_bans b'))"
    using assms(2-4) by (auto simp: bans_add_def bans_save_def write_file_def Let_def)
  with assms(1) show ?thesis by (simp add: bans_load_def ban_json_ok_def)
qed

section \<open>Properties\<close>

text \<open>
  C25: A ban is found again under a new session id. FiveM names a player \<open>[id] name\<close> with an id that
  changes at every connection; a ban entered with the name part of one such name refuses every
  later connection with the same name part, in any capitalisation, and every one from the same
  address.
\<close>

theorem ban_outlives_session_id:
  assumes "fst (bans_add j epoch ''ban'' (Some ip) (Some (name_part (''['' @ i @ ''] '' @ nm))) display reason bd) = b"
    and "\<not> sublist ''] '' (''['' @ i @ '']'')" and "\<not> sublist ''] '' (''['' @ i' @ '']'')"
    and "eq_ignore_ascii_case (trim nm) (trim nm')" and "trim nm \<noteq> []"
  shows "is_banned b ip' (name_part (''['' @ i' @ ''] '' @ nm')) \<noteq> None \<and> is_banned b ip nm'' \<noteq> None"
proof -
  have part: "name_part (''['' @ k @ ''] '' @ n) = trim n" if "\<not> sublist ''] '' (''['' @ k @ '']'')" for k n
    using after_pattern_split [of "''] ''" "''['' @ k" n] that by (simp add: name_part_def)
  let ?e = "\<lparr>be_id = bl_next_id (fst bd), be_kind = ''ban'', be_ip = Some ip,
    be_name = Some (trim nm), be_display = display, be_reason = reason, be_at = hms_now epoch\<rparr>"
  have "?e \<in> set (bl_bans b)"
    using assms(1) part [OF assms(2)] by (auto simp: bans_add_def Let_def case_prod_unfold)
  moreover have "ban_matches ?e ip' (name_part (''['' @ i' @ ''] '' @ nm'))" and "ban_matches ?e ip nm''"
    using assms(4,5) part [OF assms(3)] by (simp_all add: ban_matches_def)
  ultimately show ?thesis by (force simp: is_banned_eq_None_iff)
qed

theorem ban_outlives_session_id_witness:
  "is_banned (fst (bans_add \<lparr>bj_print = (\<lambda>_. []), bj_parse = (\<lambda>_. None)\<rparr> 0 ''ban'' (Some ''1.2.3.4'')
     (Some (name_part (''['' @ ''36'' @ ''] '' @ ''Bob''))) ''x'' ''y''
     (\<lparr>bl_bans = [], bl_next_id = 1, bl_file = None\<rparr>, \<lparr>d_files = Map.empty, d_writable = True\<rparr>)))
     ''5.6.7.8'' (name_part (''['' @ ''40'' @ ''] '' @ ''bOB'')) \<noteq> None"
  by (rule conjunct1, rule ban_outlives_session_id [OF refl]) code_simp+

text \<open>
  Unbanning takes effect and touches nobody else. After \<open>remove_matching\<close> no entry of the kind
  matches the player any more, and for any other address and name the answer changes only where
  every matching ban also matched the player.
\<close>

lemma unban_effective:
  assumes "fst (bans_remove_matching j ip nm ''ban'' (b, d)) = b'"
  shows "is_banned b' ip nm = None \<and>
    (is_muted b' ip' nm' \<longleftrightarrow> is_muted b ip' nm') \<and>
    (is_banned b' ip' nm' = None \<longleftrightarrow>
      (\<forall>e \<in> set (bl_bans b). be_kind e = ''ban'' \<and> ban_matches e ip' nm' \<longrightarrow> ban_matches e ip nm))"
  using assms unfolding is_banned_eq_None_iff
  by (auto simp: bans_remove_matching_def Let_def is_muted_def list_ex_iff)

text \<open>
  C26: Bans survive a restart. With a writable file the list that is loaded after an entry was added
  is the list in memory, so every connection is judged as before, and the ids stay distinct and
  below the next id.
\<close>

theorem bans_survive_restart:
  assumes "ban_json_ok j" and "bl_file b = Some f" and "d_writable d" and "bans_wf b"
    and "bl_next_id b \<noteq> - 1" and "bans_add j epoch kind ip nm display reason (b, d) = (b', d')"
  shows "is_banned (bans_load j (Some f) d') ip' nm' = is_banned b' ip' nm' \<and>
    is_muted (bans_load j (Some f) d') ip' nm' = is_muted b' ip' nm' \<and>
    bans_list (bans_load j (Some f) d') = bans_list b' \<and> bans_wf (bans_load j (Some f) d')"
proof -
  have wf: "bans_wf b'"
    using bans_wf_add [OF assms(4,5), of j epoch kind ip nm display reason d] assms(6) by simp
  have load: "bl_bans (bans_load j (Some f) d') = bl_bans b'" by (rule load_added [OF assms(1,2,3,6)])
  have "be_id e \<noteq> - 1" if "e \<in> set (bl_bans b')" for e
    using wf that word_n1_ge [of "bl_next_id b'"] by (force simp: bans_wf_def)
  with wf load have "bans_wf (bans_load j (Some f) d')"
    by (intro bans_wf_load [OF refl]) (simp_all add: bans_wf_def)
  with load show ?thesis by (simp add: is_banned_def is_muted_def bans_list_def)
qed

text \<open>A printer and parser for the witness: fields escaped and terminated one after the other.\<close>

fun esc :: "string \<Rightarrow> string" where
  "esc [] = ''.''"
| "esc (c # s) = CHR ''-'' # c # esc s"

fun unesc :: "string \<Rightarrow> (string \<times> string) option" where
  "unesc [] = None"
| "unesc [c] = (if c = CHR ''.'' then Some ([], []) else None)"
| "unesc (c # d # s) = (if c = CHR ''.'' then Some ([], d # s)
     else map_option (\<lambda>(a, r). (d # a, r)) (unesc s))"

fun unesc_all :: "nat \<Rightarrow> string \<Rightarrow> string list" where
  "unesc_all 0 s = []"
| "unesc_all (Suc n) s = (case unesc s of None \<Rightarrow> [] | Some (a, r) \<Rightarrow> a # unesc_all n r)"

definition opt_string :: "string option \<Rightarrow> string" where
  "opt_string v = (case v of None \<Rightarrow> [] | Some s \<Rightarrow> CHR ''s'' # s)"

definition string_opt :: "string \<Rightarrow> string option" where
  "string_opt s = (case s of [] \<Rightarrow> None | _ # s \<Rightarrow> Some s)"

definition entry_strings :: "ban_entry \<Rightarrow> string list" where
  "entry_strings e = [replicate (unat (be_id e)) CHR ''1'', be_kind e, opt_string (be_ip e),
     opt_string (be_name e), be_display e, be_reason e, be_at e]"

fun string_entries :: "string list \<Rightarrow> ban_entry list" where
  "string_entries (a # b # c # d # e # f # g # r) =
     \<lparr>be_id = word_of_nat (length a), be_kind = b, be_ip = string_opt c, be_name = string_opt d,
      be_display = e, be_reason = f, be_at = g\<rparr> # string_entries r"
| "string_entries _ = []"

definition std_ban_json :: ban_json where
  "std_ban_json = \<lparr>bj_print = (\<lambda>bs. concat (map esc (concat (map entry_strings bs)))),
     bj_parse = (\<lambda>s. Some (string_entries (unesc_all (length s) s)))\<rparr>"

lemma unesc_esc: "unesc (esc s @ r) = Some (s, r)"
proof (induction s)
  case Nil
  then show ?case by (cases r) simp_all
qed simp

lemma unesc_all_esc: "length fs \<le> n \<Longrightarrow> unesc_all n (concat (map esc fs)) = fs"
proof (induction fs arbitrary: n)
  case Nil
  then show ?case by (cases n) simp_all
next
  case (Cons a fs)
  then show ?case by (cases n) (simp_all add: unesc_esc)
qed

lemma length_concat_esc: "length fs \<le> length (concat (map esc fs))"
proof (induction fs)
  case (Cons a fs)
  obtain x xs where "esc a = x # xs" by (cases a) simp_all
  with Cons show ?case by simp
qed simp

lemma std_ban_json_ok: "ban_json_ok std_ban_json"
proof -
  have opt: "string_opt (opt_string v) = v" for v
    by (cases v) (simp_all add: string_opt_def opt_string_def)
  have "string_entries (concat (map entry_strings bs)) = bs" for bs
    by (induction bs) (simp_all add: entry_strings_def opt)
  then show ?thesis
    by (simp add: ban_json_ok_def std_ban_json_def unesc_all_esc [OF length_concat_esc])
qed

theorem bans_survive_restart_witness:
  "\<exists>b' d'. bans_add std_ban_json 0 ''ban'' (Some ''1.2.3.4'') None ''Bob'' ''r''
      (\<lparr>bl_bans = [], bl_next_id = 1, bl_file = Some ''bans.json''\<rparr>,
       \<lparr>d_files = Map.empty, d_writable = True\<rparr>) = (b', d') \<and>
    is_banned (bans_load std_ban_json (Some ''bans.json'') d') ''1.2.3.4'' ''x'' = Some ''r''"
proof -
  let ?b = "\<lparr>bl_bans = [], bl_next_id = 1, bl_file = Some ''bans.json''\<rparr>"
  let ?d = "\<lparr>d_files = Map.empty, d_writable = True\<rparr>"
  obtain b' d' where a: "bans_add std_ban_json 0 ''ban'' (Some ''1.2.3.4'') None ''Bob'' ''r'' (?b, ?d) =
      (b', d')" by (rule prod.exhaust)
  have "is_banned (bans_load std_ban_json (Some ''bans.json'') d') ''1.2.3.4'' ''x'' =
      is_banned b' ''1.2.3.4'' ''x''"
    using bans_survive_restart [OF std_ban_json_ok _ _ _ _ a] by (simp add: bans_wf_def)
  moreover have "is_banned b' ''1.2.3.4'' ''x'' = Some ''r''"
    using a by (auto simp: bans_add_def is_banned_def ban_matches_def Let_def)
  ultimately show ?thesis using a by auto
qed

end
