(* ===== verification/Anticheat.thy ===== *)
theory Anticheat
  imports Bans
begin

text \<open>
  The anticheat configuration of \<open>src/src/anticheat.rs\<close> and what the voice path records per client:
  targets, positions, and who spoke to whom. The periodic evaluation of all clients is in
  \<open>Sample\<close>.
\<close>

section \<open>Constants and configuration\<close>

definition LOG_CAPACITY :: nat where "LOG_CAPACITY = 100"
definition FLAG_COOLDOWN :: nat where "FLAG_COOLDOWN = secs 3"
definition POS_OSC_WINDOW :: nat where "POS_OSC_WINDOW = secs 30"
definition POS_HIST_CAP :: nat where "POS_HIST_CAP = 16"
definition POS_FRESH :: nat where "POS_FRESH = secs 10"
definition HEARD_CAP :: nat where "HEARD_CAP = 256"
definition HEARD_FLUSH_EVERY :: u32 where "HEARD_FLUSH_EVERY = 30"

definition ACTION_LOG :: u8 where "ACTION_LOG = 0"
definition ACTION_MUTE :: u8 where "ACTION_MUTE = 1"
definition ACTION_KICK :: u8 where "ACTION_KICK = 2"
definition ACTION_BAN :: u8 where "ACTION_BAN = 3"

lemmas action_defs = ACTION_LOG_def ACTION_MUTE_def ACTION_KICK_def ACTION_BAN_def

definition key_channel :: "u32 \<Rightarrow> u64" where
  "key_channel ident = ucast ident"

definition key_session :: "u32 \<Rightarrow> u64" where
  "key_session ident = push_bit 40 1 OR ucast ident"

definition parse_action :: "string \<Rightarrow> u8" where
  "parse_action action =
     (if action = ''mute'' then ACTION_MUTE else if action = ''kick'' then ACTION_KICK
      else if action = ''ban'' then ACTION_BAN else ACTION_LOG)"

definition action_name :: "u8 \<Rightarrow> string" where
  "action_name action =
     (if action = ACTION_MUTE then ''mute'' else if action = ACTION_KICK then ''kick''
      else if action = ACTION_BAN then ''ban'' else ''log'')"

text \<open>Days since the epoch to year, month and day; Rust's \<open>/\<close> truncates, which agrees with \<open>div\<close> on what is divided here.\<close>

definition civil_from_days :: "int \<Rightarrow> int \<times> nat \<times> nat" where
  "civil_from_days z0 =
     (let z = z0 + 719468;
          era = (if z \<ge> 0 then z div 146097 else - ((146096 - z) div 146097));
          doe = z - era * 146097;
          yoe = (doe - doe div 1460 + doe div 36524 - doe div 146096) div 365;
          y = yoe + era * 400;
          doy = doe - (365 * yoe + yoe div 4 - yoe div 100);
          mp = (5 * doy + 2) div 153;
          d = doy - (153 * mp + 2) div 5 + 1;
          m = (if mp < 10 then mp + 3 else mp - 9)
      in (if m \<le> 2 then y + 1 else y, nat m, nat d))"

definition iso8601_now :: "nat \<Rightarrow> string" where
  "iso8601_now epoch =
     (let (y, m, d) = civil_from_days (int (epoch div 86400)); rem = epoch mod 86400
      in pad 4 (nat y) @ ''-'' @ pad 2 m @ ''-'' @ pad 2 d @ ''T'' @ pad 2 (rem div 3600) @ '':'' @
         pad 2 (rem mod 3600 div 60) @ '':'' @ pad 2 (rem mod 60) @ ''Z'')"

record persisted_heard_entry =
  ph_session_id :: u32
  ph_name :: string
  ph_ip :: string
  ph_epoch :: nat
  ph_secs :: u32

type_synonym persisted_heard = "(string, (string, persisted_heard_entry) hindex) hindex"

record anticheat_config =
  acc_enabled :: bool
  acc_threshold_pct :: u32
  acc_min_recipients :: u32
  acc_mutuality_max_pct :: u32
  acc_window_secs :: u32
  acc_strikes_required :: u32
  acc_listen_max :: u32
  acc_pos_osc_dist :: u32
  acc_pos_osc_max :: u32
  acc_pos_far_dist :: u32
  acc_pos_far_min :: u32
  acc_pos_far_pct :: u32
  acc_heard_secs :: u32
  acc_hide_ips :: bool
  acc_heard_file :: "string option"
  acc_heard_seed :: persisted_heard
  acc_action :: u8
  acc_webhook :: "string option"
  acc_panel_url :: "string option"
  acc_server_label :: string
  acc_logs :: "string list"

definition non_empty :: "string option \<Rightarrow> string option" where
  "non_empty v = (case v of Some s \<Rightarrow> if s = [] then None else Some s | None \<Rightarrow> None)"

definition anticheat_new ::
    "bool \<Rightarrow> u32 \<Rightarrow> u32 \<Rightarrow> u32 \<Rightarrow> u32 \<Rightarrow> u32 \<Rightarrow> u32 \<Rightarrow> u8 \<Rightarrow> string option \<Rightarrow> string option \<Rightarrow>
       string \<Rightarrow> anticheat_config" where
  "anticheat_new on threshold_pct min_recipients mutuality_max_pct window_secs strikes_required
     listen_max action webhook panel_url server_label =
     \<lparr>acc_enabled = on,
      acc_threshold_pct = max 1 (min 100 threshold_pct),
      acc_min_recipients = min_recipients,
      acc_mutuality_max_pct = min mutuality_max_pct 100,
      acc_window_secs = max window_secs 1,
      acc_strikes_required = max strikes_required 1,
      acc_listen_max = listen_max,
      acc_pos_osc_dist = 300, acc_pos_osc_max = 0,
      acc_pos_far_dist = 500, acc_pos_far_min = 15, acc_pos_far_pct = 70,
      acc_heard_secs = 900, acc_hide_ips = False, acc_heard_file = None, acc_heard_seed = [],
      acc_action = action, acc_webhook = non_empty webhook, acc_panel_url = non_empty panel_url,
      acc_server_label = server_label, acc_logs = []\<rparr>"

section \<open>The log\<close>

definition recent_logs :: "anticheat_config \<Rightarrow> string list" where
  "recent_logs cfg = rev (acc_logs cfg)"

definition clear_logs :: "anticheat_config \<Rightarrow> anticheat_config" where
  "clear_logs cfg = cfg\<lparr>acc_logs := []\<rparr>"

definition push_log :: "string \<Rightarrow> anticheat_config \<Rightarrow> anticheat_config" where
  "push_log line cfg =
     (let logs = acc_logs cfg; logs = (if length logs \<ge> LOG_CAPACITY then tl logs else logs)
      in cfg\<lparr>acc_logs := logs @ [line]\<rparr>)"

section \<open>Recording\<close>

definition window_of :: "anticheat_config \<Rightarrow> nat" where
  "window_of cfg = secs (unat (max (acc_window_secs cfg) 1))"

definition record_targets :: "anticheat_config \<Rightarrow> instant \<Rightarrow> u64 list \<Rightarrow> client \<Rightarrow> client" where
  "record_targets cfg now keys c =
     (if \<not> acc_enabled cfg then c
      else
        let w = fold (\<lambda>k. hm_put k now) keys (ac_window (cl_ac c));
            w = hi_retain (\<lambda>_ t. duration_since now t \<le> window_of cfg) w
        in c\<lparr>cl_ac := (cl_ac c)\<lparr>ac_window := w\<rparr>\<rparr>)"

definition note_emission :: "anticheat_config \<Rightarrow> u32 \<Rightarrow> client \<Rightarrow> client" where
  "note_emission cfg recipients c =
     (if \<not> acc_enabled cfg then c
      else c\<lparr>cl_ac := (cl_ac c)\<lparr>ac_max_recipients := max (ac_max_recipients (cl_ac c)) recipients\<rparr>\<rparr>)"

text \<open>\<open>min_by_key\<close>: the first entry with the least key.\<close>

fun oldest :: "(string, heard_entry) hindex \<Rightarrow> string option" where
  "oldest [] = None"
| "oldest ((k, e) # m) =
     (case oldest m of
        None \<Rightarrow> Some k
      | Some k' \<Rightarrow> (case hi_get m k' of
          Some e' \<Rightarrow> if he_last e \<le> he_last e' then Some k else Some k'
        | None \<Rightarrow> Some k))"

definition heard_retention :: "anticheat_config \<Rightarrow> nat" where
  "heard_retention cfg = secs (unat (max (acc_heard_secs cfg) 10))"

definition heard_make_room ::
    "anticheat_config \<Rightarrow> instant \<Rightarrow> string \<Rightarrow> (string, heard_entry) hindex \<Rightarrow> (string, heard_entry) hindex" where
  "heard_make_room cfg now k heard =
     (if length heard \<ge> HEARD_CAP \<and> \<not> hi_contains heard k then
        let heard = hi_retain (\<lambda>_ e. duration_since now (he_last e) \<le> heard_retention cfg) heard
        in if length heard \<ge> HEARD_CAP
           then (case oldest heard of Some k' \<Rightarrow> hi_remove k' heard | None \<Rightarrow> heard)
           else heard
      else heard)"

text \<open>\<open>speaker\<close> spoke to \<open>listener\<close>; the listener's record changes.\<close>

definition note_heard :: "anticheat_config \<Rightarrow> instant \<Rightarrow> client \<Rightarrow> client \<Rightarrow> client" where
  "note_heard cfg now speaker listener =
     (let k = name_part (cl_name speaker);
          heard = heard_make_room cfg now k (ac_heard (cl_ac listener));
          fresh = \<lparr>he_session_id = cl_session_id speaker, he_name = cl_name speaker,
            he_ip = ip_string (cl_peer_ip speaker), he_last = now, he_secs = 0\<rparr>;
          heard = hi_insert k fresh heard;
          update = (\<lambda>e. let e = (if he_session_id e \<noteq> cl_session_id speaker
                       then e\<lparr>he_session_id := cl_session_id speaker, he_name := cl_name speaker,
                              he_ip := ip_string (cl_peer_ip speaker)\<rparr>
                       else e)
                    in e\<lparr>he_last := now, he_secs := he_secs e + 1\<rparr>)
      in listener\<lparr>cl_ac := (cl_ac listener)\<lparr>ac_heard := hi_modify k update heard\<rparr>\<rparr>)"

section \<open>Persistence\<close>

record heard_json =
  hj_print :: "persisted_heard \<Rightarrow> string"
  hj_parse :: "string \<Rightarrow> persisted_heard option"

definition init_heard_persistence ::
    "heard_json \<Rightarrow> nat \<Rightarrow> string \<Rightarrow> disk \<Rightarrow> anticheat_config \<Rightarrow> anticheat_config" where
  "init_heard_persistence j now_epoch path d cfg =
     (let retention = unat (max (acc_heard_secs cfg) 10);
          cfg = (case Option.bind (d_files d path) (hj_parse j) of
            Some seed \<Rightarrow>
              let seed = map (\<lambda>(k, l). (k, hi_retain (\<lambda>_ e. now_epoch - ph_epoch e \<le> retention) l)) seed
              in cfg\<lparr>acc_heard_seed := hi_retain (\<lambda>_ l. l \<noteq> []) seed\<rparr>
          | None \<Rightarrow> cfg)
      in cfg\<lparr>acc_heard_file := Some path\<rparr>)"

definition seed_entry :: "instant \<Rightarrow> nat \<Rightarrow> persisted_heard_entry \<Rightarrow> heard_entry" where
  "seed_entry now now_epoch e =
     \<lparr>he_session_id = ph_session_id e, he_name = ph_name e, he_ip = ph_ip e,
      he_last = now - int (secs (now_epoch - ph_epoch e)), he_secs = ph_secs e\<rparr>"

definition seed_heard ::
    "instant \<Rightarrow> nat \<Rightarrow> anticheat_config \<Rightarrow> client \<Rightarrow> anticheat_config \<times> client" where
  "seed_heard now now_epoch cfg c =
     (let k = name_part (cl_name c) in
      case hi_get (acc_heard_seed cfg) k of
        None \<Rightarrow> (cfg, c)
      | Some entries \<Rightarrow>
          (cfg\<lparr>acc_heard_seed := hi_remove k (acc_heard_seed cfg)\<rparr>,
           c\<lparr>cl_ac := (cl_ac c)\<lparr>ac_heard :=
             fold (\<lambda>(speaker, e). hi_insert speaker (seed_entry now now_epoch e)) entries (ac_heard (cl_ac c))\<rparr>\<rparr>))"

section \<open>Positions\<close>

definition f32_half :: f32 where "f32_half = 0x3F000000"

definition count_returns :: "(instant \<times> (f32 \<times> f32 \<times> f32) \<times> bool) list \<Rightarrow> u32" where
  "count_returns hist = word_of_nat (length (filter (\<lambda>(_, _, r). r) hist))"

definition note_speed :: "instant \<Rightarrow> f32 \<times> f32 \<times> f32 \<Rightarrow> ac_stats \<Rightarrow> ac_stats" where
  "note_speed now p a =
     (let dt = as_secs_f32 (duration_since now (ac_last_pos_time a)) in
      if ac_has_pos a \<and> f32_lt 0 dt \<and> f32_lt dt f32_half then
        let speed = f32_div (f32_sqrt (dist2 p (ac_pos_x a, ac_pos_y a, ac_pos_z a))) dt
        in if f32_lt (ac_max_speed a) speed then a\<lparr>ac_max_speed := speed\<rparr> else a
      else a)"

definition note_place :: "anticheat_config \<Rightarrow> instant \<Rightarrow> f32 \<times> f32 \<times> f32 \<Rightarrow> ac_stats \<Rightarrow> ac_stats" where
  "note_place cfg now p a =
     (let osc_dist = f32_of_int (uint (acc_pos_osc_dist cfg)) in
      if f32_le osc_dist 0 then a
      else
        let hist = ac_pos_hist a;
            moved = (case hist of [] \<Rightarrow> True
                     | _ \<Rightarrow> f32_lt (f32_mul osc_dist osc_dist) (dist2 p (fst (snd (last hist)))))
        in if moved then
             let rr = f32_mul (f32_mul osc_dist f32_half) (f32_mul osc_dist f32_half);
                 is_return = list_ex (\<lambda>(_, h, _). f32_lt (dist2 p h) rr) hist;
                 hist = hist @ [(now, p, is_return)];
                 hist = drop (length hist - POS_HIST_CAP) hist;
                 hist = filter (\<lambda>(t, _). duration_since now t \<le> POS_OSC_WINDOW) hist
             in a\<lparr>ac_pos_hist := hist, ac_pos_jumps := count_returns hist\<rparr>
           else a)"

definition note_position :: "anticheat_config \<Rightarrow> instant \<Rightarrow> f32 \<times> f32 \<times> f32 \<Rightarrow> client \<Rightarrow> client" where
  "note_position cfg now p c =
     (if \<not> acc_enabled cfg then c
      else
        let a = note_speed now p (cl_ac c);
            (x, y, z) = p;
            a = a\<lparr>ac_has_pos := True, ac_pos_x := x, ac_pos_y := y, ac_pos_z := z, ac_last_pos_time := now\<rparr>
        in c\<lparr>cl_ac := note_place cfg now p a\<rparr>)"

section \<open>Lemmas\<close>

lemma oldest_SomeD:
  assumes "hi_wf m" and "oldest m = Some k"
  shows "\<exists>e. hi_get m k = Some e \<and> (\<forall>(k', e') \<in> set m. he_last e \<le> he_last e')"
  using assms
proof (induction m arbitrary: k)
  case Nil
  then show ?case by simp
next
  case (Cons x m)
  obtain k0 e0 where x: "x = (k0, e0)" by (cases x)
  show ?case
  proof (cases "oldest m")
    case None
    have "m = []"
    proof (cases m)
      case (Cons y ys)
      with None show ?thesis by (cases y) (auto split: option.splits if_splits)
    qed
    with Cons.prems(2) None x show ?thesis by (simp add: hi_get_def)
  next
    case (Some k1)
    have wf: "hi_wf m" and new: "k0 \<notin> fst ` set m" using Cons.prems(1) x by (auto simp: hi_wf_def)
    from Cons.IH [OF wf Some] obtain e1 where e1: "hi_get m k1 = Some e1"
      "\<forall>(k', e') \<in> set m. he_last e1 \<le> he_last e'" by blast
    show ?thesis
    proof (cases "he_last e0 \<le> he_last e1")
      case True
      with Cons.prems(2) Some e1 x have "k = k0" by simp
      moreover have "\<forall>(k', e') \<in> set m. he_last e0 \<le> he_last e'"
        using e1(2) True by fastforce
      ultimately show ?thesis by (simp add: x hi_get_def)
    next
      case False
      with Cons.prems(2) Some e1 x have k: "k = k1" by simp
      have "k1 \<noteq> k0" using new hi_get_SomeD [OF e1(1)] by force
      with e1 False k x show ?thesis by (auto simp: hi_get_def)
    qed
  qed
qed

lemma oldest_None_iff: "oldest m = None \<longleftrightarrow> m = []"
  by (cases m rule: oldest.cases) (auto split: option.splits if_splits)

lemma drop_oldest:
  assumes "hi_wf r" and "r \<noteq> []"
  obtains k e where "oldest r = Some k" "hi_get r k = Some e" "length (hi_remove k r) < length r"
    "\<forall>k' e'. hi_get r k' = Some e' \<longrightarrow> he_last e \<le> he_last e'"
proof -
  from assms(2) obtain k where k: "oldest r = Some k" by (cases "oldest r") (auto simp: oldest_None_iff)
  from oldest_SomeD [OF assms(1) k] obtain e where e: "hi_get r k = Some e"
    "\<forall>(k', e') \<in> set r. he_last e \<le> he_last e'" by blast
  have "length (hi_remove k r) < length r"
    using hi_length_remove [OF assms(1), of k] e(1) assms(2) by simp
  with k e show thesis by (intro that) (auto dest: hi_get_SomeD)
qed

text \<open>What making room in a full table does: the result has room unless the key is there already.\<close>

lemma heard_make_room_cases:
  assumes "hi_wf h"
  obtains (same) "heard_make_room cfg now k h = h" "length h < HEARD_CAP \<or> hi_contains h k"
  | (room) "HEARD_CAP \<le> length h" "\<not> hi_contains h k" "length (heard_make_room cfg now k h) < length h"
      "hi_wf (heard_make_room cfg now k h)"
      "\<And>k' e'. hi_get (heard_make_room cfg now k h) k' = Some e' \<Longrightarrow> hi_get h k' = Some e'"
      "\<And>k' e'. hi_get h k' = Some e' \<Longrightarrow> hi_get (heard_make_room cfg now k h) k' = None \<Longrightarrow>
         heard_retention cfg < duration_since now (he_last e') \<or>
         (\<forall>k2 e2. hi_get h k2 = Some e2 \<longrightarrow> duration_since now (he_last e2) \<le> heard_retention cfg \<longrightarrow>
            he_last e' \<le> he_last e2)"
  | (expired) "HEARD_CAP \<le> length h" "\<not> hi_contains h k" "length (heard_make_room cfg now k h) < HEARD_CAP"
      "hi_wf (heard_make_room cfg now k h)"
      "\<And>k' e'. hi_get (heard_make_room cfg now k h) k' = Some e' \<Longrightarrow> hi_get h k' = Some e'"
      "\<And>k' e'. hi_get h k' = Some e' \<Longrightarrow> hi_get (heard_make_room cfg now k h) k' = None \<Longrightarrow>
         heard_retention cfg < duration_since now (he_last e')"
proof (cases "HEARD_CAP \<le> length h \<and> \<not> hi_contains h k")
  case False
  then show ?thesis by (intro same) (auto simp: heard_make_room_def)
next
  case True
  define r where "r = hi_retain (\<lambda>_ e. duration_since now (he_last e) \<le> heard_retention cfg) h"
  have wf: "hi_wf r" unfolding r_def by (rule hi_wf_retain [OF assms])
  have sub: "hi_get h k' = Some e' \<and> duration_since now (he_last e') \<le> heard_retention cfg"
    if "hi_get r k' = Some e'" for k' e'
    using that unfolding r_def by (simp add: hi_get_retain [OF assms] split: option.splits if_splits)
  have gone: "heard_retention cfg < duration_since now (he_last e')"
    if "hi_get h k' = Some e'" "hi_get r k' = None" for k' e'
    using that unfolding r_def by (simp add: hi_get_retain [OF assms] split: if_splits)
  show ?thesis
  proof (cases "HEARD_CAP \<le> length r")
    case False
    then have "heard_make_room cfg now k h = r"
      using True by (simp add: heard_make_room_def r_def [symmetric])
    with True False wf sub gone show ?thesis by (intro expired) auto
  next
    case full: True
    then have "r \<noteq> []" by (auto simp: HEARD_CAP_def)
    with wf obtain k1 e1 where k1: "oldest r = Some k1" and e1: "hi_get r k1 = Some e1"
      "length (hi_remove k1 r) < length r" "\<forall>k' e'. hi_get r k' = Some e' \<longrightarrow> he_last e1 \<le> he_last e'"
      by (rule drop_oldest)
    have eq: "heard_make_room cfg now k h = hi_remove k1 r"
      using True full k1 by (simp add: heard_make_room_def r_def [symmetric])
    show ?thesis
    proof (intro room)
      show "length (heard_make_room cfg now k h) < length h"
        using e1(2) length_hi_retain_le [of _ h] unfolding eq r_def by (rule less_le_trans)
      show "hi_wf (heard_make_room cfg now k h)" unfolding eq by (rule hi_wf_remove [OF wf])
    next
      fix k' e' assume "hi_get (heard_make_room cfg now k h) k' = Some e'"
      then show "hi_get h k' = Some e'"
        using sub unfolding eq by (auto simp: hi_get_remove split: if_splits)
    next
      fix k' e'
      assume k': "hi_get h k' = Some e'" "hi_get (heard_make_room cfg now k h) k' = None"
      show "heard_retention cfg < duration_since now (he_last e') \<or>
         (\<forall>k2 e2. hi_get h k2 = Some e2 \<longrightarrow> duration_since now (he_last e2) \<le> heard_retention cfg \<longrightarrow>
            he_last e' \<le> he_last e2)"
      proof (cases "k' = k1")
        case False
        with k' gone show ?thesis unfolding eq by (auto simp: hi_get_remove)
      next
        case True
        with e1(1) sub k' have "e' = e1" by fastforce
        moreover have "hi_get r k2 = Some e2"
          if "hi_get h k2 = Some e2" "duration_since now (he_last e2) \<le> heard_retention cfg" for k2 e2
          using that unfolding r_def by (simp add: hi_get_retain [OF assms])
        ultimately show ?thesis using e1(3) by blast
      qed
    qed (use True in auto)
  qed
qed

lemma hi_contains_get: "hi_contains h k \<longleftrightarrow> (\<exists>e. hi_get h k = Some e)"
  by (auto simp: hi_contains_def)

lemma length_hi_insert_le: "length (hi_insert k v h) \<le> (if hi_contains h k then length h else Suc (length h))"
  by (simp add: hi_insert_def)

lemma note_heard_heard:
  "ac_heard (cl_ac (note_heard cfg now speaker listener)) =
    (let k = name_part (cl_name speaker);
         h = heard_make_room cfg now k (ac_heard (cl_ac listener))
     in hi_modify k
          (\<lambda>e. (if he_session_id e \<noteq> cl_session_id speaker
                then e\<lparr>he_session_id := cl_session_id speaker, he_name := cl_name speaker,
                       he_ip := ip_string (cl_peer_ip speaker)\<rparr>
                else e)\<lparr>he_last := now, he_secs := he_secs e + 1\<rparr>)
          (hi_insert k \<lparr>he_session_id = cl_session_id speaker, he_name = cl_name speaker,
             he_ip = ip_string (cl_peer_ip speaker), he_last = now, he_secs = 0\<rparr> h))"
  by (auto simp: note_heard_def Let_def hi_modify_def)

section \<open>Properties\<close>

text \<open>
  C27: The memory of who spoke to a player is bounded and keeps the right entries. Recording a
  speaker never lets the table grow beyond its cap of 256 (or beyond what it was), and the speaker
  is in it afterwards under the name part, with the current time, the current session and one
  more second; an entry that disappears had expired, or was the oldest of a full table.
\<close>

theorem note_heard_bounded:
  assumes "hi_wf h" and "h = ac_heard (cl_ac listener)" and "k = name_part (cl_name speaker)"
    and "h' = ac_heard (cl_ac (note_heard cfg now speaker listener))"
  shows "hi_wf h' \<and> length h' \<le> max HEARD_CAP (length h) \<and>
    (\<exists>e. hi_get h' k = Some e \<and> he_last e = now \<and> he_session_id e = cl_session_id speaker \<and>
       he_secs e = (case hi_get h k of Some old \<Rightarrow> he_secs old + 1 | None \<Rightarrow> 1)) \<and>
    (\<forall>k' e'. hi_get h k' = Some e' \<and> hi_get h' k' = None \<longrightarrow>
       HEARD_CAP \<le> length h \<and>
       (heard_retention cfg < duration_since now (he_last e') \<or>
        (\<forall>k2 e2. hi_get h k2 = Some e2 \<and> duration_since now (he_last e2) \<le> heard_retention cfg \<longrightarrow>
           he_last e' \<le> he_last e2)))"
proof -
  define r where "r = heard_make_room cfg now k h"
  note cases = heard_make_room_cases [OF assms(1), of cfg now k]
  have wf: "hi_wf r" and len: "length r \<le> length h" "hi_contains r k \<or> length r < max HEARD_CAP (length h)"
    unfolding r_def by (cases rule: cases; force simp: assms(1))+
  have k: "hi_get r k = hi_get h k"
  proof (cases "hi_get r k")
    case None
    then show ?thesis unfolding r_def by (cases rule: cases) (auto simp: hi_contains_def)
  next
    case (Some e)
    then show ?thesis unfolding r_def by (cases rule: cases) auto
  qed
  have gone: "HEARD_CAP \<le> length h \<and>
       (heard_retention cfg < duration_since now (he_last e') \<or>
        (\<forall>k2 e2. hi_get h k2 = Some e2 \<and> duration_since now (he_last e2) \<le> heard_retention cfg \<longrightarrow>
           he_last e' \<le> he_last e2))" if "hi_get h k' = Some e'" "hi_get r k' = None" for k' e'
    using that unfolding r_def by (cases rule: cases) (simp, blast, blast)
  have h': "h' = hi_modify k
      (\<lambda>e. (if he_session_id e \<noteq> cl_session_id speaker
            then e\<lparr>he_session_id := cl_session_id speaker, he_name := cl_name speaker,
                   he_ip := ip_string (cl_peer_ip speaker)\<rparr>
            else e)\<lparr>he_last := now, he_secs := he_secs e + 1\<rparr>)
      (hi_insert k \<lparr>he_session_id = cl_session_id speaker, he_name = cl_name speaker,
         he_ip = ip_string (cl_peer_ip speaker), he_last = now, he_secs = 0\<rparr> r)"
    unfolding assms(4) note_heard_heard Let_def r_def assms(2,3) ..
  have "hi_wf h'" unfolding h' by (intro index_wf wf)
  moreover have "length h' \<le> max HEARD_CAP (length h)"
    using len by (auto simp: h' hi_insert_def)
  moreover have "\<exists>e. hi_get h' k = Some e \<and> he_last e = now \<and> he_session_id e = cl_session_id speaker \<and>
       he_secs e = (case hi_get h k of Some old \<Rightarrow> he_secs old + 1 | None \<Rightarrow> 1)"
    using k by (cases "hi_get h k") (auto simp: h' index_simps)
  moreover have "hi_get r k' = None" if "hi_get h' k' = None" for k'
    using that by (auto simp: h' index_simps split: if_splits)
  ultimately show ?thesis using gone by blast
qed

theorem note_heard_bounded_witness:
  "length (ac_heard (cl_ac (note_heard
      (anticheat_new True 50 15 20 10 3 0 0 None None ''s'') 5
      (client_new Version_new (Authenticate_new\<lparr>Authenticate_username := Some ''[1] a''\<rparr>) 1 0 (crypt_default [] 0)
        \<lparr>tw_sent = [], tw_error = None, tw_cancel_first = True\<rparr> \<lparr>uo_sent = [], uo_result = UdpSent\<rparr>
        \<lparr>pub_queue = [], pub_closed = False\<rparr> (V4 127 0 0 1) 0)
      (client_new Version_new Authenticate_new 2 0 (crypt_default [] 0)
        \<lparr>tw_sent = [], tw_error = None, tw_cancel_first = True\<rparr> \<lparr>uo_sent = [], uo_result = UdpSent\<rparr>
        \<lparr>pub_queue = [], pub_closed = False\<rparr> (V4 127 0 0 1) 0)))) \<le> 256"
  using note_heard_bounded [of "[]", OF _ _ refl refl]
  by (simp add: client_new_def ac_stats_new_def HEARD_CAP_def Let_def)

text \<open>
  The detection log is a ring of the latest hundred lines: pushing a line keeps at most a
  hundred, shows the new one first, and drops only the oldest.
\<close>

lemma push_log_ring:
  assumes "length (acc_logs cfg) \<le> LOG_CAPACITY"
  shows "length (acc_logs (push_log line cfg)) \<le> LOG_CAPACITY \<and>
    recent_logs (push_log line cfg) = line # take (LOG_CAPACITY - 1) (recent_logs cfg)"
proof (cases "length (acc_logs cfg) \<ge> LOG_CAPACITY")
  case True
  with assms have len: "length (acc_logs cfg) = LOG_CAPACITY" by simp
  then have "rev (tl (acc_logs cfg)) = take (LOG_CAPACITY - 1) (rev (acc_logs cfg))"
    by (metis butlast_conv_take butlast_rev length_rev)
  with True len show ?thesis
    by (simp add: push_log_def recent_logs_def Let_def) (simp add: LOG_CAPACITY_def)
next
  case False
  then show ?thesis by (simp add: push_log_def recent_logs_def Let_def)
qed

text \<open>
  The window of recently addressed targets. Recording targets puts each of them into the
  client's window with the current time, keeps an older target exactly if it is still within the
  window, and never invents one; with the anticheat off nothing changes.
\<close>

lemma record_targets_window:
  assumes "hi_wf (ac_window (cl_ac c))"
  shows "hi_wf (ac_window (cl_ac (record_targets cfg now keys c))) \<and>
    hi_get (ac_window (cl_ac (record_targets cfg now keys c))) k =
      (if \<not> acc_enabled cfg then hi_get (ac_window (cl_ac c)) k
       else if k \<in> set keys then Some now
       else case hi_get (ac_window (cl_ac c)) k of
         Some t \<Rightarrow> if duration_since now t \<le> window_of cfg then Some t else None
       | None \<Rightarrow> None)"
proof -
  have wf: "hi_wf (fold (\<lambda>k. hm_put k now) keys w)" if "hi_wf w" for w :: "(u64, instant) hindex"
    using that by (induction keys arbitrary: w) (simp_all add: hi_wf_put)
  have get: "hi_get (fold (\<lambda>k. hm_put k now) keys w) k = (if k \<in> set keys then Some now else hi_get w k)"
    for w :: "(u64, instant) hindex"
    by (induction keys arbitrary: w) (auto simp: hi_get_put)
  show ?thesis
    using wf [OF assms] assms
    by (auto simp: record_targets_def Let_def hi_wf_retain hi_get_retain get duration_since_def
        split: option.splits)
qed

lemma note_speed_hist [simp]:
  "ac_pos_hist (note_speed now p a) = ac_pos_hist a" "ac_pos_jumps (note_speed now p a) = ac_pos_jumps a"
  by (simp_all add: note_speed_def Let_def)

lemma length_filter_drop_snoc:
  "length (filter f (drop (Suc (length h) - n) (h @ [e]))) \<le> n"
  using length_filter_le [of f "drop (Suc (length h) - n) (h @ [e])"]
  by (simp del: drop_append filter_append)

lemma note_place_bounded:
  assumes "length (ac_pos_hist a) \<le> POS_HIST_CAP" and "ac_pos_jumps a = count_returns (ac_pos_hist a)"
  shows "length (ac_pos_hist (note_place cfg now p a)) \<le> POS_HIST_CAP"
    and "ac_pos_jumps (note_place cfg now p a) = count_returns (ac_pos_hist (note_place cfg now p a))"
  using assms
  by (simp_all add: note_place_def Let_def length_filter_drop_snoc del: drop_append filter_append)

lemma note_place_still:
  assumes "dist2 p p = 0" and "ac_pos_hist a = h @ [(t, p, r)]"
  shows "note_place cfg now p a = a"
proof -
  have "(case h @ [(t, p, r)] of [] \<Rightarrow> True | _ \<Rightarrow> b) = b" for b by (cases h) simp_all
  then show ?thesis
    unfolding note_place_def assms(2) Let_def last_snoc fst_conv snd_conv assms(1)
    by (simp only: f32_square_nonneg if_False if_cancel)
qed

text \<open>
  C28: Position tracking. The history of places holds at most 16 entries and the published number of
  returns is the number of returns in it; a client that stays at its last recorded place, at
  finite coordinates, adds neither a place nor a return, whatever the configuration; and with an
  oscillation distance of 0, or with the anticheat off, no place is recorded at all.
\<close>

theorem note_position_history:
  assumes "length (ac_pos_hist (cl_ac c)) \<le> POS_HIST_CAP"
    and "ac_pos_jumps (cl_ac c) = count_returns (ac_pos_hist (cl_ac c))"
    and "c' = note_position cfg now (x, y, z) c"
  shows "length (ac_pos_hist (cl_ac c')) \<le> POS_HIST_CAP \<and>
    ac_pos_jumps (cl_ac c') = count_returns (ac_pos_hist (cl_ac c')) \<and>
    (f32_finite x \<and> f32_finite y \<and> f32_finite z \<and> ac_pos_hist (cl_ac c) \<noteq> [] \<and>
       fst (snd (last (ac_pos_hist (cl_ac c)))) = (x, y, z) \<longrightarrow>
     ac_pos_hist (cl_ac c') = ac_pos_hist (cl_ac c) \<and> ac_pos_jumps (cl_ac c') = ac_pos_jumps (cl_ac c)) \<and>
    (acc_pos_osc_dist cfg = 0 \<or> \<not> acc_enabled cfg \<longrightarrow>
     ac_pos_hist (cl_ac c') = ac_pos_hist (cl_ac c) \<and> ac_pos_jumps (cl_ac c') = ac_pos_jumps (cl_ac c))"
proof -
  let ?a = "note_speed now (x, y, z) (cl_ac c)\<lparr>ac_has_pos := True, ac_pos_x := x,
    ac_pos_y := y, ac_pos_z := z, ac_last_pos_time := now\<rparr>"
  have c': "cl_ac c' = (if acc_enabled cfg then note_place cfg now (x, y, z) ?a else cl_ac c)"
    by (simp add: assms(3) note_position_def Let_def)
  have "note_place cfg now (x, y, z) ?a = ?a"
    if "f32_finite x" "f32_finite y" "f32_finite z" "ac_pos_hist (cl_ac c) \<noteq> []"
      "fst (snd (last (ac_pos_hist (cl_ac c)))) = (x, y, z)"
  proof -
    note still = that
    obtain h t r where "ac_pos_hist (cl_ac c) = h @ [(t, (x, y, z), r)]"
      using still(4,5) by (metis append_butlast_last_id prod.collapse)
    then show ?thesis by (intro note_place_still dist2_self still(1-3)) simp
  qed
  moreover have "note_place cfg now (x, y, z) ?a = ?a" if "acc_pos_osc_dist cfg = 0"
    using that by (simp add: note_place_def f32_le_def f32_nan_def f32_zero)
  ultimately show ?thesis
    using note_place_bounded [of ?a cfg now "(x, y, z)"] assms(1,2) unfolding c' by simp
qed

theorem note_position_history_witness:
  "ac_pos_jumps (cl_ac (note_position (anticheat_new True 50 15 20 10 3 0 0 None None ''s'') 7 (0, 0, 0)
      (client_new Version_new Authenticate_new 2 0 (crypt_default [] 0)
        \<lparr>tw_sent = [], tw_error = None, tw_cancel_first = True\<rparr> \<lparr>uo_sent = [], uo_result = UdpSent\<rparr>
        \<lparr>pub_queue = [], pub_closed = False\<rparr> (V4 127 0 0 1) 0))) =
   count_returns (ac_pos_hist (cl_ac (note_position (anticheat_new True 50 15 20 10 3 0 0 None None ''s'') 7 (0, 0, 0)
      (client_new Version_new Authenticate_new 2 0 (crypt_default [] 0)
        \<lparr>tw_sent = [], tw_error = None, tw_cancel_first = True\<rparr> \<lparr>uo_sent = [], uo_result = UdpSent\<rparr>
        \<lparr>pub_queue = [], pub_closed = False\<rparr> (V4 127 0 0 1) 0))))"
  using note_position_history [OF _ _ refl, of "client_new Version_new Authenticate_new 2 0 (crypt_default [] 0)
        \<lparr>tw_sent = [], tw_error = None, tw_cancel_first = True\<rparr> \<lparr>uo_sent = [], uo_result = UdpSent\<rparr>
        \<lparr>pub_queue = [], pub_closed = False\<rparr> (V4 127 0 0 1) 0"
      "anticheat_new True 50 15 20 10 3 0 0 None None ''s''" 7 0 0 0]
  by (simp add: client_new_def ac_stats_new_def Let_def count_returns_def)

end
