(* ===== verification/State.thy ===== *)
theory State
  imports Anticheat
begin

text \<open>
  The shared server state, \<open>src/src/state.rs\<close>, and its operations. An \<open>Arc\<close> or \<open>Weak\<close> to a client
  is an address \<open>cref\<close> in the heap of client objects; upgrading a \<open>Weak\<close> is a heap lookup. A channel
  is only reached through the channel index and is kept in it. An operation takes the state and
  returns the new one; tasks that an operation spawns are noted in \<open>st_shutdown\<close>.
\<close>

section \<open>State\<close>

record codec_state =
  cs_opus :: bool
  cs_alpha :: i32
  cs_beta :: i32
  cs_prefer_alpha :: bool

definition codec_state_default :: codec_state where
  "codec_state_default = \<lparr>cs_opus = True, cs_alpha = 0, cs_beta = 0, cs_prefer_alpha = False\<rparr>"

definition get_codec_version :: "codec_state \<Rightarrow> CodecVersion" where
  "get_codec_version cs = CodecVersion_new\<lparr>CodecVersion_alpha := Some (cs_alpha cs),
     CodecVersion_beta := Some (cs_beta cs), CodecVersion_opus := Some (cs_opus cs),
     CodecVersion_prefer_alpha := Some (cs_prefer_alpha cs)\<rparr>"

text \<open>
  \<open>st_heap\<close> and \<open>st_next\<close> are the heap and its first unused address, \<open>st_shutdown\<close> the clients whose
  writer a spawned task is about to drop, and \<open>st_socket\<close> the shared UDP socket.
\<close>

record server_state =
  st_remove_positional_data :: bool
  st_clients :: "(u32, cref) hindex"
  st_clients_without_udp :: "(u32, cref) hindex"
  st_clients_by_socket :: "(socket_addr, cref) hindex"
  st_channels :: "(u32, channel) hindex"
  st_disconnect_queue :: "(u32, disconnect_reason) hindex"
  st_codec_state :: codec_state
  st_socket :: udp_out
  st_restrict_to_version :: "string option"
  st_debug_message_id :: u64
  st_session_count :: u32
  st_channel_count :: u32
  st_active_clients :: u32
  st_anticheat :: anticheat_config
  st_bans :: ban_list
  st_heap :: "cref \<rightharpoonup> client"
  st_next :: cref
  st_shutdown :: "cref list"

definition state_new ::
    "ext \<Rightarrow> udp_out \<Rightarrow> bool \<Rightarrow> string option \<Rightarrow> anticheat_config \<Rightarrow> ban_list \<Rightarrow> server_state" where
  "state_new x sock remove_positional_data restrict_to_version ac bans =
     \<lparr>st_remove_positional_data = remove_positional_data,
      st_clients = [], st_clients_without_udp = [], st_clients_by_socket = [],
      st_channels = hi_insert 0 (channel_new 0 (Some 0) ''Root'' ''Root channel'' False) [],
      st_disconnect_queue = [], st_codec_state = codec_state_default, st_socket = sock,
      st_restrict_to_version = map_option (x_to_lowercase x) restrict_to_version,
      st_debug_message_id = 0, st_session_count = 1, st_channel_count = 1, st_active_clients = 0,
      st_anticheat = ac, st_bans = bans,
      st_heap = Map.empty, st_next = 0, st_shutdown = []\<rparr>"

section \<open>Heap access\<close>

definition put_client :: "cref \<Rightarrow> client \<Rightarrow> server_state \<Rightarrow> server_state" where
  "put_client r c st = st\<lparr>st_heap := (st_heap st)(r \<mapsto> c)\<rparr>"

definition modify_client :: "cref \<Rightarrow> (client \<Rightarrow> client) \<Rightarrow> server_state \<Rightarrow> server_state" where
  "modify_client r f st = (case st_heap st r of Some c \<Rightarrow> put_client r (f c) st | None \<Rightarrow> st)"

text \<open>A call of a method that writes to the client; an \<open>Arc\<close> never dangles.\<close>

definition client_io ::
    "cref \<Rightarrow> (client \<Rightarrow> client \<times> (mumble_error + unit)) \<Rightarrow> server_state \<Rightarrow> server_state \<times> (mumble_error + unit)" where
  "client_io r f st =
     (case st_heap st r of
        Some c \<Rightarrow> let (c, res) = f c in (put_client r c st, res)
      | None \<Rightarrow> (st, Inl WritterShutDown))"

section \<open>Identifiers\<close>

text \<open>
  The loop of \<open>get_free_session_id\<close> and \<open>get_free_channel_id\<close>: the counter is taken and advanced,
  wrapping around, until its old value is no key of the index. The result is \<open>None\<close> if the loop
  does not end.
\<close>

partial_function (option) free_id :: "(u32, 'v) hindex \<Rightarrow> u32 \<Rightarrow> (u32 \<times> u32) option" where
  "free_id m n = (if hi_contains m n then free_id m (n + 1) else Some (n, n + 1))"

definition get_free_session_id :: "server_state \<Rightarrow> (u32 \<times> server_state) option" where
  "get_free_session_id st =
     map_option (\<lambda>(sid, n). (sid, st\<lparr>st_session_count := n\<rparr>)) (free_id (st_clients st) (st_session_count st))"

definition get_free_channel_id :: "server_state \<Rightarrow> (u32 \<times> server_state) option" where
  "get_free_channel_id st =
     map_option (\<lambda>(cid, n). (cid, st\<lparr>st_channel_count := n\<rparr>)) (free_id (st_channels st) (st_channel_count st))"

section \<open>Clients and channels\<close>

definition add_client ::
    "instant \<Rightarrow> Version \<Rightarrow> Authenticate \<Rightarrow> crypt_state \<Rightarrow> tcp_writer \<Rightarrow> udp_out \<Rightarrow> publisher \<Rightarrow> ip_addr \<Rightarrow>
       server_state \<Rightarrow> (cref \<times> server_state) option" where
  "add_client now ver auth crypt_st writer udp publ ip st =
     (case get_free_session_id st of
        None \<Rightarrow> None
      | Some (sid, st) \<Rightarrow>
          let r = st_next st;
              c = client_new ver auth sid 0 crypt_st writer udp publ ip now;
              st = (put_client r c st)\<lparr>st_next := r + 1\<rparr>;
              st = st\<lparr>st_active_clients := st_active_clients st + 1\<rparr>;
              st = st\<lparr>st_clients := hi_insert sid r (st_clients st)\<rparr>;
              st = st\<lparr>st_clients_without_udp := hi_insert sid r (st_clients_without_udp st)\<rparr>
          in Some (r, st))"

definition add_channel :: "ChannelState \<Rightarrow> server_state \<Rightarrow> (channel \<times> server_state) option" where
  "add_channel m st =
     (case get_free_channel_id st of
        None \<Rightarrow> None
      | Some (cid, st) \<Rightarrow>
          let ch = channel_new cid (Some (unwrap_or 0 (ChannelState_parent m)))
                (unwrap_or '''' (ChannelState_name m)) (unwrap_or '''' (ChannelState_description m))
                (unwrap_or False (ChannelState_temporary m))
          in Some (ch, st\<lparr>st_channels := hi_insert cid ch (st_channels st)\<rparr>))"

definition get_client_by_name :: "string \<Rightarrow> server_state \<Rightarrow> cref option" where
  "get_client_by_name nm st =
     map_option snd (find (\<lambda>(_, r). case st_heap st r of
        Some c \<Rightarrow> unwrap_or '''' (Authenticate_username (cl_authenticate c)) = nm | None \<Rightarrow> False) (st_clients st))"

definition set_client_socket :: "cref \<Rightarrow> socket_addr \<Rightarrow> server_state \<Rightarrow> server_state" where
  "set_client_socket r addr st =
     (let old = Option.bind (st_heap st r) cl_udp_socket_addr;
          st = modify_client r (\<lambda>c. c\<lparr>cl_udp_socket_addr := Some addr\<rparr>) st;
          st = (case old of
                  Some a \<Rightarrow> st\<lparr>st_clients_by_socket := hi_remove a (st_clients_by_socket st)\<rparr> | None \<Rightarrow> st)
      in st\<lparr>st_clients_by_socket := hi_insert addr r (st_clients_by_socket st)\<rparr>)"

definition add_client_to_disconnect_queue ::
    "u32 \<Rightarrow> disconnect_reason \<Rightarrow> server_state \<Rightarrow> server_state" where
  "add_client_to_disconnect_queue sid reason st =
     st\<lparr>st_disconnect_queue := hi_insert sid reason (st_disconnect_queue st)\<rparr>"

text \<open>Handing a message to a client's task; a client whose queue is full or gone is to be dropped.\<close>

definition publish :: "client_message \<Rightarrow> cref \<Rightarrow> server_state \<Rightarrow> server_state" where
  "publish m r st =
     (case st_heap st r of
        None \<Rightarrow> st
      | Some c \<Rightarrow> (case try_send m c of
          Some c' \<Rightarrow> put_client r c' st
        | None \<Rightarrow> add_client_to_disconnect_queue (cl_session_id c) ClientMSPCFull st))"

definition broadcast_message ::
    "ext \<Rightarrow> message_kind \<Rightarrow> message \<Rightarrow> server_state \<Rightarrow> server_state \<times> (mumble_error + unit)" where
  "broadcast_message x kind m st =
     (let st = st\<lparr>st_debug_message_id := st_debug_message_id st + 1\<rparr> in
      case msg_to_bytes x kind m of
        Inl e \<Rightarrow> (st, Inl e)
      | Inr bs \<Rightarrow> (fold (\<lambda>(_, r). publish (SendMessage kind bs) r) (st_clients st) st, Inr ()))"

section \<open>Moving between channels\<close>

definition delete_channel :: "ext \<Rightarrow> u32 \<Rightarrow> server_state \<Rightarrow> server_state \<times> u32 option" where
  "delete_channel x cid st =
     (let st = st\<lparr>st_channels := hi_remove cid (st_channels st)\<rparr>;
          (st, _) = broadcast_message x KChannelRemove
            (MChannelRemove (ChannelRemove_new\<lparr>ChannelRemove_channel_id := Some cid\<rparr>)) st
      in (st, Some cid))"

definition handle_client_left_channel ::
    "ext \<Rightarrow> u32 \<Rightarrow> u32 \<Rightarrow> server_state \<Rightarrow> server_state \<times> u32 option" where
  "handle_client_left_channel x client_session leave_channel_id st =
     (case hi_get (st_channels st) leave_channel_id of
        Some c \<Rightarrow>
          let c = c\<lparr>ch_clients := hi_remove client_session (ch_clients c)\<rparr>;
              st = st\<lparr>st_channels := hi_modify leave_channel_id (\<lambda>_. c) (st_channels st)\<rparr>
          in if \<not> ch_temporary c \<or> get_clients c \<noteq> [] then (st, None)
             else delete_channel x leave_channel_id st
      | None \<Rightarrow> delete_channel x leave_channel_id st)"

text \<open>\<open>any_entry_async\<close> finds the entry through the channel's own id or name.\<close>

definition get_channel_by_channel_id :: "u32 \<Rightarrow> server_state \<Rightarrow> (u32 \<times> channel) option" where
  "get_channel_by_channel_id cid st = find (\<lambda>(_, ch). ch_id ch = cid) (st_channels st)"

definition get_channel_by_name :: "string \<Rightarrow> server_state \<Rightarrow> (u32 \<times> channel) option" where
  "get_channel_by_name nm st = find (\<lambda>(_, ch). ch_name ch = nm) (st_channels st)"

definition set_client_channel ::
    "ext \<Rightarrow> cref \<Rightarrow> u32 \<Rightarrow> server_state \<Rightarrow> server_state \<times> (mumble_error + unit)" where
  "set_client_channel x r cid st =
     (case st_heap st r of
        None \<Rightarrow> (st, Inr ())
      | Some c \<Rightarrow>
          let (c, leave_channel_id) = join_channel cid c;
              st = put_client r c st
          in case find (\<lambda>(_, ch). ch_id ch = cid) (st_channels st) of
               None \<Rightarrow> (st, Inl ChannelDoesntExist)
             | Some (k, _) \<Rightarrow>
                 let st = st\<lparr>st_channels := hi_modify k
                       (\<lambda>ch. ch\<lparr>ch_clients := hi_insert (cl_session_id c) r (ch_clients ch)\<rparr>) (st_channels st)\<rparr>;
                     (st, _) = broadcast_message x KUserState (MUserState (get_user_state c)) st
                 in (case leave_channel_id of
                       None \<Rightarrow> (st, Inr ())
                     | Some l \<Rightarrow>
                         if l = cid then (st, Inr ())
                         else (fst (handle_client_left_channel x (cl_session_id c) l st), Inr ())))"

section \<open>Sockets and encryption\<close>

definition get_client_by_session_id :: "u32 \<Rightarrow> server_state \<Rightarrow> cref option" where
  "get_client_by_session_id sid st = hi_get (st_clients st) sid"

definition upgrade :: "server_state \<Rightarrow> cref \<Rightarrow> cref option" where
  "upgrade st r = (if st_heap st r = None then None else Some r)"

definition get_client_by_socket :: "socket_addr \<Rightarrow> server_state \<Rightarrow> cref option" where
  "get_client_by_socket addr st = Option.bind (hi_get (st_clients_by_socket st) addr) (upgrade st)"

definition remove_client_by_socket :: "socket_addr \<Rightarrow> server_state \<Rightarrow> server_state" where
  "remove_client_by_socket addr st =
     st\<lparr>st_clients_by_socket := hi_remove addr (st_clients_by_socket st)\<rparr>"

text \<open>The loop over the clients without a UDP address: the first one whose key decrypts the packet.\<close>

fun try_decrypt ::
    "ext \<Rightarrow> instant \<Rightarrow> bytes \<Rightarrow> socket_addr \<Rightarrow> (u32 \<times> cref) list \<Rightarrow> server_state \<Rightarrow>
       server_state \<times> (cref \<times> unit voice_packet) option" where
  "try_decrypt x now buf addr [] st = (st, None)"
| "try_decrypt x now buf addr ((_, r) # rs) st =
     (case st_heap st r of
        None \<Rightarrow> try_decrypt x now buf addr rs st
      | Some c \<Rightarrow>
          let (crypt_st, res) = decrypt (x_aes x) server_bound now (cl_crypt_state c) buf;
              st = put_client r (c\<lparr>cl_crypt_state := crypt_st\<rparr>) st
          in (case res of
                Inr p \<Rightarrow> (set_client_socket r addr st, Some (r, p))
              | Inl _ \<Rightarrow> try_decrypt x now buf addr rs st))"

definition find_client_with_decrypt ::
    "ext \<Rightarrow> instant \<Rightarrow> bytes \<Rightarrow> socket_addr \<Rightarrow> server_state \<Rightarrow>
       server_state \<times> (cref \<times> unit voice_packet) option" where
  "find_client_with_decrypt x now buf addr st =
     (let (st, found) = try_decrypt x now buf addr (st_clients_without_udp st) st
      in case found of
           Some (r, p) \<Rightarrow>
             (case st_heap st r of
                Some c \<Rightarrow> (st\<lparr>st_clients_without_udp :=
                  hi_remove (cl_session_id c) (st_clients_without_udp st)\<rparr>, Some (r, p))
              | None \<Rightarrow> (st, Some (r, p)))
         | None \<Rightarrow> (st, None))"

definition reset_client_crypt ::
    "ext \<Rightarrow> instant \<Rightarrow> cref \<Rightarrow> server_state \<Rightarrow> server_state \<times> (mumble_error + unit)" where
  "reset_client_crypt x now r st =
     (case st_heap st r of
        None \<Rightarrow> (st, Inr ())
      | Some c \<Rightarrow>
          let st = st\<lparr>st_clients_without_udp := hi_insert (cl_session_id c) r (st_clients_without_udp st)\<rparr>;
              (c, address_option) = remove_udp_socket c;
              st = put_client r c st;
              st = (case address_option of Some a \<Rightarrow> remove_client_by_socket a st | None \<Rightarrow> st)
          in client_io r (send_crypt_setup x now True) st)"

section \<open>Disconnecting\<close>

definition broadcast_client_delete :: "ext \<Rightarrow> u32 \<Rightarrow> u32 \<Rightarrow> server_state \<Rightarrow> server_state" where
  "broadcast_client_delete x sid cid st =
     (let (st, _) = broadcast_message x KUserRemove (MUserRemove
            (UserRemove_new\<lparr>UserRemove_session := Some sid, UserRemove_reason := Some ''Disconnected''\<rparr>)) st
      in fst (handle_client_left_channel x sid cid st))"

text \<open>
  \<open>disconnect\<close> runs concurrently with itself. It consists of a lookup and of the removal that
  decides, atomically, which of the concurrent calls does the rest.
\<close>

definition disconnect_lookup :: "u32 \<Rightarrow> server_state \<Rightarrow> cref option" where
  "disconnect_lookup sid st = Option.bind (get_client_by_session_id sid st) (upgrade st)"

definition close_client :: "ext \<Rightarrow> u32 \<Rightarrow> cref \<Rightarrow> client \<Rightarrow> server_state \<Rightarrow> server_state" where
  "close_client x sid r c st =
     (let cid = cl_channel_id c;
          st = st\<lparr>st_clients_without_udp := hi_remove sid (st_clients_without_udp st)\<rparr>;
          st = st\<lparr>st_active_clients := st_active_clients st - 1\<rparr>;
          st = put_client r (c\<lparr>cl_cancelled := True, cl_udp_socket_addr := None\<rparr>) st;
          st = st\<lparr>st_shutdown := st_shutdown st @ [r]\<rparr>;
          st = (case cl_udp_socket_addr c of Some a \<Rightarrow> remove_client_by_socket a st | None \<Rightarrow> st);
          st = broadcast_client_delete x sid cid st
      in case get_channel_by_channel_id cid st of
           Some (k, _) \<Rightarrow> st\<lparr>st_channels := hi_modify k
             (\<lambda>ch. ch\<lparr>ch_clients := hi_retain (\<lambda>s _. s \<noteq> sid) (ch_clients ch)\<rparr>) (st_channels st)\<rparr>
         | None \<Rightarrow> st)"

definition disconnect_commit :: "ext \<Rightarrow> u32 \<Rightarrow> cref option \<Rightarrow> server_state \<Rightarrow> server_state" where
  "disconnect_commit x sid found st =
     (let removed = hi_contains (st_clients st) sid;
          st = st\<lparr>st_clients := hi_remove sid (st_clients st)\<rparr>
      in if removed then
           (case Option.bind found (\<lambda>r. map_option (Pair r) (st_heap st r)) of
              Some (r, c) \<Rightarrow> close_client x sid r c st
            | None \<Rightarrow> st)
         else st)"

text \<open>The reason is only logged and counted in the metrics.\<close>

definition disconnect :: "ext \<Rightarrow> u32 \<Rightarrow> disconnect_reason \<Rightarrow> server_state \<Rightarrow> server_state" where
  "disconnect x sid reason st = disconnect_commit x sid (disconnect_lookup sid st) st"

text \<open>The task that \<open>disconnect\<close> spawns.\<close>

definition run_shutdown :: "cref \<Rightarrow> server_state \<Rightarrow> server_state" where
  "run_shutdown r st =
     (modify_client r (\<lambda>c. c\<lparr>cl_write := None\<rparr>) st)\<lparr>st_shutdown := remove1 r (st_shutdown st)\<rparr>"

section \<open>The initial synchronisation\<close>

fun send_all ::
    "ext \<Rightarrow> cref \<Rightarrow> (message_kind \<times> message) list \<Rightarrow> server_state \<Rightarrow> server_state \<times> (mumble_error + unit)" where
  "send_all x r [] st = (st, Inr ())"
| "send_all x r ((kind, m) # ms) st =
     (case client_io r (\<lambda>c. send_message x c kind m) st of
        (st, Inl e) \<Rightarrow> (st, Inl e)
      | (st, Inr _) \<Rightarrow> send_all x r ms st)"

definition sync_client_and_channels ::
    "ext \<Rightarrow> cref \<Rightarrow> server_state \<Rightarrow> server_state \<times> (mumble_error + unit)" where
  "sync_client_and_channels x r st =
     send_all x r
       (map (\<lambda>(_, ch). (KChannelState, MChannelState (get_channel_state ch))) (st_channels st) @
        map (\<lambda>c. (KUserState, MUserState (get_user_state c)))
          (List.map_filter (\<lambda>(_, r). st_heap st r) (st_clients st))) st"

section \<open>The directory\<close>

text \<open>
  What the state is about, without queues, keys, statistics and the order of the indexes: who is
  connected, where each client object is, who can be found by its address, and who is in which
  channel. The operations above are shown to implement the operations on directories below.
\<close>

record member_list =
  m_temporary :: bool
  m_clients :: "u32 \<rightharpoonup> cref"
  m_listeners :: "u32 \<rightharpoonup> cref"

record ident =
  i_session :: u32
  i_channel :: u32
  i_socket :: "socket_addr option"

record directory =
  d_sessions :: "u32 \<rightharpoonup> cref"
  d_objects :: "cref \<rightharpoonup> ident"
  d_without_udp :: "u32 \<rightharpoonup> cref"
  d_sockets :: "socket_addr \<rightharpoonup> cref"
  d_channels :: "u32 \<rightharpoonup> member_list"
  d_active :: u32
  d_session_count :: u32
  d_next :: cref

definition members_of :: "channel \<Rightarrow> member_list" where
  "members_of ch = \<lparr>m_temporary = ch_temporary ch, m_clients = hi_get (ch_clients ch),
     m_listeners = hi_get (ch_listeners ch)\<rparr>"

definition ident_of :: "client \<Rightarrow> ident" where
  "ident_of c = \<lparr>i_session = cl_session_id c, i_channel = cl_channel_id c, i_socket = cl_udp_socket_addr c\<rparr>"

definition directory_of :: "server_state \<Rightarrow> directory" where
  "directory_of st =
     \<lparr>d_sessions = hi_get (st_clients st),
      d_objects = (\<lambda>r. map_option ident_of (st_heap st r)),
      d_without_udp = hi_get (st_clients_without_udp st),
      d_sockets = hi_get (st_clients_by_socket st),
      d_channels = (\<lambda>k. map_option members_of (hi_get (st_channels st) k)),
      d_active = st_active_clients st,
      d_session_count = st_session_count st,
      d_next = st_next st\<rparr>"

definition dir_enter :: "u32 \<Rightarrow> cref \<Rightarrow> u32 \<Rightarrow> directory \<Rightarrow> directory" where
  "dir_enter sid r cid d = d\<lparr>d_channels := (d_channels d)(cid := map_option
     (\<lambda>m. if m_clients m sid = None then m\<lparr>m_clients := (m_clients m)(sid \<mapsto> r)\<rparr> else m) (d_channels d cid))\<rparr>"

definition dir_leave :: "u32 \<Rightarrow> u32 \<Rightarrow> directory \<Rightarrow> directory" where
  "dir_leave sid cid d =
     (case d_channels d cid of
        None \<Rightarrow> d
      | Some m \<Rightarrow>
          let cs = (m_clients m)(sid := None) in
          d\<lparr>d_channels := (d_channels d)(cid :=
            if m_temporary m \<and> cs = Map.empty then None else Some (m\<lparr>m_clients := cs\<rparr>))\<rparr>)"

definition dir_move :: "cref \<Rightarrow> u32 \<Rightarrow> directory \<Rightarrow> directory" where
  "dir_move r cid d =
     (case d_objects d r of
        None \<Rightarrow> d
      | Some i \<Rightarrow>
          let d = d\<lparr>d_objects := (d_objects d)(r \<mapsto> i\<lparr>i_channel := cid\<rparr>)\<rparr> in
          if d_channels d cid = None then d
          else let d = dir_enter (i_session i) r cid d
               in if i_channel i = cid then d else dir_leave (i_session i) (i_channel i) d)"

definition dir_close :: "u32 \<Rightarrow> cref \<Rightarrow> ident \<Rightarrow> directory \<Rightarrow> directory" where
  "dir_close sid r i d =
     dir_leave sid (i_channel i)
       (d\<lparr>d_without_udp := (d_without_udp d)(sid := None), d_active := d_active d - 1,
          d_objects := (d_objects d)(r \<mapsto> i\<lparr>i_socket := None\<rparr>),
          d_sockets := (case i_socket i of Some a \<Rightarrow> (d_sockets d)(a := None) | None \<Rightarrow> d_sockets d)\<rparr>)"

definition dir_commit :: "u32 \<Rightarrow> cref option \<Rightarrow> directory \<Rightarrow> directory" where
  "dir_commit sid found d =
     (if d_sessions d sid = None then d
      else
        let d = d\<lparr>d_sessions := (d_sessions d)(sid := None)\<rparr>
        in case found of
             None \<Rightarrow> d
           | Some r \<Rightarrow> (case d_objects d r of None \<Rightarrow> d | Some i \<Rightarrow> dir_close sid r i d))"

section \<open>Well-formed indexes\<close>

text \<open>Distinct keys, and every channel filed under its own id: what the indexes themselves keep.\<close>

definition channels_wf :: "(u32, channel) hindex \<Rightarrow> bool" where
  "channels_wf m \<longleftrightarrow> hi_wf m \<and>
     (\<forall>(k, ch) \<in> set m. ch_id ch = k \<and> hi_wf (ch_clients ch) \<and> hi_wf (ch_listeners ch))"

definition indexes_wf :: "server_state \<Rightarrow> bool" where
  "indexes_wf st \<longleftrightarrow> hi_wf (st_clients st) \<and> hi_wf (st_clients_without_udp st) \<and>
     hi_wf (st_clients_by_socket st) \<and> hi_wf (st_disconnect_queue st) \<and> channels_wf (st_channels st)"

lemma indexes_wfD [dest]:
  assumes "indexes_wf st"
  shows "hi_wf (st_clients st)" "hi_wf (st_clients_without_udp st)" "hi_wf (st_clients_by_socket st)"
    "hi_wf (st_disconnect_queue st)" "channels_wf (st_channels st)"
  using assms by (simp_all add: indexes_wf_def)

lemma channels_wf_modify [index_wf]:
  assumes "channels_wf m" and "\<And>ch. hi_get m k = Some ch \<Longrightarrow> ch_id (f ch) = ch_id ch"
    and "\<And>ch. hi_get m k = Some ch \<Longrightarrow> hi_wf (ch_clients (f ch)) \<and> hi_wf (ch_listeners (f ch))"
  shows "channels_wf (hi_modify k f m)"
proof -
  have "hi_wf m" using assms(1) by (simp add: channels_wf_def)
  with assms show ?thesis
    by (auto simp: channels_wf_def hi_wf_modify)
      (fastforce simp: hi_modify_def hi_get_eq_Some_iff split: if_splits)+
qed

lemma channels_wf_remove [index_wf]: "channels_wf m \<Longrightarrow> channels_wf (hi_remove k m)"
  by (auto simp: channels_wf_def hi_wf_remove) (auto simp: hi_remove_def)

lemma channels_wf_insert [index_wf]:
  "channels_wf m \<Longrightarrow> ch_id ch = k \<Longrightarrow> hi_wf (ch_clients ch) \<Longrightarrow> hi_wf (ch_listeners ch) \<Longrightarrow>
   channels_wf (hi_insert k ch m)"
  by (auto simp: channels_wf_def hi_wf_insert) (auto simp: hi_insert_def split: if_splits)

lemma channels_wf_get:
  "channels_wf m \<Longrightarrow> hi_get m k = Some ch \<Longrightarrow> ch_id ch = k \<and> hi_wf (ch_clients ch) \<and> hi_wf (ch_listeners ch)"
  by (auto simp: channels_wf_def dest: hi_get_SomeD)

text \<open>With channels filed under their ids, the searches by id are lookups.\<close>

lemma find_channel:
  assumes "channels_wf m"
  shows "find (\<lambda>(_, ch). ch_id ch = cid) m = map_option (Pair cid) (hi_get m cid)"
  using assms
proof (induction m)
  case (Cons a m)
  then show ?case by (cases a) (auto simp: channels_wf_def hi_wf_def hi_get_def)
qed simp

section \<open>Frame lemmas\<close>

named_theorems frame \<open>what an operation leaves alone\<close>

lemma put_client_frame [frame]:
  "st_clients (put_client r c st) = st_clients st"
  "st_clients_without_udp (put_client r c st) = st_clients_without_udp st"
  "st_clients_by_socket (put_client r c st) = st_clients_by_socket st"
  "st_channels (put_client r c st) = st_channels st"
  "st_disconnect_queue (put_client r c st) = st_disconnect_queue st"
  "st_heap (put_client r c st) = (st_heap st)(r \<mapsto> c)"
  "st_next (put_client r c st) = st_next st"
  "st_shutdown (put_client r c st) = st_shutdown st"
  "st_bans (put_client r c st) = st_bans st"
  "st_anticheat (put_client r c st) = st_anticheat st"
  by (simp_all add: put_client_def)

lemma queue_frame [frame]:
  "st_clients (add_client_to_disconnect_queue sid rs st) = st_clients st"
  "st_clients_without_udp (add_client_to_disconnect_queue sid rs st) = st_clients_without_udp st"
  "st_clients_by_socket (add_client_to_disconnect_queue sid rs st) = st_clients_by_socket st"
  "st_channels (add_client_to_disconnect_queue sid rs st) = st_channels st"
  "st_heap (add_client_to_disconnect_queue sid rs st) = st_heap st"
  "st_next (add_client_to_disconnect_queue sid rs st) = st_next st"
  "st_shutdown (add_client_to_disconnect_queue sid rs st) = st_shutdown st"
  "st_bans (add_client_to_disconnect_queue sid rs st) = st_bans st"
  "st_anticheat (add_client_to_disconnect_queue sid rs st) = st_anticheat st"
  by (simp_all add: add_client_to_disconnect_queue_def)

text \<open>Publishing changes the queue of the client it publishes to, and nothing else of the clients.\<close>

definition unqueued :: "client \<Rightarrow> client" where
  "unqueued c = c\<lparr>cl_publisher := \<lparr>pub_queue = [], pub_closed = False\<rparr>\<rparr>"

lemma unqueued_try_send: "try_send m c = Some c' \<Longrightarrow> unqueued c' = unqueued c"
  by (auto simp: try_send_def unqueued_def Let_def split: if_splits)

lemma unqueued_sel [simp]:
  "cl_session_id (unqueued c) = cl_session_id c" "cl_channel_id (unqueued c) = cl_channel_id c"
  "cl_udp_socket_addr (unqueued c) = cl_udp_socket_addr c" "cl_deaf (unqueued c) = cl_deaf c"
  "cl_mute (unqueued c) = cl_mute c" "cl_ac (unqueued c) = cl_ac c" "cl_name (unqueued c) = cl_name c"
  "cl_peer_ip (unqueued c) = cl_peer_ip c" "ident_of (unqueued c) = ident_of c"
  by (simp_all add: unqueued_def ident_of_def)

lemma unqueued_eqD:
  assumes "unqueued c = unqueued c'"
  shows "cl_session_id c = cl_session_id c'" "cl_channel_id c = cl_channel_id c'"
    "cl_udp_socket_addr c = cl_udp_socket_addr c'" "ident_of c = ident_of c'" "cl_deaf c = cl_deaf c'"
    "cl_mute c = cl_mute c'" "cl_ac c = cl_ac c'" "cl_name c = cl_name c'" "cl_peer_ip c = cl_peer_ip c'"
  using arg_cong [OF assms, of cl_session_id] arg_cong [OF assms, of cl_channel_id]
    arg_cong [OF assms, of cl_udp_socket_addr] arg_cong [OF assms, of ident_of] arg_cong [OF assms, of cl_deaf]
    arg_cong [OF assms, of cl_mute] arg_cong [OF assms, of cl_ac] arg_cong [OF assms, of cl_name]
    arg_cong [OF assms, of cl_peer_ip]
  by simp_all

lemma publish_frame [frame]:
  "st_clients (publish m r st) = st_clients st"
  "st_clients_without_udp (publish m r st) = st_clients_without_udp st"
  "st_clients_by_socket (publish m r st) = st_clients_by_socket st"
  "st_channels (publish m r st) = st_channels st"
  "st_next (publish m r st) = st_next st"
  "st_shutdown (publish m r st) = st_shutdown st"
  "st_bans (publish m r st) = st_bans st"
  "st_anticheat (publish m r st) = st_anticheat st"
  "st_active_clients (publish m r st) = st_active_clients st"
  "st_session_count (publish m r st) = st_session_count st"
  by (simp_all add: publish_def put_client_def add_client_to_disconnect_queue_def split: option.split)

lemma publish_unqueued [frame]:
  "map_option unqueued (st_heap (publish m r st) r') = map_option unqueued (st_heap st r')"
  by (auto simp: publish_def frame unqueued_try_send split: option.split)

lemma publish_queue_wf [index_wf]: "hi_wf (st_disconnect_queue st) \<Longrightarrow> hi_wf (st_disconnect_queue (publish m r st))"
  by (auto simp: publish_def put_client_def add_client_to_disconnect_queue_def hi_wf_insert split: option.split)

lemma publish_all_frame [frame]:
  "st_clients (fold (\<lambda>(_, r). publish m r) rs st) = st_clients st"
  "st_clients_without_udp (fold (\<lambda>(_, r). publish m r) rs st) = st_clients_without_udp st"
  "st_clients_by_socket (fold (\<lambda>(_, r). publish m r) rs st) = st_clients_by_socket st"
  "st_channels (fold (\<lambda>(_, r). publish m r) rs st) = st_channels st"
  "st_next (fold (\<lambda>(_, r). publish m r) rs st) = st_next st"
  "st_shutdown (fold (\<lambda>(_, r). publish m r) rs st) = st_shutdown st"
  "st_bans (fold (\<lambda>(_, r). publish m r) rs st) = st_bans st"
  "st_anticheat (fold (\<lambda>(_, r). publish m r) rs st) = st_anticheat st"
  "st_active_clients (fold (\<lambda>(_, r). publish m r) rs st) = st_active_clients st"
  "st_session_count (fold (\<lambda>(_, r). publish m r) rs st) = st_session_count st"
  "map_option unqueued (st_heap (fold (\<lambda>(_, r). publish m r) rs st) r') = map_option unqueued (st_heap st r')"
  by (induction rs arbitrary: st) (auto simp: frame)

lemma publish_all_queue_wf [index_wf]:
  "hi_wf (st_disconnect_queue st) \<Longrightarrow> hi_wf (st_disconnect_queue (fold (\<lambda>(_, r). publish m r) rs st))"
  by (induction rs arbitrary: st) (auto simp: index_wf)

lemma broadcast_frame [frame]:
  "st_clients (fst (broadcast_message x kind m st)) = st_clients st"
  "st_clients_without_udp (fst (broadcast_message x kind m st)) = st_clients_without_udp st"
  "st_clients_by_socket (fst (broadcast_message x kind m st)) = st_clients_by_socket st"
  "st_channels (fst (broadcast_message x kind m st)) = st_channels st"
  "st_next (fst (broadcast_message x kind m st)) = st_next st"
  "st_shutdown (fst (broadcast_message x kind m st)) = st_shutdown st"
  "st_bans (fst (broadcast_message x kind m st)) = st_bans st"
  "st_anticheat (fst (broadcast_message x kind m st)) = st_anticheat st"
  "st_active_clients (fst (broadcast_message x kind m st)) = st_active_clients st"
  "st_session_count (fst (broadcast_message x kind m st)) = st_session_count st"
  "map_option unqueued (st_heap (fst (broadcast_message x kind m st)) r) = map_option unqueued (st_heap st r)"
  by (simp_all add: broadcast_message_def Let_def frame split: sum.split)

lemma broadcast_queue_wf [index_wf]:
  "hi_wf (st_disconnect_queue st) \<Longrightarrow> hi_wf (st_disconnect_queue (fst (broadcast_message x kind m st)))"
  by (simp add: broadcast_message_def Let_def index_wf split: sum.split)

lemma directory_cong:
  assumes "st_clients st' = st_clients st" "st_clients_without_udp st' = st_clients_without_udp st"
    "st_clients_by_socket st' = st_clients_by_socket st" "st_channels st' = st_channels st"
    "st_active_clients st' = st_active_clients st" "st_session_count st' = st_session_count st"
    "st_next st' = st_next st" "\<And>r. map_option ident_of (st_heap st' r) = map_option ident_of (st_heap st r)"
  shows "directory_of st' = directory_of st"
  using assms by (simp add: directory_of_def)

lemma heap_ident_of_unqueued:
  "map_option unqueued v = map_option unqueued w \<Longrightarrow> map_option ident_of v = map_option ident_of w"
  by (cases v; cases w) (auto dest: unqueued_eqD)

lemma directory_broadcast [simp]: "directory_of (fst (broadcast_message x kind m st)) = directory_of st"
  by (rule directory_cong; (rule heap_ident_of_unqueued)?; simp add: frame)

lemma directory_publish [simp]: "directory_of (publish m r st) = directory_of st"
  by (rule directory_cong; (rule heap_ident_of_unqueued)?; simp add: frame)

lemma indexes_wf_broadcast [index_wf]: "indexes_wf st \<Longrightarrow> indexes_wf (fst (broadcast_message x kind m st))"
  by (auto simp: indexes_wf_def frame index_wf)

lemma indexes_wf_publish [index_wf]: "indexes_wf st \<Longrightarrow> indexes_wf (publish m r st)"
  by (auto simp: indexes_wf_def frame index_wf)

section \<open>Identifiers\<close>

lemma free_id_skip:
  assumes "\<forall>i < k. hi_contains m (n + word_of_nat i)" and "\<not> hi_contains m (n + word_of_nat k)"
  shows "free_id m n = Some (n + word_of_nat k, n + word_of_nat k + 1)"
  using assms
proof (induction k arbitrary: n)
  case 0
  then show ?case by (subst free_id.simps) simp
next
  case (Suc k)
  have "hi_contains m n" using Suc.prems(1) [rule_format, of 0] by simp
  then have "free_id m n = free_id m (n + 1)" by (subst free_id.simps) simp
  also have "\<dots> = Some (n + 1 + word_of_nat k, n + 1 + word_of_nat k + 1)"
  proof (rule Suc.IH)
    show "\<forall>i<k. hi_contains m (n + 1 + word_of_nat i)"
      using Suc.prems(1) by (metis (no_types, lifting) Suc_less_eq add.assoc of_nat_Suc)
    show "\<not> hi_contains m (n + 1 + word_of_nat k)"
      using Suc.prems(2) by (simp add: add.assoc)
  qed
  finally show ?case by (simp add: add.assoc)
qed

lemma free_id_unused:
  assumes "free_id m n = Some y"
  shows "\<not> hi_contains m (fst y)"
  by (rule free_id.raw_induct [where P = "\<lambda>m n y. \<not> hi_contains m (fst y)", OF _ assms])
    (auto split: if_splits)

lemma free_id_returns:
  fixes m :: "(u32, 'v) hindex"
  assumes "length m < 2 ^ 32"
  obtains k where "free_id m n = Some (n + word_of_nat k, n + word_of_nat k + 1)"
    "\<not> hi_contains m (n + word_of_nat k)" "\<forall>i < k. hi_contains m (n + word_of_nat i)"
proof -
  have "card (fst ` set m) < CARD(u32)"
    using assms card_image_le [of "set m" fst] card_length [of m] by (simp add: card_word)
  then have "fst ` set m \<noteq> UNIV" by auto
  then obtain v where "\<not> hi_contains m v" by (auto simp: hi_contains_def hi_get_eq_None_iff)
  then have "\<not> hi_contains m (n + word_of_nat (unat (v - n)))" by simp
  then obtain k where "\<not> hi_contains m (n + word_of_nat k)" "\<forall>i < k. hi_contains m (n + word_of_nat i)"
    using exists_least_iff [of "\<lambda>k. \<not> hi_contains m (n + word_of_nat k)"] by blast
  with free_id_skip that show ?thesis by metis
qed

section \<open>Operations on the directory\<close>

lemma hi_get_remove_fun: "hi_get (hi_remove k m) = (hi_get m)(k := None)"
  by (auto simp: hi_get_remove)

lemma hi_get_insert_fun:
  "hi_get (hi_insert k v m) = (if hi_get m k = None then (hi_get m)(k \<mapsto> v) else hi_get m)"
  by (auto simp: hi_get_insert)

lemma hi_get_empty_iff: "hi_get m = Map.empty \<longleftrightarrow> m = []"
proof (cases m)
  case (Cons a m)
  then have "hi_get (a # m) (fst a) = Some (snd a)" by (cases a) (simp add: hi_get_def)
  with Cons show ?thesis by (metis list.distinct(1) option.distinct(1))
qed (auto simp: hi_get_def)

lemma directory_sel [simp]:
  "d_sessions (directory_of st) = hi_get (st_clients st)"
  "d_objects (directory_of st) r = map_option ident_of (st_heap st r)"
  "d_without_udp (directory_of st) = hi_get (st_clients_without_udp st)"
  "d_sockets (directory_of st) = hi_get (st_clients_by_socket st)"
  "d_channels (directory_of st) k = map_option members_of (hi_get (st_channels st) k)"
  "d_active (directory_of st) = st_active_clients st"
  "d_session_count (directory_of st) = st_session_count st"
  "d_next (directory_of st) = st_next st"
  by (simp_all add: directory_of_def)

lemma ident_of_sel [simp]:
  "i_session (ident_of c) = cl_session_id c" "i_channel (ident_of c) = cl_channel_id c"
  "i_socket (ident_of c) = cl_udp_socket_addr c"
  by (simp_all add: ident_of_def)

lemma members_of_sel [simp]:
  "m_temporary (members_of ch) = ch_temporary ch" "m_clients (members_of ch) = hi_get (ch_clients ch)"
  "m_listeners (members_of ch) = hi_get (ch_listeners ch)"
  by (simp_all add: members_of_def)

lemma directory_eqI:
  assumes "d_sessions d = d_sessions e" "\<And>r. d_objects d r = d_objects e r" "d_without_udp d = d_without_udp e"
    "d_sockets d = d_sockets e" "\<And>k. d_channels d k = d_channels e k" "d_active d = d_active e"
    "d_session_count d = d_session_count e" "d_next d = d_next e"
  shows "d = (e :: directory)"
  using assms by (intro directory.equality ext) simp_all

lemma directory_delete_channel:
  "directory_of (fst (delete_channel x cid st)) =
     (directory_of st)\<lparr>d_channels := (d_channels (directory_of st))(cid := None)\<rparr>"
  by (rule directory_eqI) (simp_all add: delete_channel_def Let_def split_def hi_get_remove)

lemma directory_left:
  "directory_of (fst (handle_client_left_channel x sid cid st)) = dir_leave sid cid (directory_of st)"
proof (cases "hi_get (st_channels st) cid")
  case None
  then show ?thesis
    by (intro directory_eqI) (simp_all add: handle_client_left_channel_def dir_leave_def directory_delete_channel)
next
  case (Some c)
  have empty: "hi_remove sid (ch_clients c) = [] \<longleftrightarrow> (m_clients (members_of c))(sid := None) = Map.empty"
    by (simp add: members_of_def hi_get_remove_fun [symmetric] hi_get_empty_iff)
  show ?thesis
  proof (cases "ch_temporary c \<and> hi_remove sid (ch_clients c) = []")
    case True
    then have "directory_of (fst (handle_client_left_channel x sid cid st)) =
        (directory_of st)\<lparr>d_channels := (d_channels (directory_of st))(cid := None)\<rparr>"
      using Some by (simp add: handle_client_left_channel_def get_clients_def directory_delete_channel)
        (intro directory_eqI; simp add: hi_get_modify)
    with True Some empty show ?thesis by (simp add: dir_leave_def)
  next
    case False
    with Some empty show ?thesis
      by (intro directory_eqI)
        (auto simp: handle_client_left_channel_def dir_leave_def get_clients_def hi_get_modify members_of_def
          hi_get_remove_fun)
  qed
qed

lemmas find_channel_snd = find_channel [unfolded split_def]

lemma directory_move:
  assumes "channels_wf (st_channels st)"
  shows "directory_of (fst (set_client_channel x r cid st)) = dir_move r cid (directory_of st)"
proof (cases "st_heap st r")
  case None
  then show ?thesis by (simp add: set_client_channel_def dir_move_def)
next
  case (Some c)
  let ?c = "c\<lparr>cl_channel_id := cid\<rparr>"
  let ?st = "put_client r ?c st"
  have put: "directory_of ?st = (directory_of st)\<lparr>d_objects := (d_objects (directory_of st))(r \<mapsto>
      (ident_of c)\<lparr>i_channel := cid\<rparr>)\<rparr>"
    by (intro directory_eqI) (simp_all add: put_client_def ident_of_def)
  have joined: "join_channel cid c = (?c, if cid = cl_channel_id c then None else Some (cl_channel_id c))"
    by (simp add: join_channel_def)
  show ?thesis
  proof (cases "hi_get (st_channels st) cid")
    case None
    with Some show ?thesis
      by (simp add: set_client_channel_def dir_move_def find_channel_snd assms frame put split_def Let_def joined)
  next
    case ch: (Some ch)
    let ?enter = "?st\<lparr>st_channels := hi_modify cid
      (\<lambda>ch. ch\<lparr>ch_clients := hi_insert (cl_session_id c) r (ch_clients ch)\<rparr>) (st_channels st)\<rparr>"
    have "directory_of ?enter = dir_enter (cl_session_id c) r cid (directory_of ?st)"
      by (intro directory_eqI)
        (simp_all add: dir_enter_def hi_get_modify members_of_def hi_get_insert_fun frame ch)
    with Some ch show ?thesis
      by (simp add: set_client_channel_def dir_move_def find_channel_snd assms frame put split_def Let_def
          directory_left joined)
  qed
qed

lemma set_client_channel_error:
  assumes "channels_wf (st_channels st)"
  shows "snd (set_client_channel x r cid st) = Inl ChannelDoesntExist \<longleftrightarrow>
    st_heap st r \<noteq> None \<and> hi_get (st_channels st) cid = None"
  using assms
  by (auto simp: set_client_channel_def find_channel_snd frame split_def Let_def split: option.split)

lemma channels_wf_left [index_wf]:
  assumes "channels_wf (st_channels st)"
  shows "channels_wf (st_channels (fst (handle_client_left_channel x sid cid st)))"
  using assms channels_wf_get [OF assms]
  by (auto simp: handle_client_left_channel_def delete_channel_def Let_def split_def frame
      intro!: channels_wf_modify channels_wf_remove hi_wf_remove split: option.split)

lemma hi_retain_remove: "hi_retain (\<lambda>k _. k \<noteq> sid) m = hi_remove sid m"
  by (simp add: hi_retain_def hi_remove_def)

lemma dir_leave_left: "d_channels (dir_leave sid cid d) cid = Some m \<Longrightarrow> m_clients m sid = None"
  by (auto simp: dir_leave_def Let_def split: option.splits if_splits)

lemma directory_close:
  assumes "channels_wf (st_channels st)"
  shows "directory_of (close_client x sid r c st) = dir_close sid r (ident_of c) (directory_of st)"
proof -
  define st1 where "st1 = (let st = st\<lparr>st_clients_without_udp := hi_remove sid (st_clients_without_udp st)\<rparr>;
          st = st\<lparr>st_active_clients := st_active_clients st - 1\<rparr>;
          st = put_client r (c\<lparr>cl_cancelled := True, cl_udp_socket_addr := None\<rparr>) st;
          st = st\<lparr>st_shutdown := st_shutdown st @ [r]\<rparr>
      in case cl_udp_socket_addr c of Some a \<Rightarrow> remove_client_by_socket a st | None \<Rightarrow> st)"
  define st2 where "st2 = broadcast_client_delete x sid (cl_channel_id c) st1"
  have wf: "channels_wf (st_channels st2)"
    using assms by (auto simp: st2_def st1_def broadcast_client_delete_def Let_def split_def frame
        remove_client_by_socket_def intro!: channels_wf_left split: option.split)
  have d1: "directory_of st1 = (directory_of st)\<lparr>
      d_without_udp := (d_without_udp (directory_of st))(sid := None), d_active := d_active (directory_of st) - 1,
      d_objects := (d_objects (directory_of st))(r \<mapsto> (ident_of c)\<lparr>i_socket := None\<rparr>),
      d_sockets := (case cl_udp_socket_addr c of Some a \<Rightarrow> (d_sockets (directory_of st))(a := None)
        | None \<Rightarrow> d_sockets (directory_of st))\<rparr>"
    by (rule directory_eqI) (auto simp: st1_def Let_def put_client_def remove_client_by_socket_def
        hi_get_remove_fun ident_of_def split: option.split)
  then have d2: "directory_of st2 = dir_close sid r (ident_of c) (directory_of st)"
    by (simp add: st2_def broadcast_client_delete_def directory_left dir_close_def split_def)
  have "directory_of (st2\<lparr>st_channels := hi_modify (cl_channel_id c)
      (\<lambda>ch. ch\<lparr>ch_clients := hi_retain (\<lambda>s _. s \<noteq> sid) (ch_clients ch)\<rparr>) (st_channels st2)\<rparr>) = directory_of st2"
  proof (rule directory_eqI)
    fix k
    have "(hi_get (ch_clients ch))(sid := None) = hi_get (ch_clients ch)"
      if "hi_get (st_channels st2) (cl_channel_id c) = Some ch" for ch
    proof -
      have "d_channels (directory_of st2) (cl_channel_id c) = Some (members_of ch)" using that by simp
      then have "m_clients (members_of ch) sid = None" unfolding d2 dir_close_def ident_of_sel by (rule dir_leave_left)
      then show ?thesis by auto
    qed
    then show "d_channels (directory_of (st2\<lparr>st_channels := hi_modify (cl_channel_id c)
        (\<lambda>ch. ch\<lparr>ch_clients := hi_retain (\<lambda>s _. s \<noteq> sid) (ch_clients ch)\<rparr>) (st_channels st2)\<rparr>)) k =
      d_channels (directory_of st2) k"
      by (cases "hi_get (st_channels st2) (cl_channel_id c)")
        (simp_all add: hi_get_modify hi_retain_remove hi_get_remove_fun members_of_def)
  qed simp_all
  moreover have "close_client x sid r c st =
    (if hi_get (st_channels st2) (cl_channel_id c) = None then st2
     else st2\<lparr>st_channels := hi_modify (cl_channel_id c)
       (\<lambda>ch. ch\<lparr>ch_clients := hi_retain (\<lambda>s _. s \<noteq> sid) (ch_clients ch)\<rparr>) (st_channels st2)\<rparr>)"
    by (auto simp: close_client_def Let_def st2_def [symmetric] st1_def [unfolded Let_def, symmetric]
        get_channel_by_channel_id_def find_channel [OF wf] split: option.split)
  ultimately show ?thesis using d2 by simp
qed

lemma directory_commit:
  assumes "channels_wf (st_channels st)"
  shows "directory_of (disconnect_commit x sid found st) = dir_commit sid found (directory_of st)"
proof (cases "hi_contains (st_clients st) sid")
  case False
  then have "hi_remove sid (st_clients st) = st_clients st" by (rule hi_remove_absent)
  with False show ?thesis by (simp add: disconnect_commit_def dir_commit_def hi_contains_def)
next
  case True
  let ?st = "st\<lparr>st_clients := hi_remove sid (st_clients st)\<rparr>"
  have d: "directory_of ?st = (directory_of st)\<lparr>d_sessions := (d_sessions (directory_of st))(sid := None)\<rparr>"
    by (rule directory_eqI) (simp_all add: hi_get_remove_fun)
  show ?thesis
  proof (cases "Option.bind found (st_heap st)")
    case None
    with True d show ?thesis
      by (cases found) (auto simp: disconnect_commit_def dir_commit_def hi_contains_def)
  next
    case (Some c)
    then obtain r where "found = Some r" "st_heap st r = Some c" by (cases found) auto
    with True directory_close [of ?st x sid r c] assms d show ?thesis
      by (auto simp: disconnect_commit_def dir_commit_def hi_contains_def)
  qed
qed

lemma dir_move_sessions [simp]: "d_sessions (dir_move r cid d) = d_sessions d"
  by (simp add: dir_move_def dir_enter_def dir_leave_def Let_def split: option.split)

lemma dir_leave_sel [simp]:
  "d_sessions (dir_leave sid cid d) = d_sessions d" "d_objects (dir_leave sid cid d) = d_objects d"
  "d_without_udp (dir_leave sid cid d) = d_without_udp d" "d_sockets (dir_leave sid cid d) = d_sockets d"
  "d_active (dir_leave sid cid d) = d_active d" "d_session_count (dir_leave sid cid d) = d_session_count d"
  "d_next (dir_leave sid cid d) = d_next d" "k \<noteq> cid \<Longrightarrow> d_channels (dir_leave sid cid d) k = d_channels d k"
  by (simp_all add: dir_leave_def Let_def split: option.split)

lemma dir_commit_sessions [simp]: "d_sessions (dir_commit sid found d) = (d_sessions d)(sid := None)"
  by (auto simp: dir_commit_def dir_close_def Let_def split: option.split)

lemma dir_commit_other_channels:
  "d_sessions d sid \<noteq> None \<Longrightarrow> d_objects d r = Some i \<Longrightarrow> k \<noteq> i_channel i \<Longrightarrow>
   d_channels (dir_commit sid (Some r) d) k = d_channels d k"
  by (simp add: dir_commit_def dir_close_def Let_def)

lemma directory_disconnect:
  assumes "channels_wf (st_channels st)"
  shows "directory_of (disconnect x sid reason st) =
    dir_commit sid (d_sessions (directory_of st) sid) (directory_of st)"
proof (cases "hi_get (st_clients st) sid")
  case (Some r)
  then show ?thesis
    using assms
    by (cases "st_heap st r") (auto simp: disconnect_def directory_commit disconnect_lookup_def upgrade_def
        get_client_by_session_id_def dir_commit_def)
qed (simp add: disconnect_def directory_commit assms disconnect_lookup_def get_client_by_session_id_def)

section \<open>Broadcasts\<close>

text \<open>What a client looks like after a message was handed to its task, if there was room.\<close>

definition handed :: "client_message \<Rightarrow> client \<Rightarrow> client" where
  "handed m c = (case try_send m c of Some c' \<Rightarrow> c' | None \<Rightarrow> c)"

lemma publish_heap:
  "st_heap (publish m r st) r' = (if r' = r then map_option (handed m) (st_heap st r) else st_heap st r')"
  by (auto simp: publish_def handed_def frame split: option.split)

lemma handed_session [simp]: "cl_session_id (handed m c) = cl_session_id c"
  by (auto simp: handed_def try_send_def Let_def)

lemma publish_all_heap:
  assumes "distinct (map snd rs)"
  shows "st_heap (fold (\<lambda>(_, r). publish m r) rs st) r =
    (if r \<in> snd ` set rs then map_option (handed m) (st_heap st r) else st_heap st r)"
  using assms
proof (induction rs arbitrary: st)
  case (Cons a rs)
  then show ?case by (cases a) (auto simp: publish_heap)
qed simp

lemma publish_queue:
  "hi_contains (st_disconnect_queue (publish m r st)) sid \<longleftrightarrow> hi_contains (st_disconnect_queue st) sid \<or>
     (\<exists>c. st_heap st r = Some c \<and> try_send m c = None \<and> cl_session_id c = sid)"
  by (auto simp: publish_def add_client_to_disconnect_queue_def hi_contains_def hi_get_insert put_client_def
      split: option.split)

lemma publish_all_queue:
  assumes "distinct (map snd rs)"
  shows "hi_contains (st_disconnect_queue (fold (\<lambda>(_, r). publish m r) rs st)) sid \<longleftrightarrow>
    hi_contains (st_disconnect_queue st) sid \<or>
    (\<exists>r \<in> snd ` set rs. \<exists>c. st_heap st r = Some c \<and> try_send m c = None \<and> cl_session_id c = sid)"
  using assms
proof (induction rs arbitrary: st)
  case (Cons a rs)
  obtain s b where a: "a = (s, b)" by (cases a)
  have "st_heap (publish m b st) r = st_heap st r" if "r \<in> snd ` set rs" for r
    using Cons.prems that by (auto simp: publish_heap a)
  with Cons.IH [of "publish m b st"] Cons.prems show ?case by (simp add: a publish_queue)
qed simp

text \<open>Every connected client is filed under its session id, so no object is filed twice.\<close>

definition sessions_ok :: "server_state \<Rightarrow> bool" where
  "sessions_ok st \<longleftrightarrow>
     (\<forall>(sid, r) \<in> set (st_clients st). \<exists>c. st_heap st r = Some c \<and> cl_session_id c = sid)"

lemma refs_distinct:
  assumes "hi_wf m" and "\<And>sid r. hi_get m sid = Some r \<Longrightarrow> \<exists>c. st_heap st r = Some c \<and> cl_session_id c = sid"
  shows "distinct (map snd m)"
proof -
  have "inj_on snd (set m)"
  proof (rule inj_onI)
    fix p q
    assume "p \<in> set m" "q \<in> set m" "snd p = snd q"
    with assms(2) [unfolded hi_get_eq_Some_iff [OF assms(1)]] show "p = q" by (cases p; cases q) fastforce
  qed
  moreover have "distinct m" using assms(1) by (simp add: hi_wf_def distinct_map)
  ultimately show ?thesis by (simp add: distinct_map)
qed

lemma sessions_distinct:
  assumes "hi_wf (st_clients st)" and "sessions_ok st"
  shows "distinct (map snd (st_clients st))"
  using assms by (intro refs_distinct [of _ st]) (auto simp: sessions_ok_def dest!: hi_get_SomeD)

section \<open>Properties\<close>

text \<open>A small server for the witnesses: two clients, one of them in a temporary channel.\<close>

definition demo_client :: "u32 \<Rightarrow> u32 \<Rightarrow> client" where
  "demo_client sid cid = client_new Version_new (Authenticate_new\<lparr>Authenticate_username := Some ''[1] ann''\<rparr>) sid cid
     (crypt_default (replicate 16 7) 0) \<lparr>tw_sent = [], tw_error = None, tw_cancel_first = True\<rparr>
     \<lparr>uo_sent = [], uo_result = UdpSent\<rparr> \<lparr>pub_queue = [], pub_closed = False\<rparr> (V4 10 0 0 1) 0"

definition demo_state :: server_state where
  "demo_state = (state_new std_ext \<lparr>uo_sent = [], uo_result = UdpSent\<rparr> False None
       (anticheat_new True 50 15 20 10 3 0 0 None None ''s'') \<lparr>bl_bans = [], bl_next_id = 1, bl_file = None\<rparr>)
     \<lparr>st_clients := [(1, 0), (2, 1)], st_clients_without_udp := [(1, 0), (2, 1)],
      st_channels := [(0, channel_new 0 (Some 0) ''Root'' ''Root channel'' False),
        (1, (channel_new 1 (Some 0) ''x'' [] True)\<lparr>ch_clients := [(2, 1)]\<rparr>)],
      st_session_count := 3, st_channel_count := 2, st_active_clients := 2,
      st_heap := [0 \<mapsto> demo_client 1 0, 1 \<mapsto> demo_client 2 1], st_next := 2\<rparr>"

lemma demo_client_sel [simp]:
  "cl_session_id (demo_client sid cid) = sid" "cl_channel_id (demo_client sid cid) = cid"
  "cl_udp_socket_addr (demo_client sid cid) = None"
  "cl_publisher (demo_client sid cid) = \<lparr>pub_queue = [], pub_closed = False\<rparr>"
  "\<not> cl_mute (demo_client sid cid)" "\<not> cl_deaf (demo_client sid cid)" "\<not> cl_cancelled (demo_client sid cid)"
  "cl_bad_net_count (demo_client sid cid) = 0" "cl_last_tcp_ping (demo_client sid cid) = 0"
  "cl_last_udp_ping (demo_client sid cid) = 0" "cl_crypt_state (demo_client sid cid) = crypt_default (replicate 16 7) 0"
  by (simp_all add: demo_client_def client_new_def Let_def)

lemma demo_state_sel [simp]:
  "st_clients demo_state = [(1, 0), (2, 1)]" "st_session_count demo_state = 3"
  "st_heap demo_state = [0 \<mapsto> demo_client 1 0, 1 \<mapsto> demo_client 2 1]"
  "st_channels demo_state = [(0, channel_new 0 (Some 0) ''Root'' ''Root channel'' False),
     (1, (channel_new 1 (Some 0) ''x'' [] True)\<lparr>ch_clients := [(2, 1)]\<rparr>)]"
  "st_clients_without_udp demo_state = [(1, 0), (2, 1)]" "st_clients_by_socket demo_state = []"
  "st_disconnect_queue demo_state = []" "st_next demo_state = 2"
  by (simp_all add: demo_state_def state_new_def)

lemma channel_new_sel [simp]:
  "ch_id (channel_new i p n d t) = i" "ch_clients (channel_new i p n d t) = []"
  "ch_listeners (channel_new i p n d t) = []" "ch_temporary (channel_new i p n d t) = t"
  by (simp_all add: channel_new_def Let_def)

lemma demo_state_wf: "indexes_wf demo_state" "sessions_ok demo_state"
  by (simp_all add: indexes_wf_def channels_wf_def sessions_ok_def) (simp_all add: hi_wf_def)

text \<open>
  C29: A joining client gets a session id. Unless all \<open>2\<^sup>3\<^sup>2\<close> ids are in use the loop of
  \<open>get_free_session_id\<close> ends, with the first unused id from the counter on, and the counter moves
  behind it; when all are in use it never ends.
\<close>

theorem get_free_session_id_returns:
  assumes "length (st_clients st) < 2 ^ 32"
  shows "\<exists>k. get_free_session_id st =
      Some (st_session_count st + word_of_nat k,
            st\<lparr>st_session_count := st_session_count st + word_of_nat k + 1\<rparr>) \<and>
    \<not> hi_contains (st_clients st) (st_session_count st + word_of_nat k) \<and>
    (\<forall>i < k. hi_contains (st_clients st) (st_session_count st + word_of_nat i)) \<and>
    (\<forall>st'. (\<forall>sid. hi_contains (st_clients st') sid) \<longrightarrow> get_free_session_id st' = None)"
proof -
  have "get_free_session_id st' = None" if "\<forall>sid. hi_contains (st_clients st') sid" for st'
    using that free_id_unused [of "st_clients st'" "st_session_count st'"]
    by (cases "free_id (st_clients st') (st_session_count st')") (auto simp: get_free_session_id_def)
  moreover obtain k where "free_id (st_clients st) (st_session_count st) =
      Some (st_session_count st + word_of_nat k, st_session_count st + word_of_nat k + 1)"
    "\<not> hi_contains (st_clients st) (st_session_count st + word_of_nat k)"
    "\<forall>i < k. hi_contains (st_clients st) (st_session_count st + word_of_nat i)"
    using free_id_returns [OF assms] by metis
  ultimately show ?thesis by (intro exI [of _ k]) (simp add: get_free_session_id_def)
qed

theorem get_free_session_id_returns_witness:
  "\<exists>k. get_free_session_id demo_state = Some (3 + word_of_nat k, demo_state\<lparr>st_session_count := 3 + word_of_nat k + 1\<rparr>)"
  using get_free_session_id_returns [of demo_state] by auto

text \<open>
  C11: Changing the channel. \<open>set_client_channel\<close> implements a move in the directory: the client
  enters the new channel and leaves the old one, which disappears if it was temporary and the
  client the last in it; nobody else is affected. If the channel does not exist the call
  fails, and the client object still names the missing channel.
\<close>

theorem set_client_channel_refines:
  assumes "indexes_wf st" and "st_heap st r = Some c"
  shows "directory_of (fst (set_client_channel x r cid st)) = dir_move r cid (directory_of st) \<and>
    snd (set_client_channel x r cid st) =
      (if hi_contains (st_channels st) cid then Inr () else Inl ChannelDoesntExist)"
  using assms directory_move [of st x r cid] indexes_wfD(5) [OF assms(1)]
  by (auto simp: set_client_channel_def find_channel_snd frame split_def Let_def hi_contains_def
      split: option.split)

theorem set_client_channel_refines_witness:
  "directory_of (fst (set_client_channel std_ext 0 1 demo_state)) = dir_move 0 1 (directory_of demo_state) \<and>
   snd (set_client_channel std_ext 0 9 demo_state) = Inl ChannelDoesntExist"
  using set_client_channel_refines [OF demo_state_wf(1), of 0 _ std_ext 1]
    set_client_channel_refines [OF demo_state_wf(1), of 0 _ std_ext 9]
  by (simp add: hi_contains_def hi_get_def)

text \<open>
  C12: Disconnecting a session implements the removal in the directory: the session is gone from the
  clients, from the clients without a UDP address and from the addresses, its channel is left (and
  deleted if temporary and empty), the count of active clients drops by one, and everything else
  is unchanged; a session that is not connected changes nothing.
\<close>

theorem disconnect_refines:
  assumes "indexes_wf st"
  shows "directory_of (disconnect x sid reason st) =
    (case hi_get (st_clients st) sid of
       None \<Rightarrow> directory_of st
     | Some r \<Rightarrow>
         let d = (directory_of st)\<lparr>d_sessions := (d_sessions (directory_of st))(sid := None)\<rparr>
         in case st_heap st r of None \<Rightarrow> d | Some c \<Rightarrow> dir_close sid r (ident_of c) d)"
  using directory_disconnect [OF indexes_wfD(5) [OF assms]]
  by (cases "hi_get (st_clients st) sid") (auto simp: dir_commit_def Let_def split: option.split)

theorem disconnect_refines_witness:
  "hi_get (st_clients (disconnect std_ext 2 Disconnected demo_state)) = [1 \<mapsto> 0] \<and>
   hi_get (st_channels (disconnect std_ext 2 Disconnected demo_state)) 1 = None"
proof -
  let ?st = "disconnect std_ext 2 Disconnected demo_state"
  have "d_sessions (directory_of ?st) = [1 \<mapsto> 0]" and "d_channels (directory_of ?st) 1 = None"
    unfolding disconnect_refines [OF demo_state_wf(1), of std_ext 2 Disconnected]
    by (auto simp: hi_get_def dir_close_def dir_leave_def Let_def)
  then show ?thesis by simp
qed

text \<open>
  C30: A broadcast reaches everyone exactly once. Every connected client with room in its queue gets
  the message appended to it, once; every other connected client is put on the disconnect queue,
  where nobody else is put; clients that are not connected get nothing.
\<close>

theorem broadcast_reaches_all:
  assumes "hi_wf (st_clients st)" and "sessions_ok st" and "msg_to_bytes x kind m = Inr bs"
    and "st_heap st r = Some c" and "st' = fst (broadcast_message x kind m st)"
  shows "st_heap st' r = Some (if r \<in> snd ` set (st_clients st) then handed (SendMessage kind bs) c else c) \<and>
    (hi_contains (st_disconnect_queue st') sid \<longleftrightarrow> hi_contains (st_disconnect_queue st) sid \<or>
       (\<exists>q d. hi_get (st_clients st) sid = Some q \<and> st_heap st q = Some d \<and>
          try_send (SendMessage kind bs) d = None))"
proof -
  have "(\<exists>q \<in> snd ` set (st_clients st). \<exists>d. st_heap st q = Some d \<and>
        try_send (SendMessage kind bs) d = None \<and> cl_session_id d = sid) \<longleftrightarrow>
      (\<exists>q d. hi_get (st_clients st) sid = Some q \<and> st_heap st q = Some d \<and>
        try_send (SendMessage kind bs) d = None)"
    using assms(2) by (force simp: sessions_ok_def hi_get_eq_Some_iff [OF assms(1)])
  then show ?thesis
    using assms(3-5) sessions_distinct [OF assms(1,2)]
    by (simp add: broadcast_message_def publish_all_heap publish_all_queue)
qed

theorem broadcast_reaches_all_witness:
  "\<exists>bs. st_heap (fst (broadcast_message std_ext KUserState (MUserState UserState_new) demo_state)) 0 =
     Some (handed (SendMessage KUserState bs) (demo_client 1 0))"
proof -
  obtain bs where "msg_to_bytes std_ext KUserState (MUserState UserState_new) = Inr bs"
    by (simp add: msg_to_bytes_def message_to_bytes_def UserState_is_initialized_def)
  from broadcast_reaches_all [OF indexes_wfD(1) [OF demo_state_wf(1)] demo_state_wf(2) this _ refl, of 0]
  show ?thesis by auto
qed

text \<open>
  C31: A client that asks for a channel that does not exist is never removed from the one it was in.
  The request fails, but the client object already names the missing channel, so the disconnect that
  follows leaves the wrong channel: the old one keeps listing the client that is gone, and
  therefore also stays when it is temporary.
\<close>

theorem missing_channel_keeps_member:
  assumes "indexes_wf st" and "hi_get (st_clients st) sid = Some r" and "st_heap st r = Some c"
    and "cl_session_id c = sid" and "hi_get (st_channels st) (cl_channel_id c) = Some ch"
    and "hi_get (ch_clients ch) sid = Some r" and "hi_get (st_channels st) cid = None"
    and "st1 = fst (set_client_channel x r cid st)" and "st2 = disconnect x sid reason st1"
  shows "hi_get (st_clients st2) sid = None \<and>
    (\<exists>ch2. hi_get (st_channels st2) (cl_channel_id c) = Some ch2 \<and> hi_get (ch_clients ch2) sid = Some r)"
proof -
  have wf: "channels_wf (st_channels st)" and "st_channels st1 = st_channels st" and
    cl: "st_clients st1 = st_clients st"
    using assms(1,3,7,8) indexes_wfD(5) [OF assms(1)]
    by (auto simp: set_client_channel_def find_channel_snd split_def Let_def frame)
  then have d2: "directory_of st2 = dir_commit sid (Some r) (dir_move r cid (directory_of st))"
    using assms(2) by (simp add: assms(8,9) directory_disconnect directory_move [OF wf])
  have "d_sessions (directory_of st2) sid = None" by (simp add: d2)
  moreover have moved: "dir_move r cid (directory_of st) = (directory_of st)\<lparr>d_objects :=
      (d_objects (directory_of st))(r \<mapsto> (ident_of c)\<lparr>i_channel := cid\<rparr>)\<rparr>"
    using assms(3,7) by (simp add: dir_move_def)
  have "cl_channel_id c \<noteq> cid" using assms(5,7) by auto
  then have "d_channels (directory_of st2) (cl_channel_id c) = Some (members_of ch)"
    using assms(2,5) by (simp add: d2 moved dir_commit_other_channels)
  ultimately show ?thesis using assms(6) by (auto simp: members_of_def)
qed

theorem missing_channel_keeps_member_witness:
  "\<exists>ch. hi_get (st_channels (disconnect std_ext 2 Disconnected (fst (set_client_channel std_ext 1 9 demo_state)))) 1 =
     Some ch \<and> hi_get (ch_clients ch) 2 = Some 1"
  using missing_channel_keeps_member [OF demo_state_wf(1) _ _ _ _ _ _ refl refl,
      of 2 1 "demo_client 2 1" "(channel_new 1 (Some 0) ''x'' [] True)\<lparr>ch_clients := [(2, 1)]\<rparr>" 9]
  by (simp add: hi_get_def)

end
