(* ===== verification/Handlers.thy ===== *)
theory Handlers
  imports State
begin

text \<open>
  The handlers of the control messages and of voice packets, \<open>src/src/handler\<close>, and the two tasks
  that feed them. A handler either returns with a state and a result, or panics (which aborts the
  process), or runs into an endless loop.
\<close>

section \<open>Outcomes\<close>

datatype 'a outcome = Returns 'a | Panics | Hangs

type_synonym handled = "(server_state \<times> (mumble_error + unit)) outcome"

section \<open>Control messages\<close>

definition handle_version :: "Version \<Rightarrow> cref \<Rightarrow> server_state \<Rightarrow> handled" where
  "handle_version m r st = Returns (st, Inr ())"

definition handle_authenticate :: "Authenticate \<Rightarrow> cref \<Rightarrow> server_state \<Rightarrow> handled" where
  "handle_authenticate m r st = Returns (st, Inr ())"

definition ping_stats :: "Ping \<Rightarrow> net_stats" where
  "ping_stats m = \<lparr>ns_udp_packets = unwrap_or 0 (Ping_udp_packets m),
     ns_tcp_packets = unwrap_or 0 (Ping_tcp_packets m), ns_udp_ping_avg = unwrap_or 0 (Ping_udp_ping_avg m),
     ns_udp_ping_var = unwrap_or 0 (Ping_udp_ping_var m), ns_tcp_ping_avg = unwrap_or 0 (Ping_tcp_ping_avg m),
     ns_tcp_ping_var = unwrap_or 0 (Ping_tcp_ping_var m)\<rparr>"

definition handle_ping :: "ext \<Rightarrow> instant \<Rightarrow> Ping \<Rightarrow> cref \<Rightarrow> server_state \<Rightarrow> handled" where
  "handle_ping x now m r st = Returns (client_io r (\<lambda>c.
     let c = c\<lparr>cl_last_tcp_ping := now, cl_net_stats := ping_stats m\<rparr>;
         crypt_st = (cl_crypt_state c)\<lparr>remote_good := unwrap_or 0 (Ping_good m),
           remote_late := unwrap_or 0 (Ping_late m), remote_lost := unwrap_or 0 (Ping_lost m),
           remote_resync := unwrap_or 0 (Ping_resync m)\<rparr>;
         ping = Ping_new\<lparr>Ping_timestamp := Some (unwrap_or 0 (Ping_timestamp m)),
           Ping_good := Some (good crypt_st), Ping_late := Some (late crypt_st),
           Ping_lost := Some (lost crypt_st), Ping_resync := Some (resync crypt_st)\<rparr>
     in send_message x (c\<lparr>cl_crypt_state := crypt_st\<rparr>) KPing (MPing ping)) st)"

definition crypt_stats :: "crypt_state \<Rightarrow> UserStats_Stats" where
  "crypt_stats s = UserStats_Stats_new\<lparr>UserStats_Stats_good := Some (remote_good s),
     UserStats_Stats_late := Some (remote_late s), UserStats_Stats_lost := Some (remote_lost s),
     UserStats_Stats_resync := Some (remote_resync s)\<rparr>"

text \<open>The variance of the UDP pings is written to the field of the TCP pings, which is then overwritten.\<close>

definition handle_user_stats :: "ext \<Rightarrow> UserStats \<Rightarrow> cref \<Rightarrow> server_state \<Rightarrow> handled" where
  "handle_user_stats x m r st = Returns (client_io r (\<lambda>c.
     let stats = cl_net_stats c;
         msg = UserStats_new\<lparr>UserStats_session := Some (cl_session_id c),
           UserStats_from_client := Some (crypt_stats (cl_crypt_state c)),
           UserStats_from_server := Some (crypt_stats (cl_crypt_state c)),
           UserStats_udp_packets := Some (ns_udp_packets stats),
           UserStats_tcp_packets := Some (ns_tcp_packets stats),
           UserStats_udp_ping_avg := Some (ns_udp_ping_avg stats),
           UserStats_tcp_ping_var := Some (ns_udp_ping_var stats),
           UserStats_tcp_ping_avg := Some (ns_tcp_ping_avg stats)\<rparr>;
         msg = msg\<lparr>UserStats_tcp_ping_var := Some (ns_tcp_ping_var stats)\<rparr>
     in send_message x c KUserStats (MUserStats msg)) st)"

definition PERM_DEFAULT :: u32 where
  "PERM_DEFAULT = 0x2 OR 0x4 OR 0x8 OR 0x100 OR 0x200 OR 0x400 OR 0x800"

definition PERM_ADMIN :: u32 where
  "PERM_ADMIN = PERM_DEFAULT OR 0x10 OR 0x20 OR 0x10000 OR 0x20000"

definition handle_permission_query :: "ext \<Rightarrow> PermissionQuery \<Rightarrow> cref \<Rightarrow> server_state \<Rightarrow> handled" where
  "handle_permission_query x m r st = Returns (client_io r (\<lambda>c.
     send_message x c KPermissionQuery (MPermissionQuery (PermissionQuery_new\<lparr>
       PermissionQuery_channel_id := Some (unwrap_or 0 (PermissionQuery_channel_id m)),
       PermissionQuery_permissions := Some PERM_ADMIN\<rparr>))) st)"

definition handle_crypt_setup :: "ext \<Rightarrow> instant \<Rightarrow> CryptSetup \<Rightarrow> cref \<Rightarrow> server_state \<Rightarrow> handled" where
  "handle_crypt_setup x now m r st =
     (case CryptSetup_client_nonce m of
        Some nonce \<Rightarrow>
          (case st_heap st r of
             None \<Rightarrow> Returns (st, Inr ())
           | Some c \<Rightarrow> (case set_decrypt_nonce nonce (cl_crypt_state c) of
               None \<Rightarrow> Panics
             | Some crypt_st \<Rightarrow> Returns (put_client r (c\<lparr>cl_crypt_state := crypt_st\<rparr>) st, Inr ())))
      | None \<Rightarrow> Returns (client_io r (send_crypt_setup x now False) st))"

section \<open>Channels\<close>

definition add_listener :: "u32 \<Rightarrow> cref \<Rightarrow> u32 \<Rightarrow> server_state \<Rightarrow> server_state" where
  "add_listener sid r cid st = st\<lparr>st_channels := hi_modify cid
     (\<lambda>ch. ch\<lparr>ch_listeners := hi_insert sid r (ch_listeners ch)\<rparr>) (st_channels st)\<rparr>"

definition remove_listener :: "u32 \<Rightarrow> u32 \<Rightarrow> server_state \<Rightarrow> server_state" where
  "remove_listener sid cid st = st\<lparr>st_channels := hi_modify cid
     (\<lambda>ch. ch\<lparr>ch_listeners := hi_remove sid (ch_listeners ch)\<rparr>) (st_channels st)\<rparr>"

definition handle_user_state :: "ext \<Rightarrow> UserState \<Rightarrow> cref \<Rightarrow> server_state \<Rightarrow> handled" where
  "handle_user_state x m r st =
     (case st_heap st r of
        None \<Rightarrow> Returns (st, Inr ())
      | Some c \<Rightarrow>
          let sid = cl_session_id c in
          if unwrap_or 0 (UserState_session m) \<noteq> sid then Returns (st, Inr ())
          else
            let st = put_client r (client_update m c) st;
                (st, res) = (case UserState_channel_id m of
                  Some cid \<Rightarrow> set_client_channel x r cid st | None \<Rightarrow> (st, Inr ()))
            in (case res of
                  Inl e \<Rightarrow> Returns (st, Inl e)
                | Inr _ \<Rightarrow>
                    let st = fold (add_listener sid r) (UserState_listening_channel_add m) st;
                        st = fold (remove_listener sid) (UserState_listening_channel_remove m) st
                    in Returns (st, Inr ())))"

definition handle_channel_state :: "ext \<Rightarrow> ChannelState \<Rightarrow> cref \<Rightarrow> server_state \<Rightarrow> handled" where
  "handle_channel_state x m r st =
     (if ChannelState_channel_id m \<noteq> None then Returns (st, Inr ())
      else if ChannelState_parent m = None then Returns (st, Inr ())
      else if ChannelState_name m = None then Returns (st, Inr ())
      else if \<not> unwrap_or False (ChannelState_temporary m) then Returns (st, Inr ())
      else
        let nm = unwrap_or [] (ChannelState_name m) in
        if length nm > 512 then Returns (st, Inr ())
        else if \<not> hi_contains (st_channels st) (unwrap_or 0 (ChannelState_parent m)) then Returns (st, Inr ())
        else if get_channel_by_name nm st \<noteq> None then Returns (st, Inr ())
        else (case add_channel m st of
                None \<Rightarrow> Hangs
              | Some (ch, st) \<Rightarrow>
                  let (st, err) = broadcast_message x KChannelState (MChannelState (get_channel_state ch)) st;
                      (st, res) = set_client_channel x r (ch_id ch) st
                  in (case res of Inl e \<Rightarrow> Returns (st, Inl e) | Inr _ \<Rightarrow> Returns (st, err))))"

section \<open>Voice targets\<close>

definition set_target :: "u8 \<Rightarrow> voice_target \<Rightarrow> client \<Rightarrow> client" where
  "set_target ident t c = c\<lparr>cl_targets := (cl_targets c)[unat (ident - 1) := t]\<rparr>"

text \<open>One item of the message: its sessions, then its channel, each with the key for the anticheat.\<close>

definition add_target_item :: "VoiceTarget_Target \<Rightarrow> voice_target \<times> u64 list \<Rightarrow> voice_target \<times> u64 list" where
  "add_target_item it acc =
     (let (t, keys) = fold (\<lambda>s (t, keys).
            (t\<lparr>vt_sessions := hi_insert s () (vt_sessions t)\<rparr>, keys @ [key_session s]))
            (VoiceTarget_Target_session it) acc
      in case VoiceTarget_Target_channel_id it of
           Some cid \<Rightarrow> (t\<lparr>vt_channels := hi_insert cid () (vt_channels t)\<rparr>, keys @ [key_channel cid])
         | None \<Rightarrow> (t, keys))"

definition handle_voice_target :: "instant \<Rightarrow> VoiceTarget \<Rightarrow> cref \<Rightarrow> server_state \<Rightarrow> handled" where
  "handle_voice_target now m r st =
     (let ident = unwrap_or 0 (VoiceTarget_id m) in
      if ident < 1 \<or> ident \<ge> 31 then Returns (st, Inl InvalidVoiceTarget)
      else case st_heap st r of
        None \<Rightarrow> Returns (st, Inr ())
      | Some c \<Rightarrow> (case get_target c (ucast ident) of
          None \<Rightarrow> Returns (st, Inr ())
        | Some t \<Rightarrow>
            let (t, keys) = fold add_target_item (VoiceTarget_targets m) (t\<lparr>vt_sessions := [], vt_channels := []\<rparr>, []);
                c = set_target (ucast ident) t c
            in Returns (put_client r (record_targets (st_anticheat st) now keys c) st, Inr ())))"

section \<open>Voice packets\<close>

definition insert_all :: "(u32, cref) hindex \<Rightarrow> (u32, cref) hindex \<Rightarrow> (u32, cref) hindex" where
  "insert_all new acc = fold (\<lambda>(sid, r). hi_insert sid r) new acc"

definition session_audience :: "server_state \<Rightarrow> u32 \<Rightarrow> (u32, cref) hindex \<Rightarrow> (u32, cref) hindex" where
  "session_audience st sid acc =
     (case hi_get (st_clients st) sid of Some r \<Rightarrow> hi_insert sid r acc | None \<Rightarrow> acc)"

definition session_listeners :: "server_state \<Rightarrow> voice_target \<Rightarrow> (u32, cref) hindex \<Rightarrow> (u32, cref) hindex" where
  "session_listeners st t acc = fold (\<lambda>(sid, _). session_audience st sid) (vt_sessions t) acc"

definition channel_audience :: "server_state \<Rightarrow> u32 \<Rightarrow> (u32, cref) hindex \<Rightarrow> (u32, cref) hindex" where
  "channel_audience st cid acc =
     (case hi_get (st_channels st) cid of
        Some ch \<Rightarrow> insert_all (ch_clients ch) (insert_all (ch_listeners ch) acc)
      | None \<Rightarrow> acc)"

definition channel_listeners :: "server_state \<Rightarrow> voice_target \<Rightarrow> (u32, cref) hindex \<Rightarrow> (u32, cref) hindex" where
  "channel_listeners st t acc = fold (\<lambda>(cid, _). channel_audience st cid) (vt_channels t) acc"

text \<open>The clients that a packet of the client \<open>c\<close> with this target is for, before the speaker is taken out.\<close>

definition listening_clients :: "u8 \<Rightarrow> client \<Rightarrow> server_state \<Rightarrow> (u32, cref) hindex" where
  "listening_clients tgt c st =
     (if tgt = 0 then
        (case get_channel_by_channel_id (cl_channel_id c) st of
           Some (_, ch) \<Rightarrow> insert_all (ch_clients ch) []
         | None \<Rightarrow> [])
      else if 1 \<le> tgt \<and> tgt \<le> 30 then
        (case get_target c tgt of
           Some t \<Rightarrow> channel_listeners st t (session_listeners st t [])
         | None \<Rightarrow> [])
      else [])"

definition deliver ::
    "instant \<Rightarrow> client \<Rightarrow> bool \<Rightarrow> client_message \<Rightarrow> cref \<Rightarrow> u32 \<times> server_state \<Rightarrow> u32 \<times> server_state" where
  "deliver now speaker record_heard m r acc =
     (let (recipients, st) = acc in
      case st_heap st r of
        None \<Rightarrow> (recipients, st)
      | Some cl \<Rightarrow>
          if cl_deaf cl then (recipients, st)
          else
            let st = (if record_heard then put_client r (note_heard (st_anticheat st) now speaker cl) st else st)
            in (recipients + 1, publish m r st))"

definition packet_position :: "anticheat_config \<Rightarrow> instant \<Rightarrow> bytes option \<Rightarrow> client \<Rightarrow> client" where
  "packet_position cfg now pos c =
     (case pos of
        Some p \<Rightarrow>
          if length p \<ge> 12
          then note_position cfg now (of_le (take 4 p), of_le (take 4 (drop 4 p)), of_le (take 4 (drop 8 p))) c
          else c
      | None \<Rightarrow> c)"

definition heard_due :: "anticheat_config \<Rightarrow> instant \<Rightarrow> client \<Rightarrow> bool" where
  "heard_due cfg now c \<longleftrightarrow> acc_enabled cfg \<and> duration_since now (ac_last_heard_rec (cl_ac c)) \<ge> secs 1"

definition route_packet :: "instant \<Rightarrow> u32 voice_packet \<Rightarrow> u8 \<Rightarrow> u32 \<Rightarrow> cref \<Rightarrow> server_state \<Rightarrow> server_state" where
  "route_packet now packet tgt sid r st =
     (case st_heap st r of
        None \<Rightarrow> st
      | Some c \<Rightarrow>
          let listening = hi_remove sid (listening_clients tgt c st);
              record_heard = heard_due (st_anticheat st) now c;
              st = (if record_heard
                    then put_client r (c\<lparr>cl_ac := (cl_ac c)\<lparr>ac_last_heard_rec := now\<rparr>\<rparr>) st else st);
              (recipients, st) = fold (\<lambda>(_, q). deliver now c record_heard (SendVoicePacket packet) q)
                 listening (0, st)
          in modify_client r (note_emission (st_anticheat st) recipients) st)"

definition handle_voice_packet ::
    "ext \<Rightarrow> instant \<Rightarrow> u32 voice_packet \<Rightarrow> cref \<Rightarrow> server_state \<Rightarrow> server_state \<times> (mumble_error + unit)" where
  "handle_voice_packet x now packet r st =
     (case packet of
        Ping _ \<Rightarrow> (st, Inr ())
      | Audio tgt sid seq payl pos \<Rightarrow>
          let st = modify_client r (packet_position (st_anticheat st) now pos) st in
          if (case st_heap st r of Some c \<Rightarrow> cl_mute c | None \<Rightarrow> True) then (st, Inr ())
          else if tgt = 31 then client_io r (\<lambda>c. send_voice_packet x c packet) st
          else (route_packet now packet tgt sid r st, Inr ()))"

section \<open>Dispatch\<close>

definition try_handle :: "(bytes \<Rightarrow> 'm option) \<Rightarrow> ('m \<Rightarrow> server_state \<Rightarrow> handled) \<Rightarrow> bytes \<Rightarrow> server_state \<Rightarrow> handled" where
  "try_handle parse h buf st = (case parse buf of None \<Rightarrow> Returns (st, Inl Parse) | Some m \<Rightarrow> h m st)"

definition handle_tunnel :: "ext \<Rightarrow> instant \<Rightarrow> bytes \<Rightarrow> cref \<Rightarrow> server_state \<Rightarrow> handled" where
  "handle_tunnel x now buf r st =
     (case decode_voice_packet server_bound buf of
        Inl e \<Rightarrow> Returns (st, Inl (Decrypt e))
      | Inr packet \<Rightarrow> (case st_heap st r of
          None \<Rightarrow> Returns (st, Inr ())
        | Some c \<Rightarrow> Returns (handle_voice_packet x now
            (into_client_bound packet (cl_session_id c) (st_remove_positional_data st)) r st)))"

fun dispatch :: "ext \<Rightarrow> instant \<Rightarrow> message_kind \<Rightarrow> bytes \<Rightarrow> cref \<Rightarrow> server_state \<Rightarrow> handled" where
  "dispatch x now KVersion buf r st = try_handle (Version_parse (x_rt x)) (\<lambda>m. handle_version m r) buf st"
| "dispatch x now KUDPTunnel buf r st = handle_tunnel x now buf r st"
| "dispatch x now KAuthenticate buf r st =
     try_handle (Authenticate_parse (x_rt x)) (\<lambda>m. handle_authenticate m r) buf st"
| "dispatch x now KPing buf r st = try_handle (Ping_parse (x_rt x)) (\<lambda>m. handle_ping x now m r) buf st"
| "dispatch x now KChannelState buf r st =
     try_handle (ChannelState_parse (x_rt x)) (\<lambda>m. handle_channel_state x m r) buf st"
| "dispatch x now KCryptSetup buf r st =
     try_handle (CryptSetup_parse (x_rt x)) (\<lambda>m. handle_crypt_setup x now m r) buf st"
| "dispatch x now KPermissionQuery buf r st =
     try_handle (PermissionQuery_parse (x_rt x)) (\<lambda>m. handle_permission_query x m r) buf st"
| "dispatch x now KUserState buf r st =
     try_handle (UserState_parse (x_rt x)) (\<lambda>m. handle_user_state x m r) buf st"
| "dispatch x now KVoiceTarget buf r st =
     try_handle (VoiceTarget_parse (x_rt x)) (\<lambda>m. handle_voice_target now m r) buf st"
| "dispatch x now KUserStats buf r st =
     try_handle (UserStats_parse (x_rt x)) (\<lambda>m. handle_user_stats x m r) buf st"
| "dispatch x now _ buf r st = Returns (st, Inl UnknownError)"

text \<open>
  One frame from the TLS stream, of which \<open>stream\<close> is all that is still to arrive. A read that
  runs into its end fails, as does every later one.
\<close>

definition read_frame :: "bytes \<Rightarrow> mumble_error + (u16 \<times> bytes) \<times> bytes" where
  "read_frame stream =
     rbind (read_u16 stream) (\<lambda>(kind, stream).
     rbind (read_u32 stream) (\<lambda>(sz, stream).
     rbind (read_exact (unat sz) stream) (\<lambda>(buf, stream). Inr ((kind, buf), stream))))"

definition handle_stream_read ::
    "ext \<Rightarrow> instant \<Rightarrow> bytes \<Rightarrow> cref \<Rightarrow> server_state \<Rightarrow> bytes \<times> handled" where
  "handle_stream_read x now stream r st =
     (case read_frame stream of
        Inl e \<Rightarrow> ([], Returns (st, Inl e))
      | Inr ((kind, buf), stream) \<Rightarrow>
          (stream, case try_from_u16 kind of
             Inl e \<Rightarrow> Returns (st, Inl e)
           | Inr k \<Rightarrow> dispatch x now k buf r st))"

text \<open>An error is counted; the result says whether the task goes on.\<close>

definition count_bad :: "cref \<Rightarrow> server_state \<times> (mumble_error + unit) \<Rightarrow> server_state \<times> bool" where
  "count_bad r out =
     (case out of
        (st, Inr _) \<Rightarrow> (st, True)
      | (st, Inl _) \<Rightarrow> (case st_heap st r of
          None \<Rightarrow> (st, False)
        | Some c \<Rightarrow> (put_client r (c\<lparr>cl_bad_net_count := cl_bad_net_count c + 1\<rparr>) st, \<not> cl_bad_net_count c > 20)))"

text \<open>
  The reading task: it goes on until the token is cancelled or there were too many errors. A turn of the
  loop begins with what the other tasks did to the state since the last one, the client's own queue task
  among them; then \<open>select!\<close> takes the cancellation or a frame, and the frame is taken although the token is
  cancelled if \<open>tn_frame_first\<close>. \<open>None\<close> stands for a task that does not end; a panic ends it with the whole
  process.
\<close>

record turn =
  tn_others :: "server_state \<Rightarrow> server_state"
  tn_now :: instant
  tn_frame_first :: bool

definition stops :: "turn \<Rightarrow> cref \<Rightarrow> server_state \<Rightarrow> bool" where
  "stops t r st = (case st_heap st r of Some c \<Rightarrow> cl_cancelled c \<and> \<not> tn_frame_first t | None \<Rightarrow> True)"

partial_function (option) read_task ::
    "ext \<Rightarrow> (nat \<Rightarrow> turn) \<Rightarrow> nat \<Rightarrow> bytes \<Rightarrow> cref \<Rightarrow> server_state \<Rightarrow> server_state outcome option" where
  "read_task x env n stream r st =
     (let st = tn_others (env n) st in
      if stops (env n) r st then Some (Returns st)
      else case handle_stream_read x (tn_now (env n)) stream r st of
        (stream, Panics) \<Rightarrow> Some Panics
      | (stream, Hangs) \<Rightarrow> Some Hangs
      | (stream, Returns out) \<Rightarrow>
          let (st, go) = count_bad r out
          in if go then read_task x env (n + 1) stream r st else Some (Returns st))"

text \<open>The stream and the state with which the turns of the task begin to read.\<close>

inductive reads_from :: "ext \<Rightarrow> (nat \<Rightarrow> turn) \<Rightarrow> cref \<Rightarrow> nat \<Rightarrow> bytes \<Rightarrow> server_state \<Rightarrow> bytes \<Rightarrow> server_state \<Rightarrow> bool"
  for x env r where
  Now: "\<not> stops (env n) r (tn_others (env n) st) \<Longrightarrow> reads_from x env r n stream st stream (tn_others (env n) st)"
| Later: "\<not> stops (env n) r (tn_others (env n) st) \<Longrightarrow>
    handle_stream_read x (tn_now (env n)) stream r (tn_others (env n) st) = (stream1, Returns out) \<Longrightarrow>
    count_bad r out = (st1, True) \<Longrightarrow> reads_from x env r (n + 1) stream1 st1 stream' st' \<Longrightarrow>
    reads_from x env r n stream st stream' st'"

text \<open>One message of the queue, handled by the other task.\<close>

definition handle_queued ::
    "ext \<Rightarrow> instant \<Rightarrow> client_message \<Rightarrow> cref \<Rightarrow> server_state \<Rightarrow> server_state \<times> (mumble_error + unit)" where
  "handle_queued x now m r st =
     (case m of
        RouteVoicePacket packet \<Rightarrow> handle_voice_packet x now packet r st
      | SendVoicePacket packet \<Rightarrow> client_io r (\<lambda>c. send_voice_packet x c packet) st
      | SendMessage kind payl \<Rightarrow> client_io r (\<lambda>c. send_bytes c payl) st)"

definition consume :: "ext \<Rightarrow> instant \<Rightarrow> cref \<Rightarrow> server_state \<Rightarrow> server_state \<times> bool" where
  "consume x now r st =
     (case st_heap st r of
        None \<Rightarrow> (st, False)
      | Some c \<Rightarrow> (case pub_queue (cl_publisher c) of
          [] \<Rightarrow> (st, True)
        | m # ms \<Rightarrow>
            let st = put_client r (c\<lparr>cl_publisher := (cl_publisher c)\<lparr>pub_queue := ms\<rparr>\<rparr>) st
            in count_bad r (handle_queued x now m r st)))"

section \<open>What the handlers leave alone\<close>

text \<open>The part of the client objects that no handler changes.\<close>

definition account :: "client \<Rightarrow> u32 \<times> socket_addr option \<times> u32 \<times> bool" where
  "account c = (cl_session_id c, cl_udp_socket_addr c, cl_bad_net_count c, cl_cancelled c)"

definition accounts :: "server_state \<Rightarrow> cref \<Rightarrow> (u32 \<times> socket_addr option \<times> u32 \<times> bool) option" where
  "accounts st r = map_option account (st_heap st r)"

lemma accounts_put: "map_option account (st_heap st r) = Some (account c) \<Longrightarrow> accounts (put_client r c st) = accounts st"
  by (auto simp: accounts_def frame)

lemma directory_put:
  "st_heap st r = Some c \<Longrightarrow> ident_of c' = ident_of c \<Longrightarrow> directory_of (put_client r c' st) = directory_of st"
  by (rule directory_cong) (auto simp: put_client_def)

lemma send_bytes_account [simp]:
  "account (fst (send_bytes c bs)) = account c" "ident_of (fst (send_bytes c bs)) = ident_of c"
  by (simp_all add: send_bytes_def account_def ident_of_def split: option.split)

lemma send_message_account [simp]:
  "account (fst (send_message x c kind m)) = account c" "ident_of (fst (send_message x c kind m)) = ident_of c"
  by (simp_all add: send_message_def split: sum.split)

lemma send_voice_account [simp]:
  "account (fst (send_voice_packet x c p)) = account c" "ident_of (fst (send_voice_packet x c p)) = ident_of c"
  by (simp_all add: send_voice_packet_def send_message_raw_def Let_def split_def split: option.split udp_result.split)
    (simp_all add: account_def ident_of_def)

lemma account_cong:
  "account (c\<lparr>cl_crypt_state := v\<rparr>) = account c" "account (c\<lparr>cl_ac := a\<rparr>) = account c"
  "account (c\<lparr>cl_last_tcp_ping := t\<rparr>) = account c" "account (c\<lparr>cl_net_stats := ns\<rparr>) = account c"
  "account (c\<lparr>cl_mute := b\<rparr>) = account c" "account (c\<lparr>cl_deaf := b\<rparr>) = account c"
  "account (c\<lparr>cl_targets := ts\<rparr>) = account c" "account (c\<lparr>cl_publisher := p\<rparr>) = account c"
  "account (c\<lparr>cl_channel_id := k\<rparr>) = account c"
  "ident_of (c\<lparr>cl_crypt_state := v\<rparr>) = ident_of c" "ident_of (c\<lparr>cl_ac := a\<rparr>) = ident_of c"
  "ident_of (c\<lparr>cl_last_tcp_ping := t\<rparr>) = ident_of c" "ident_of (c\<lparr>cl_net_stats := ns\<rparr>) = ident_of c"
  "ident_of (c\<lparr>cl_mute := b\<rparr>) = ident_of c" "ident_of (c\<lparr>cl_deaf := b\<rparr>) = ident_of c"
  "ident_of (c\<lparr>cl_targets := ts\<rparr>) = ident_of c" "ident_of (c\<lparr>cl_publisher := p\<rparr>) = ident_of c"
  by (simp_all add: account_def ident_of_def)

lemma client_io_account:
  assumes "\<And>c. account (fst (f c)) = account c"
  shows "accounts (fst (client_io r f st)) = accounts st"
  using assms by (auto simp: client_io_def split_def Let_def accounts_put split: option.split)

lemma client_io_directory:
  assumes "\<And>c. ident_of (fst (f c)) = ident_of c"
  shows "directory_of (fst (client_io r f st)) = directory_of st"
  using assms by (auto simp: client_io_def split_def Let_def intro: directory_put split: option.split)

lemma handed_account [simp]: "account (handed m c) = account c"
  by (simp add: handed_def try_send_def Let_def account_cong)

lemma accounts_publish [simp]: "accounts (publish m r st) = accounts st"
  by (rule ext) (simp add: accounts_def publish_heap option.map_comp comp_def)

lemma accounts_publish_all: "accounts (fold (\<lambda>(_, r). publish m r) rs st) = accounts st"
  by (induction rs arbitrary: st) auto

lemma accounts_update [simp]:
  "accounts (st\<lparr>st_channels := chs\<rparr>) = accounts st" "accounts (st\<lparr>st_debug_message_id := n\<rparr>) = accounts st"
  "accounts (st\<lparr>st_channel_count := k\<rparr>) = accounts st" "accounts (st\<lparr>st_disconnect_queue := q\<rparr>) = accounts st"
  by (simp_all add: accounts_def fun_eq_iff)

lemma accounts_broadcast [simp]: "accounts (fst (broadcast_message x kind m st)) = accounts st"
  by (simp add: broadcast_message_def Let_def accounts_publish_all split: sum.split)

lemma accounts_left [simp]: "accounts (fst (handle_client_left_channel x sid cid st)) = accounts st"
  by (simp add: handle_client_left_channel_def delete_channel_def Let_def split_def split: option.split)

lemma accounts_set_channel [simp]: "accounts (fst (set_client_channel x r cid st)) = accounts st"
  by (auto simp: set_client_channel_def Let_def split_def join_channel_def accounts_put account_cong
      split: option.split)

lemma note_account [simp]:
  "account (note_heard cfg now sp c) = account c" "account (note_position cfg now p c) = account c"
  "account (note_emission cfg n c) = account c" "account (record_targets cfg now ks c) = account c"
  "ident_of (note_heard cfg now sp c) = ident_of c" "ident_of (note_position cfg now p c) = ident_of c"
  "ident_of (note_emission cfg n c) = ident_of c" "ident_of (record_targets cfg now ks c) = ident_of c"
  by (simp_all add: note_heard_def note_position_def note_emission_def record_targets_def Let_def split_def
      account_cong)

lemma accounts_modify [simp]:
  "(\<And>c. account (f c) = account c) \<Longrightarrow> accounts (modify_client r f st) = accounts st"
  by (auto simp: modify_client_def accounts_put split: option.split)

lemma directory_modify [simp]:
  "(\<And>c. ident_of (f c) = ident_of c) \<Longrightarrow> directory_of (modify_client r f st) = directory_of st"
  by (auto simp: modify_client_def intro: directory_put split: option.split)

section \<open>Delivering voice\<close>

definition delivered :: "anticheat_config \<Rightarrow> instant \<Rightarrow> client \<Rightarrow> bool \<Rightarrow> client_message \<Rightarrow> client \<Rightarrow> client" where
  "delivered cfg now speaker rec m d =
     (if cl_deaf d then d else handed m (if rec then note_heard cfg now speaker d else d))"

lemma deliver_frame [frame]:
  "st_anticheat (snd (deliver now sp rec m r acc)) = st_anticheat (snd acc)"
  "accounts (snd (deliver now sp rec m r acc)) = accounts (snd acc)"
  "directory_of (snd (deliver now sp rec m r acc)) = directory_of (snd acc)"
  "st_channels (snd (deliver now sp rec m r acc)) = st_channels (snd acc)"
  by (auto simp: deliver_def split_def Let_def frame accounts_put intro: directory_put split: option.split)

lemma deliver_heap:
  "st_heap (snd (deliver now sp rec m r acc)) q =
     (if q = r then map_option (delivered (st_anticheat (snd acc)) now sp rec m) (st_heap (snd acc) r)
      else st_heap (snd acc) q)"
  by (auto simp: deliver_def delivered_def split_def Let_def publish_heap frame split: option.split)

definition hears :: "server_state \<Rightarrow> cref \<Rightarrow> bool" where
  "hears st r \<longleftrightarrow> (case st_heap st r of Some d \<Rightarrow> \<not> cl_deaf d | None \<Rightarrow> False)"

lemma deliver_count:
  "fst (deliver now sp rec m r acc) = fst acc + (if hears (snd acc) r then 1 else 0)"
  by (simp add: deliver_def hears_def split_def Let_def split: option.split)

lemma handed_deaf [simp]: "cl_deaf (handed m c) = cl_deaf c"
  by (auto simp: handed_def try_send_def Let_def)

lemma note_heard_deaf [simp]: "cl_deaf (note_heard cfg now sp c) = cl_deaf c"
  by (simp add: note_heard_def Let_def)

lemma hears_deliver: "hears (snd (deliver now sp rec m r acc)) q = hears (snd acc) q"
  by (auto simp: hears_def deliver_heap delivered_def split: option.split)

lemma deliver_all_frame [frame]:
  "st_anticheat (snd (fold (\<lambda>(_, q). deliver now sp rec m q) rs acc)) = st_anticheat (snd acc)"
  "accounts (snd (fold (\<lambda>(_, q). deliver now sp rec m q) rs acc)) = accounts (snd acc)"
  "directory_of (snd (fold (\<lambda>(_, q). deliver now sp rec m q) rs acc)) = directory_of (snd acc)"
  "st_channels (snd (fold (\<lambda>(_, q). deliver now sp rec m q) rs acc)) = st_channels (snd acc)"
  by (induction rs arbitrary: acc) (auto simp: frame)

lemma deliver_all_heap:
  assumes "distinct (map snd rs)"
  shows "st_heap (snd (fold (\<lambda>(_, q). deliver now sp rec m q) rs acc)) q =
      (if q \<in> snd ` set rs then map_option (delivered (st_anticheat (snd acc)) now sp rec m) (st_heap (snd acc) q)
       else st_heap (snd acc) q)"
  using assms
proof (induction rs arbitrary: acc)
  case (Cons a rs)
  then show ?case by (cases a) (auto simp: deliver_heap frame)
qed simp

lemma deliver_all_count:
  assumes "distinct (map snd rs)"
  shows "fst (fold (\<lambda>(_, q). deliver now sp rec m q) rs acc) =
    fst acc + word_of_nat (length (filter (\<lambda>(_, q). hears (snd acc) q) rs))"
  using assms
proof (induction rs arbitrary: acc)
  case (Cons a rs)
  obtain s b where a: "a = (s, b)" by (cases a)
  have eq: "hears (snd (deliver now sp rec m b acc)) = hears (snd acc)"
    by (rule ext) (rule hears_deliver)
  from Cons.IH [of "deliver now sp rec m b acc"] Cons.prems
  show ?case unfolding eq by (simp add: a deliver_count)
qed simp

section \<open>Who is addressed\<close>

text \<open>
  The clients a packet is meant for: those of the speaker's channel, or for a voice target the
  sessions it names and everyone in, or listening to, the channels it names.
\<close>

definition addressed :: "u8 \<Rightarrow> client \<Rightarrow> server_state \<Rightarrow> u32 \<Rightarrow> cref \<Rightarrow> bool" where
  "addressed tgt c st sid r \<longleftrightarrow>
     (if tgt = 0 then
        \<exists>ch. hi_get (st_channels st) (cl_channel_id c) = Some ch \<and> hi_get (ch_clients ch) sid = Some r
      else \<exists>t. get_target c tgt = Some t \<and> tgt \<le> 30 \<and>
        (hi_contains (vt_sessions t) sid \<and> hi_get (st_clients st) sid = Some r \<or>
         (\<exists>cid ch. hi_contains (vt_channels t) cid \<and> hi_get (st_channels st) cid = Some ch \<and>
            (hi_get (ch_listeners ch) sid = Some r \<or> hi_get (ch_clients ch) sid = Some r))))"

text \<open>
  All references to a session agree: those in the indexes are to objects of that session, and no
  two objects have the same one. This makes the order of the insertions irrelevant.
\<close>

definition session_of :: "server_state \<Rightarrow> cref \<Rightarrow> u32 option" where
  "session_of st r = map_option cl_session_id (st_heap st r)"

definition refs_ok :: "server_state \<Rightarrow> bool" where
  "refs_ok st \<longleftrightarrow> indexes_wf st \<and>
     (\<forall>sid r. (hi_get (st_clients st) sid = Some r \<or>
        (\<exists>k ch. hi_get (st_channels st) k = Some ch \<and>
           (hi_get (ch_clients ch) sid = Some r \<or> hi_get (ch_listeners ch) sid = Some r))) \<longrightarrow>
      session_of st r = Some sid) \<and>
     (\<forall>r r' sid. session_of st r = Some sid \<longrightarrow> session_of st r' = Some sid \<longrightarrow> r = r')"

text \<open>Inserting never overwrites, so the first entry for a key stays.\<close>

lemma fold_first:
  assumes "\<And>k acc. hi_get (step k acc) s = (case hi_get acc s of Some r \<Rightarrow> Some r | None \<Rightarrow> g k)"
  shows "hi_get (fold step ks acc) s = (case hi_get acc s of Some r \<Rightarrow> Some r
    | None \<Rightarrow> (case filter (\<lambda>k. g k \<noteq> None) ks of [] \<Rightarrow> None | k # _ \<Rightarrow> g k))"
  by (induction ks arbitrary: acc) (auto simp: assms split: option.split)

lemma hi_get_insert_all:
  "hi_get (insert_all new acc) sid = (case hi_get acc sid of Some r \<Rightarrow> Some r | None \<Rightarrow> hi_get new sid)"
proof -
  have "hi_get new sid = (case filter (\<lambda>k. (case k of (s, r) \<Rightarrow> if s = sid then Some r else None) \<noteq> None) new of
      [] \<Rightarrow> None | k # _ \<Rightarrow> (case k of (s, r) \<Rightarrow> if s = sid then Some r else None))"
    by (induction new) (auto simp: hi_get_def split: if_splits)
  then show ?thesis
    unfolding insert_all_def
    by (subst fold_first [where g = "\<lambda>(s, r). if s = sid then Some r else None"])
      (auto simp: hi_get_insert split: option.split)
qed

lemma hi_wf_insert_all [index_wf]: "hi_wf acc \<Longrightarrow> hi_wf (insert_all new acc)"
  unfolding insert_all_def by (induction new arbitrary: acc) (auto simp: index_wf)

lemma filter_first_Some:
  "(case filter (\<lambda>k. g k \<noteq> None) ks of [] \<Rightarrow> None | k # _ \<Rightarrow> g k) = Some r \<Longrightarrow> \<exists>k \<in> set ks. g k = Some r"
  by (cases "filter (\<lambda>k. g k \<noteq> None) ks") (auto dest!: filter_eq_ConsD)

lemma filter_first_None:
  "(case filter (\<lambda>k. g k \<noteq> None) ks of [] \<Rightarrow> None | k # _ \<Rightarrow> g k) = None \<longleftrightarrow> (\<forall>k \<in> set ks. g k = None)"
  by (cases "filter (\<lambda>k. g k \<noteq> None) ks") (auto simp: filter_empty_conv dest!: filter_eq_ConsD)

definition channel_hearer :: "server_state \<Rightarrow> u32 \<Rightarrow> u32 \<Rightarrow> cref option" where
  "channel_hearer st cid sid =
     (case hi_get (st_channels st) cid of
        None \<Rightarrow> None
      | Some ch \<Rightarrow> (case hi_get (ch_listeners ch) sid of Some r \<Rightarrow> Some r | None \<Rightarrow> hi_get (ch_clients ch) sid))"

lemma channel_hearer_None:
  "channel_hearer st cid sid = None \<longleftrightarrow> (\<forall>ch. hi_get (st_channels st) cid = Some ch \<longrightarrow>
     hi_get (ch_listeners ch) sid = None \<and> hi_get (ch_clients ch) sid = None)"
  by (auto simp: channel_hearer_def split: option.splits)

lemma channel_audience_get:
  "hi_get (channel_audience st cid acc) sid =
     (case hi_get acc sid of Some r \<Rightarrow> Some r | None \<Rightarrow> channel_hearer st cid sid)"
  by (simp add: channel_audience_def channel_hearer_def hi_get_insert_all split: option.split)

lemma session_audience_get:
  "hi_get (session_audience st k acc) sid =
     (case hi_get acc sid of Some r \<Rightarrow> Some r | None \<Rightarrow> if k = sid then hi_get (st_clients st) sid else None)"
  by (auto simp: session_audience_def hi_get_insert split: option.split)

text \<open>The fold over the entries of an index, in terms of its keys.\<close>

lemma fold_keys_Some:
  assumes "\<And>k acc. hi_get (step k acc) s = (case hi_get acc s of Some r \<Rightarrow> Some r | None \<Rightarrow> g k)"
    and "hi_get (fold (\<lambda>(k, _). step k) m acc) s = Some r"
  shows "hi_get acc s = Some r \<or> (\<exists>k. hi_contains m k \<and> g k = Some r)"
  using fold_first [of "\<lambda>(k, _). step k" s "\<lambda>(k, _). g k" m acc] assms
    filter_first_Some [of "\<lambda>(k, _). g k" m r]
  by (fastforce simp: hi_contains_def hi_get_eq_None_iff split: option.splits)

lemma fold_keys_None:
  assumes "\<And>k acc. hi_get (step k acc) s = (case hi_get acc s of Some r \<Rightarrow> Some r | None \<Rightarrow> g k)"
    and "hi_get (fold (\<lambda>(k, _). step k) m acc) s = None"
  shows "hi_get acc s = None" and "hi_contains m k \<Longrightarrow> g k = None"
  using fold_first [of "\<lambda>(k, _). step k" s "\<lambda>(k, _). g k" m acc] assms
    filter_first_None [of "\<lambda>(k, _). g k" m]
  by (fastforce simp: hi_contains_def hi_get_eq_None_iff split: option.splits)+

lemma hi_wf_fold:
  "(\<And>k acc. hi_wf acc \<Longrightarrow> hi_wf (step k acc)) \<Longrightarrow> hi_wf acc \<Longrightarrow> hi_wf (fold step ks acc)"
  by (induction ks arbitrary: acc) auto

lemma listening_clients_wf: "hi_wf (listening_clients tgt c st)"
  by (auto simp: listening_clients_def session_listeners_def channel_listeners_def channel_audience_def
      session_audience_def intro!: hi_wf_fold hi_wf_insert hi_wf_insert_all split: option.split)

lemma voice_target_Some:
  assumes "hi_get (channel_listeners st t (session_listeners st t [])) sid = Some r"
  shows "hi_contains (vt_sessions t) sid \<and> hi_get (st_clients st) sid = Some r \<or>
    (\<exists>cid. hi_contains (vt_channels t) cid \<and> channel_hearer st cid sid = Some r)"
  using fold_keys_Some [OF channel_audience_get assms [unfolded channel_listeners_def]]
    fold_keys_Some [where step = "session_audience st", OF session_audience_get, of "vt_sessions t" "[]" sid r]
  by (auto simp: session_listeners_def split: if_splits)

lemma voice_target_None:
  assumes "hi_get (channel_listeners st t (session_listeners st t [])) sid = None"
  shows "hi_contains (vt_sessions t) sid \<Longrightarrow> hi_get (st_clients st) sid = None"
    and "hi_contains (vt_channels t) cid \<Longrightarrow> channel_hearer st cid sid = None"
  using fold_keys_None [OF channel_audience_get assms [unfolded channel_listeners_def]]
    fold_keys_None(2) [where step = "session_audience st", OF session_audience_get, of "vt_sessions t" "[]" sid sid]
  by (auto simp: session_listeners_def split: if_splits)

lemma addressed_sound:
  assumes "indexes_wf st" and "hi_get (listening_clients tgt c st) sid = Some r"
  shows "addressed tgt c st sid r"
proof (cases "tgt = 0")
  case True
  then show ?thesis
    using assms find_channel [OF indexes_wfD(5) [OF assms(1)], of "cl_channel_id c"]
    by (auto simp: listening_clients_def addressed_def get_channel_by_channel_id_def hi_get_insert_all
        split: option.splits)
next
  case False
  with assms(2) obtain t where t: "get_target c tgt = Some t" "tgt \<le> 30"
    "hi_get (channel_listeners st t (session_listeners st t [])) sid = Some r"
    by (auto simp: listening_clients_def split: option.splits if_splits)
  with voice_target_Some [OF t(3)] False show ?thesis
    by (auto simp: addressed_def channel_hearer_def split: option.splits)
qed

lemma addressed_complete:
  assumes "indexes_wf st" and "addressed tgt c st sid r"
  shows "hi_get (listening_clients tgt c st) sid \<noteq> None"
proof (cases "tgt = 0")
  case True
  then show ?thesis
    using assms find_channel [OF indexes_wfD(5) [OF assms(1)], of "cl_channel_id c"]
    by (auto simp: listening_clients_def addressed_def get_channel_by_channel_id_def hi_get_insert_all
        split: option.splits)
next
  case False
  then have "1 \<le> tgt" by (simp add: word_le_nat_alt unat_gt_0 Suc_le_eq)
  with False assms(2) obtain t where t: "get_target c tgt = Some t" "listening_clients tgt c st =
      channel_listeners st t (session_listeners st t [])"
    by (auto simp: listening_clients_def addressed_def)
  show ?thesis
  proof
    assume "hi_get (listening_clients tgt c st) sid = None"
    note none = voice_target_None [OF this [unfolded t(2)]]
    from assms(2) False t(1) none show False
      by (auto simp: addressed_def channel_hearer_None)
  qed
qed

lemma refs_okD:
  assumes "refs_ok st"
  shows "indexes_wf st" and "addressed tgt c st sid r \<Longrightarrow> session_of st r = Some sid"
    and "session_of st r = Some sid \<Longrightarrow> session_of st r' = Some sid \<Longrightarrow> r = r'"
proof -
  assume "addressed tgt c st sid r"
  then have "hi_get (st_clients st) sid = Some r \<or> (\<exists>k ch. hi_get (st_channels st) k = Some ch \<and>
      (hi_get (ch_clients ch) sid = Some r \<or> hi_get (ch_listeners ch) sid = Some r))"
    by (auto simp: addressed_def split: if_splits)
  with assms show "session_of st r = Some sid" unfolding refs_ok_def by blast
qed (use assms in \<open>auto simp: refs_ok_def\<close>)

lemma listening_addressed:
  assumes "refs_ok st"
  shows "hi_get (listening_clients tgt c st) sid = Some r \<longleftrightarrow> addressed tgt c st sid r"
proof
  assume r: "addressed tgt c st sid r"
  from addressed_complete [OF refs_okD(1) [OF assms] r] obtain q where
    q: "hi_get (listening_clients tgt c st) sid = Some q" by auto
  with addressed_sound [OF refs_okD(1) [OF assms]] have "addressed tgt c st sid q" by blast
  with r have "q = r" using refs_okD(2,3) [OF assms] by metis
  with q show "hi_get (listening_clients tgt c st) sid = Some r" by simp
qed (rule addressed_sound [OF refs_okD(1) [OF assms]])

section \<open>Queues after routing\<close>

definition queued :: "client_message \<Rightarrow> publisher \<Rightarrow> publisher" where
  "queued m p = (if pub_closed p \<or> length (pub_queue p) \<ge> PUBLISHER_CAPACITY then p
     else p\<lparr>pub_queue := pub_queue p @ [m]\<rparr>)"

lemma publisher_handed [simp]: "cl_publisher (handed m c) = queued m (cl_publisher c)"
  by (simp add: handed_def try_send_def queued_def Let_def)

lemma note_publisher [simp]:
  "cl_publisher (note_heard cfg now sp c) = cl_publisher c" "cl_publisher (note_position cfg now p c) = cl_publisher c"
  "cl_publisher (note_emission cfg n c) = cl_publisher c"
  by (simp_all add: note_heard_def note_position_def note_emission_def Let_def split_def)

lemma publisher_delivered [simp]:
  "cl_publisher (delivered cfg now sp rec m d) = (if cl_deaf d then cl_publisher d else queued m (cl_publisher d))"
  by (simp add: delivered_def)

definition publisher_of :: "server_state \<Rightarrow> cref \<Rightarrow> publisher option" where
  "publisher_of st r = map_option cl_publisher (st_heap st r)"

lemma publisher_modify:
  "(\<And>c. cl_publisher (f c) = cl_publisher c) \<Longrightarrow> publisher_of (modify_client r f st) q = publisher_of st q"
  by (auto simp: publisher_of_def modify_client_def frame split: option.split)

lemma in_listening:
  assumes "refs_ok st" and "st_heap st q = Some d"
  shows "q \<in> snd ` set (hi_remove sid (listening_clients tgt c st)) \<longleftrightarrow>
    cl_session_id d \<noteq> sid \<and> addressed tgt c st (cl_session_id d) q"
proof -
  have wf: "hi_wf (hi_remove sid (listening_clients tgt c st))" by (rule hi_wf_remove [OF listening_clients_wf])
  have "q \<in> snd ` set (hi_remove sid (listening_clients tgt c st)) \<longleftrightarrow>
      (\<exists>s. hi_get (hi_remove sid (listening_clients tgt c st)) s = Some q)"
    unfolding hi_get_eq_Some_iff [OF wf] by force
  also have "\<dots> \<longleftrightarrow> (\<exists>s. s \<noteq> sid \<and> addressed tgt c st s q)"
    by (auto simp: hi_get_remove listening_addressed [OF assms(1)] split: if_splits)
  finally show ?thesis using refs_okD(2) [OF assms(1), of tgt c _ q] assms(2) by (auto simp: session_of_def)
qed

lemma listening_distinct:
  assumes "refs_ok st"
  shows "distinct (map snd (hi_remove sid (listening_clients tgt c st)))"
proof (rule refs_distinct [of _ st])
  fix s r
  assume "hi_get (hi_remove sid (listening_clients tgt c st)) s = Some r"
  then have "addressed tgt c st s r" by (simp add: hi_get_remove listening_addressed [OF assms] split: if_splits)
  then show "\<exists>d. st_heap st r = Some d \<and> cl_session_id d = s"
    using refs_okD(2) [OF assms] by (auto simp: session_of_def)
qed (rule hi_wf_remove [OF listening_clients_wf])

lemma route_packet_publisher:
  assumes "refs_ok st" and "st_heap st r = Some c" and "st_heap st q = Some d"
  shows "publisher_of (route_packet now p tgt sid r st) q =
    Some (if cl_session_id d \<noteq> sid \<and> addressed tgt c st (cl_session_id d) q \<and> \<not> cl_deaf d
      then queued (SendVoicePacket p) (cl_publisher d) else cl_publisher d)"
proof -
  define rec where "rec = heard_due (st_anticheat st) now c"
  define st1 where "st1 = (if rec then put_client r (c\<lparr>cl_ac := (cl_ac c)\<lparr>ac_last_heard_rec := now\<rparr>\<rparr>) st else st)"
  have "\<exists>d1. st_heap st1 q = Some d1 \<and> cl_publisher d1 = cl_publisher d \<and> cl_deaf d1 = cl_deaf d"
    using assms(2,3) by (cases "rec \<and> q = r") (auto simp: st1_def frame)
  then obtain d1 where d1: "st_heap st1 q = Some d1" "cl_publisher d1 = cl_publisher d" "cl_deaf d1 = cl_deaf d"
    by blast
  have "publisher_of (route_packet now p tgt sid r st) q = publisher_of (snd (fold
      (\<lambda>(_, q). deliver now c rec (SendVoicePacket p) q) (hi_remove sid (listening_clients tgt c st)) (0, st1))) q"
    by (simp add: route_packet_def assms(2) Let_def split_def publisher_modify rec_def st1_def)
  also have "\<dots> = Some (if q \<in> snd ` set (hi_remove sid (listening_clients tgt c st)) \<and> \<not> cl_deaf d
      then queued (SendVoicePacket p) (cl_publisher d) else cl_publisher d)"
    using d1 by (simp add: publisher_of_def deliver_all_heap [OF listening_distinct [OF assms(1)]])
  finally show ?thesis by (simp add: in_listening [OF assms(1,3)])
qed

lemma refs_ok_cong:
  assumes "refs_ok st" and "st_clients st' = st_clients st" and "st_channels st' = st_channels st"
    and "indexes_wf st'" and "\<And>r. session_of st' r = session_of st r"
  shows "refs_ok st'"
  using assms(1,4) unfolding refs_ok_def assms(2,3,5) by blast

lemma indexes_wf_put [index_wf]: "indexes_wf (put_client r c st) = indexes_wf st"
  by (simp add: indexes_wf_def frame)

lemma modify_client_heap:
  "st_heap (modify_client r f st) q = (if q = r then map_option f (st_heap st r) else st_heap st q)"
  by (simp add: modify_client_def frame split: option.split)

lemma modify_client_frame [frame]:
  "st_clients (modify_client r f st) = st_clients st" "st_channels (modify_client r f st) = st_channels st"
  "st_clients_without_udp (modify_client r f st) = st_clients_without_udp st"
  "st_clients_by_socket (modify_client r f st) = st_clients_by_socket st"
  "st_disconnect_queue (modify_client r f st) = st_disconnect_queue st"
  "st_anticheat (modify_client r f st) = st_anticheat st" "st_bans (modify_client r f st) = st_bans st"
  "indexes_wf (modify_client r f st) = indexes_wf st"
  by (simp_all add: modify_client_def frame indexes_wf_put split: option.split)

lemma packet_position_sel [simp]:
  "cl_mute (packet_position cfg now p c) = cl_mute c" "cl_deaf (packet_position cfg now p c) = cl_deaf c"
  "cl_channel_id (packet_position cfg now p c) = cl_channel_id c" "cl_targets (packet_position cfg now p c) = cl_targets c"
  "cl_session_id (packet_position cfg now p c) = cl_session_id c"
  "cl_publisher (packet_position cfg now p c) = cl_publisher c"
  "account (packet_position cfg now p c) = account c" "ident_of (packet_position cfg now p c) = ident_of c"
  by (simp_all add: packet_position_def split: option.split)
    (simp_all add: note_position_def Let_def split_def)

lemma addressed_cong:
  assumes "st_clients st' = st_clients st" "st_channels st' = st_channels st" "cl_channel_id c' = cl_channel_id c"
    "cl_targets c' = cl_targets c"
  shows "addressed tgt c' st' sid r = addressed tgt c st sid r"
proof -
  have "get_target c' tgt = get_target c tgt" unfolding get_target_def assms(4) ..
  with assms(1-3) show ?thesis by (simp add: addressed_def)
qed

text \<open>
  Voice routing. Of an audio packet of a client \<open>c\<close> that is not muted, exactly those are
  handed a copy, once, whom its target addresses, other than the speaker and the deafened: the
  clients in its channel, or the sessions and the members and listeners of the channels in its voice
  target. All other queues stay as they are, and so do all when the speaker is muted.
\<close>

lemma voice_routed:
  assumes "refs_ok st" and "st_heap st r = Some c" and "st_heap st q = Some d" and "tgt \<noteq> 31"
    and "p = Audio tgt sid sq payl pos"
  shows "publisher_of (fst (handle_voice_packet x now p r st)) q =
    Some (if \<not> cl_mute c \<and> cl_session_id d \<noteq> sid \<and> addressed tgt c st (cl_session_id d) q \<and> \<not> cl_deaf d
      then queued (SendVoicePacket p) (cl_publisher d) else cl_publisher d)"
proof -
  let ?f = "packet_position (st_anticheat st) now pos"
  let ?g = "\<lambda>q c. if q = r then ?f c else c"
  let ?st = "modify_client r ?f st"
  have heap: "st_heap ?st q' = map_option (?g q') (st_heap st q')" for q'
    by (simp add: modify_client_heap option.map_ident)
  have "refs_ok ?st"
    using refs_okD(1) [OF assms(1)]
    by (intro refs_ok_cong [OF assms(1)]) (auto simp: frame session_of_def modify_client_heap option.map_comp comp_def)
  from route_packet_publisher [OF this, of r "?g r c" q "?g q d" now p tgt sid]
  have "publisher_of (route_packet now p tgt sid r ?st) q =
    Some (if cl_session_id d \<noteq> sid \<and> addressed tgt c st (cl_session_id d) q \<and> \<not> cl_deaf d
      then queued (SendVoicePacket p) (cl_publisher d) else cl_publisher d)"
    using assms(2,3) addressed_cong [of ?st st "?f c" c tgt] by (auto simp: heap frame)
  moreover have "publisher_of ?st q = Some (cl_publisher d)"
    using assms(3) by (simp add: publisher_of_def heap)
  ultimately show ?thesis
    using assms(2,4,5) by (simp add: handle_voice_packet_def heap Let_def)
qed

section \<open>Handlers and accounts\<close>

definition keeps_accounts :: "server_state \<Rightarrow> handled \<Rightarrow> bool" where
  "keeps_accounts st h \<longleftrightarrow> (case h of Returns (st', _) \<Rightarrow> accounts st' = accounts st | _ \<Rightarrow> True)"

lemma keeps_accounts_Returns [simp]: "keeps_accounts st (Returns out) \<longleftrightarrow> accounts (fst out) = accounts st"
  by (simp add: keeps_accounts_def split: prod.split)

lemma keeps_accounts_other [simp]: "keeps_accounts st Panics" "keeps_accounts st Hangs"
  by (simp_all add: keeps_accounts_def)

lemma accounts_route [simp]: "accounts (route_packet now p tgt sid r st) = accounts st"
proof (cases "st_heap st r")
  case (Some c)
  then show ?thesis
    by (auto simp: route_packet_def Let_def split_def deliver_all_frame(2) [unfolded split_def] accounts_put account_cong)
qed (simp add: route_packet_def)

lemma accounts_voice [simp]: "accounts (fst (handle_voice_packet x now p r st)) = accounts st"
  by (simp add: handle_voice_packet_def Let_def client_io_account split: voice_packet.split)

lemma accounts_user_state [simp]: "keeps_accounts st (handle_user_state x m r st)"
proof -
  have add: "accounts (fold (add_listener sid r) cs st) = accounts st"
    and remove: "accounts (fold (remove_listener sid) cs st) = accounts st" for sid cs st
    by (induction cs arbitrary: st) (simp_all add: add_listener_def remove_listener_def)
  have "account (client_update m c) = account c" for c
    by (simp add: client_update_def set_mute_def set_deaf_def Let_def account_cong split: option.split)
  then show ?thesis
    by (simp add: handle_user_state_def Let_def split_def accounts_put add remove split: option.split sum.split)
qed

lemma accounts_channel_state [simp]: "keeps_accounts st (handle_channel_state x m r st)"
  by (auto simp: handle_channel_state_def add_channel_def get_free_channel_id_def Let_def split_def
      split: option.split sum.split)

lemma accounts_voice_target [simp]: "keeps_accounts st (handle_voice_target now m r st)"
  by (auto simp: handle_voice_target_def Let_def split_def accounts_put set_target_def account_cong split: option.split)

lemma accounts_dispatch: "keeps_accounts st (dispatch x now k buf r st)"
  by (cases "(x, now, k, buf, r, st)" rule: dispatch.cases)
    (auto simp: try_handle_def handle_tunnel_def handle_version_def handle_authenticate_def handle_ping_def
      handle_permission_query_def handle_crypt_setup_def handle_user_stats_def send_crypt_setup_def Let_def
      client_io_account account_cong accounts_put split: option.split sum.split)

lemma accounts_stream_read: "keeps_accounts st (snd (handle_stream_read x now stream r st))"
  by (auto simp: handle_stream_read_def accounts_dispatch split: sum.split)

lemma read_frame_shorter: "read_frame stream = Inr (m, rest) \<Longrightarrow> length rest < length stream"
  by (auto simp: read_frame_def read_u16_def read_u32_def read_exact_def rbind_def split: if_splits)

lemma stream_read_stream:
  "fst (handle_stream_read x now stream r st) = [] \<or> length (fst (handle_stream_read x now stream r st)) < length stream"
  by (auto simp: handle_stream_read_def dest: read_frame_shorter split: sum.split)

lemma stream_read_ok:
  "handle_stream_read x now stream r st = (rest, Returns (st', Inr u)) \<Longrightarrow> length rest < length stream"
  by (auto simp: handle_stream_read_def dest: read_frame_shorter split: sum.splits)

lemma accounts_heapD:
  assumes "accounts st' = accounts st" and "st_heap st r = Some c"
  obtains c' where "st_heap st' r = Some c'" "cl_bad_net_count c' = cl_bad_net_count c" "cl_cancelled c' = cl_cancelled c"
    "cl_session_id c' = cl_session_id c"
  using fun_cong [OF assms(1), of r] assms(2) by (auto simp: accounts_def account_def)

lemma count_bad_error:
  assumes "st_heap st r = Some c"
  obtains st' c' where "count_bad r (st, Inl e) = (st', \<not> 20 < cl_bad_net_count c)" "st_heap st' r = Some c'"
    "cl_bad_net_count c' = cl_bad_net_count c + 1"
  using assms by (simp add: count_bad_def frame)

text \<open>The only frames that make the server panic, and the only states in which a handler does not return.\<close>

definition short_nonce :: "pb_runtime \<Rightarrow> bytes \<Rightarrow> bool" where
  "short_nonce rt stream \<longleftrightarrow> (\<exists>buf rest m nonce. read_frame stream = Inr ((kind_u16 KCryptSetup, buf), rest) \<and>
     CryptSetup_parse rt buf = Some m \<and> CryptSetup_client_nonce m = Some nonce \<and> length nonce \<noteq> 16)"

lemma dispatch_panics:
  "dispatch x now k buf r st = Panics \<Longrightarrow> k = KCryptSetup \<and>
    (\<exists>m nonce. CryptSetup_parse (x_rt x) buf = Some m \<and> CryptSetup_client_nonce m = Some nonce \<and> length nonce \<noteq> 16)"
  by (cases "(x, now, k, buf, r, st)" rule: dispatch.cases)
    (auto simp: try_handle_def handle_tunnel_def handle_version_def handle_authenticate_def handle_ping_def
      handle_permission_query_def handle_crypt_setup_def handle_user_stats_def handle_channel_state_def
      handle_user_state_def handle_voice_target_def set_decrypt_nonce_def Let_def split_def
      split: option.splits sum.splits if_splits)

lemma dispatch_hangs:
  "dispatch x now k buf r st = Hangs \<Longrightarrow> 2 ^ 32 \<le> length (st_channels st)"
proof (rule ccontr)
  assume h: "dispatch x now k buf r st = Hangs" and l: "\<not> 2 ^ 32 \<le> length (st_channels st)"
  from l have "length (st_channels st) < 2 ^ 32" by simp
  then obtain i where "free_id (st_channels st) (st_channel_count st) =
      Some (st_channel_count st + word_of_nat i, st_channel_count st + word_of_nat i + 1)" by (rule free_id_returns)
  then have all: "add_channel m st \<noteq> None" for m by (simp add: add_channel_def get_free_channel_id_def Let_def)
  from h show False
    by (cases "(x, now, k, buf, r, st)" rule: dispatch.cases)
      (auto simp: all try_handle_def handle_tunnel_def handle_version_def handle_authenticate_def handle_ping_def
        handle_permission_query_def handle_crypt_setup_def handle_user_stats_def handle_channel_state_def
        handle_user_state_def handle_voice_target_def Let_def split_def split: option.splits sum.splits if_splits)
qed

lemma stream_read_fails:
  "snd (handle_stream_read x now stream r st) = Panics \<Longrightarrow> short_nonce (x_rt x) stream"
  "snd (handle_stream_read x now stream r st) = Hangs \<Longrightarrow> 2 ^ 32 \<le> length (st_channels st)"
  using message_kind_codec
  by (fastforce simp: handle_stream_read_def short_nonce_def dest: dispatch_panics dispatch_hangs split: sum.splits)+

text \<open>One turn of the reading task: it ends the task, or leaves less to read or fewer errors to go.\<close>

definition turns_left :: "bytes \<Rightarrow> client \<Rightarrow> nat" where
  "turns_left stream c = length stream + (22 - unat (cl_bad_net_count c))"

definition keeps_count :: "(nat \<Rightarrow> turn) \<Rightarrow> cref \<Rightarrow> bool" where
  "keeps_count env r \<longleftrightarrow> (\<forall>n st c. st_heap st r = Some c \<longrightarrow>
     (\<exists>c'. st_heap (tn_others (env n) st) r = Some c' \<and> cl_bad_net_count c \<le> cl_bad_net_count c'))"

text \<open>What a turn that read a frame leaves: a good frame shortens the stream, an error is counted.\<close>

lemma turn_counted:
  assumes "st_heap st r = Some c0" and "cl_bad_net_count c \<le> cl_bad_net_count c0"
    and "handle_stream_read x now stream r st = (rest, Returns out)"
  obtains st2 c2 b where "count_bad r out = (st2, b)" "st_heap st2 r = Some c2"
    "b \<longrightarrow> turns_left rest c2 < turns_left stream c"
    "\<not> b \<longrightarrow> 20 < cl_bad_net_count c2 - 1"
proof -
  obtain st1 res where out: "out = (st1, res)" by (cases out)
  have "accounts st1 = accounts st" using accounts_stream_read [of st x now stream r] by (simp add: assms(3) out)
  then obtain c1 where c1: "st_heap st1 r = Some c1" "cl_bad_net_count c1 = cl_bad_net_count c0"
    using assms(1) by (metis accounts_heapD)
  have le: "unat (cl_bad_net_count c) \<le> unat (cl_bad_net_count c0)" using assms(2) by (simp add: word_le_nat_alt)
  show thesis
  proof (cases res)
    case (Inr u)
    with assms(3) out have "length rest < length stream" by (simp add: stream_read_ok)
    with le c1 show thesis by (intro that [of st1 True c1]) (simp_all add: count_bad_def out Inr turns_left_def)
  next
    case (Inl e)
    obtain st2 c2 where b: "count_bad r out = (st2, \<not> 20 < cl_bad_net_count c1)" "st_heap st2 r = Some c2"
      "cl_bad_net_count c2 = cl_bad_net_count c1 + 1"
      unfolding out Inl by (rule count_bad_error [OF c1(1)])
    have rest: "length rest \<le> length stream" using stream_read_stream [of x now stream r st] by (auto simp: assms(3))
    have "turns_left rest c2 < turns_left stream c"
      if "\<not> 20 < cl_bad_net_count c1"
    proof -
      from that have small: "unat (cl_bad_net_count c0) \<le> 20" by (simp add: c1(2) word_less_nat_alt)
      then have "unat (cl_bad_net_count c2) = Suc (unat (cl_bad_net_count c0))" by (simp add: b(3) c1(2) unat_word_ariths)
      with le small rest show ?thesis by (simp add: turns_left_def)
    qed
    with b show thesis by (intro that [OF b(1,2)]) simp_all
  qed
qed

lemma read_turn:
  assumes "st_heap st r = Some c" and "keeps_count env r"
  obtains (returns) st' c' where "read_task x env n stream r st = Some (Returns st')" "st_heap st' r = Some c'"
      "cl_cancelled c' \<or> 20 < cl_bad_net_count c' - 1"
  | (panics) "read_task x env n stream r st = Some Panics" "reads_from x env r n stream st stream (tn_others (env n) st)"
      "short_nonce (x_rt x) stream"
  | (hangs) "read_task x env n stream r st = Some Hangs" "reads_from x env r n stream st stream (tn_others (env n) st)"
      "2 ^ 32 \<le> length (st_channels (tn_others (env n) st))"
  | (again) rest st' c' where "read_task x env n stream r st = read_task x env (n + 1) rest r st'" "st_heap st' r = Some c'"
      "turns_left rest c' < turns_left stream c"
      "\<forall>stream2 st2. reads_from x env r (n + 1) rest st' stream2 st2 \<longrightarrow> reads_from x env r n stream st stream2 st2"
proof -
  let ?st = "tn_others (env n) st"
  from assms obtain c0 where c0: "st_heap ?st r = Some c0" "cl_bad_net_count c \<le> cl_bad_net_count c0"
    unfolding keeps_count_def by blast
  obtain rest h where h: "handle_stream_read x (tn_now (env n)) stream r ?st = (rest, h)" by fastforce
  note fails = stream_read_fails [of x "tn_now (env n)" stream r ?st, unfolded h snd_conv]
  consider (stop) "stops (env n) r ?st" | (failed) "\<not> stops (env n) r ?st" "h = Panics \<or> h = Hangs"
    | (ok) out where "\<not> stops (env n) r ?st" "h = Returns out" by (cases h) auto
  then show thesis
  proof cases
    case stop
    with c0 returns [of ?st c0] show thesis by (simp add: read_task.simps [of x env n] stops_def)
  next
    case failed
    from failed(1) have "reads_from x env r n stream st stream ?st" by (rule Now)
    with failed h fails panics hangs show thesis by (auto simp: read_task.simps [of x env n])
  next
    case (ok out)
    from c0(1) obtain st2 c2 b where b: "count_bad r out = (st2, b)" "st_heap st2 r = Some c2"
        "b \<longrightarrow> turns_left rest c2 < turns_left stream c" "\<not> b \<longrightarrow> 20 < cl_bad_net_count c2 - 1"
      using turn_counted [OF c0 h [unfolded ok(2)]] by blast
    show thesis
    proof (cases b)
      case True
      with Later [where env = env and n = n and r = r, OF ok(1) h [unfolded ok(2)]] b ok h again [of rest st2 c2] show thesis
        by (simp add: read_task.simps [of x env n])
    next
      case False
      with b ok h returns [of st2 c2] show thesis by (simp add: read_task.simps [of x env n])
    qed
  qed
qed

text \<open>
  C32: The reading task of a connection always ends. Whatever the peer sends before the stream closes, and
  whatever the other tasks do to the state between two turns, as long as they keep the client object and
  never lower its error count, the task ends after finitely many turns. When it returns, the client was
  cancelled or the error count before the task's last error exceeded 20. The process aborts only on a
  \<open>CryptSetup\<close> frame with a nonce that has not 16 bytes, and a handler runs forever only when \<open>2\<^sup>3\<^sup>2\<close>
  channels exist.
\<close>

theorem read_task_ends:
  assumes "st_heap st r = Some c" and "keeps_count env r"
  shows "\<exists>out. read_task x env n stream r st = Some out \<and>
    (case out of
       Returns st' \<Rightarrow> \<exists>c'. st_heap st' r = Some c' \<and> (cl_cancelled c' \<or> 20 < cl_bad_net_count c' - 1)
     | Panics \<Rightarrow> \<exists>stream' st'. reads_from x env r n stream st stream' st' \<and> short_nonce (x_rt x) stream'
     | Hangs \<Rightarrow> \<exists>stream' st'. reads_from x env r n stream st stream' st' \<and> 2 ^ 32 \<le> length (st_channels st'))"
  using assms(1)
proof (induction "turns_left stream c" arbitrary: n stream st c rule: less_induct)
  case less
  from less.prems assms(2) show ?case
  proof (cases rule: read_turn [where x = x and n = n and stream = stream])
    case (again rest st' c')
    from less.hyps [OF again(3,2), of "n + 1"] again(1,4) show ?thesis
      by (auto split: outcome.splits) blast+
  qed auto
qed

text \<open>The queue task of the client is such another task, until the count would wrap around.\<close>

lemma consume_count:
  assumes "st_heap st r = Some c" and "cl_bad_net_count c \<noteq> - 1"
  shows "\<exists>c'. st_heap (fst (consume x now r st)) r = Some c' \<and> cl_bad_net_count c \<le> cl_bad_net_count c'"
proof (cases "pub_queue (cl_publisher c)")
  case Nil
  with assms show ?thesis by (simp add: consume_def)
next
  case (Cons m ms)
  let ?st = "put_client r (c\<lparr>cl_publisher := (cl_publisher c)\<lparr>pub_queue := ms\<rparr>\<rparr>) st"
  obtain st1 res where q: "handle_queued x now m r ?st = (st1, res)" by fastforce
  have "accounts (fst (handle_queued x now m r ?st)) = accounts ?st"
    by (simp add: handle_queued_def client_io_account split: client_message.split)
  moreover have "st_heap ?st r = Some (c\<lparr>cl_publisher := (cl_publisher c)\<lparr>pub_queue := ms\<rparr>\<rparr>)" by (simp add: frame)
  ultimately obtain c1 where c1: "st_heap st1 r = Some c1" "cl_bad_net_count c1 = cl_bad_net_count c"
    unfolding q fst_conv by (metis (no_types, lifting) accounts_heapD client.select_convs(18) client.surjective client.update_convs(14))
  have "cl_bad_net_count c \<le> cl_bad_net_count c + 1" using assms(2) unatSuc [of "cl_bad_net_count c"]
    by (auto simp: word_le_nat_alt add.commute add_eq_0_iff)
  with c1 q Cons assms(1) show ?thesis
    by (cases res) (auto simp: consume_def count_bad_def frame)
qed

definition queue_turn :: "ext \<Rightarrow> cref \<Rightarrow> server_state \<Rightarrow> server_state" where
  "queue_turn x r st = (case st_heap st r of
     Some c \<Rightarrow> if cl_bad_net_count c = - 1 then st else fst (consume x 0 r st) | None \<Rightarrow> st)"

theorem read_task_ends_witness:
  "\<exists>out. read_task std_ext (\<lambda>_. \<lparr>tn_others = queue_turn std_ext 0, tn_now = 0, tn_frame_first = False\<rparr>) 0 [0, 3, 0] 0 demo_state =
     Some out"
proof -
  have "keeps_count (\<lambda>_. \<lparr>tn_others = queue_turn std_ext 0, tn_now = 0, tn_frame_first = False\<rparr>) 0"
    using consume_count by (auto simp: keeps_count_def queue_turn_def)
  from read_task_ends [OF _ this, of demo_state "demo_client 1 0" std_ext 0 "[0, 3, 0]"] show ?thesis by auto
qed

text \<open>
  C33: A client can lift a mute that was imposed on it: the \<open>mute\<close> field of a \<open>UserState\<close> message about the
  sender itself is taken over without any check.
\<close>

theorem client_lifts_its_mute:
  assumes "st_heap st r = Some c" and "cl_mute c"
    and "m = UserState_new\<lparr>UserState_session := Some (cl_session_id c), UserState_mute := Some False\<rparr>"
  shows "\<exists>st' c'. handle_user_state x m r st = Returns (st', Inr ()) \<and> st_heap st' r = Some c' \<and> \<not> cl_mute c'"
  using assms by (simp add: handle_user_state_def client_update_def set_mute_def frame UserState_new_def)

theorem client_lifts_its_mute_witness:
  "\<exists>st' c'. handle_user_state std_ext (UserState_new\<lparr>UserState_session := Some 1, UserState_mute := Some False\<rparr>) 0
      (demo_state\<lparr>st_heap := [0 \<mapsto> (demo_client 1 0)\<lparr>cl_mute := True\<rparr>]\<rparr>) = Returns (st', Inr ()) \<and>
    st_heap st' 0 = Some c' \<and> \<not> cl_mute c'"
  by (rule client_lifts_its_mute [where c = "(demo_client 1 0)\<lparr>cl_mute := True\<rparr>"]) simp_all

text \<open>
  C34: A client can abort the server: a \<open>CryptSetup\<close> message whose client nonce does not have 16 bytes makes
  the handler panic.
\<close>

theorem short_nonce_aborts:
  assumes "st_heap st r = Some c" and "CryptSetup_client_nonce m = Some nonce" and "length nonce \<noteq> 16"
  shows "handle_crypt_setup x now m r st = Panics"
  using assms by (simp add: handle_crypt_setup_def set_decrypt_nonce_def)

theorem short_nonce_aborts_witness:
  "handle_crypt_setup std_ext 0 (CryptSetup_new\<lparr>CryptSetup_client_nonce := Some [1, 2]\<rparr>) 0 demo_state = Panics"
  by (rule short_nonce_aborts [where c = "demo_client 1 0" and nonce = "[1, 2]"]) simp_all

end
