(* ===== verification/Server.thy ===== *)
theory Server
  imports Handlers
begin

text \<open>
  The servers that drive the state: new connections (\<open>src/src/server/tcp.rs\<close>), datagrams
  (\<open>src/src/server/udp.rs\<close>) and the periodic clean-up (\<open>src/src/clean.rs\<close>).
\<close>

section \<open>Connections\<close>

definition MAX_CLIENTS :: nat where "MAX_CLIENTS = 4096"

text \<open>The check of \<open>create_tcp_server\<close> before the TLS handshake.\<close>

definition accepts :: "server_state \<Rightarrow> bool" where
  "accepts st \<longleftrightarrow> unat (st_active_clients st) < MAX_CLIENTS"

definition contains_string :: "string \<Rightarrow> string \<Rightarrow> bool" where
  "contains_string hay pat \<longleftrightarrow> after_pattern pat hay \<noteq> None"

text \<open>What the environment contributes to a connection: timing, the clock, the random key, the streams.\<close>

record connection =
  cn_version_in_time :: bool
  cn_auth_in_time :: bool
  cn_key :: bytes
  cn_now :: instant
  cn_epoch :: nat
  cn_writer :: tcp_writer
  cn_udp :: udp_out
  cn_peer_ip :: ip_addr
  cn_stream :: bytes

text \<open>The username and release checks of \<open>handle_new_client\<close>, and the ban list.\<close>

text \<open>The pattern \<open>^\[\d+\].*$\<close>; matching belongs to the \<open>regex\<close> crate.\<close>

definition USERNAME_REGEX :: string where
  "USERNAME_REGEX = ''^'' @ [CHR 0x5C] @ ''['' @ [CHR 0x5C] @ ''d+'' @ [CHR 0x5C] @ ''].*$''"

definition unofficial :: "ext \<Rightarrow> string option \<Rightarrow> Version \<Rightarrow> Authenticate \<Rightarrow> bool" where
  "unofficial x restrict_to_version ver auth =
     (case restrict_to_version of
        Some restrict_to \<Rightarrow>
          \<not> contains_string (x_to_lowercase x (unwrap_or [] (Version_release ver))) restrict_to \<or>
          \<not> x_is_match x USERNAME_REGEX (unwrap_or [] (Authenticate_username auth))
      | None \<Rightarrow> False)"

datatype admission = Refused mumble_error | Admitted cref bytes | NoSessionId

definition enter_client ::
    "connection \<Rightarrow> tcp_writer \<Rightarrow> Version \<Rightarrow> Authenticate \<Rightarrow> crypt_state \<Rightarrow> bytes \<Rightarrow> server_state \<Rightarrow>
       server_state \<times> admission" where
  "enter_client cn w ver auth crypt_st rest st =
     (let np = name_part (unwrap_or [] (Authenticate_username auth)); ip = ip_string (cn_peer_ip cn) in
      case add_client (cn_now cn) ver auth crypt_st w (cn_udp cn) \<lparr>pub_queue = [], pub_closed = False\<rparr>
             (cn_peer_ip cn) st of
        None \<Rightarrow> (st, NoSessionId)
      | Some (r, st) \<Rightarrow>
          let st = (if is_muted (st_bans st) ip np then modify_client r (set_mute True) st else st)
          in case st_heap st r of
               None \<Rightarrow> (st, Admitted r rest)
             | Some c \<Rightarrow>
                 let (cfg, c) = seed_heard (cn_now cn) (cn_epoch cn) (st_anticheat st) c
                 in ((put_client r c st)\<lparr>st_anticheat := cfg\<rparr>, Admitted r rest))"

definition admit :: "ext \<Rightarrow> Version \<Rightarrow> connection \<Rightarrow> server_state \<Rightarrow> server_state \<times> admission" where
  "admit x server_version cn st =
     (case client_init x (cn_version_in_time cn) (cn_auth_in_time cn) (cn_key cn) (cn_now cn) server_version
             (cn_writer cn) (cn_stream cn) of
        (w, Inl e) \<Rightarrow> (st, Refused e)
      | (w, Inr ((ver, auth, crypt_st), rest)) \<Rightarrow>
          if unofficial x (st_restrict_to_version st) ver auth then (st, Refused UnknownError)
          else if is_banned (st_bans st) (ip_string (cn_peer_ip cn))
              (name_part (unwrap_or [] (Authenticate_username auth))) \<noteq> None
          then (st, Refused UnknownError)
          else enter_client cn w ver auth crypt_st rest st)"

text \<open>The part of \<open>client_run\<close> before the tasks start.\<close>

definition client_start :: "ext \<Rightarrow> cref \<Rightarrow> server_state \<Rightarrow> server_state \<times> (mumble_error + unit)" where
  "client_start x r st =
     (case client_io r (\<lambda>c. send_message x c KCodecVersion
             (MCodecVersion (get_codec_version (st_codec_state st)))) st of
        (st, Inl e) \<Rightarrow> (st, Inl e)
      | (st, Inr _) \<Rightarrow> (case sync_client_and_channels x r st of
          (st, Inl e) \<Rightarrow> (st, Inl e)
        | (st, Inr _) \<Rightarrow> (case client_io r (send_my_user_state x) st of
            (st, Inl e) \<Rightarrow> (st, Inl e)
          | (st, Inr _) \<Rightarrow> (case client_io r (send_server_sync x) st of
              (st, Inl e) \<Rightarrow> (st, Inl e)
            | (st, Inr _) \<Rightarrow> (case client_io r (send_server_config x) st of
                (st, Inl e) \<Rightarrow> (st, Inl e)
              | (st, Inr _) \<Rightarrow> (case st_heap st r of
                  None \<Rightarrow> (st, Inr ())
                | Some c \<Rightarrow> (fst (broadcast_message x KUserState (MUserState (get_user_state c)) st), Inr ())))))))"

text \<open>When the tasks are over the queue is closed with its receiver, and the session is disconnected.\<close>

definition client_end :: "ext \<Rightarrow> cref \<Rightarrow> server_state \<Rightarrow> server_state" where
  "client_end x r st =
     (case st_heap st r of
        None \<Rightarrow> st
      | Some c \<Rightarrow> disconnect x (cl_session_id c) Disconnected
          (put_client r (c\<lparr>cl_publisher := (cl_publisher c)\<lparr>pub_closed := True\<rparr>\<rparr>) st))"

section \<open>Datagrams\<close>

definition anonymous_pong :: "u32 \<Rightarrow> u64 \<Rightarrow> server_state \<Rightarrow> bytes" where
  "anonymous_pong protocol_version timestamp st =
     be_bytes 4 protocol_version @ le_bytes 8 timestamp @ be_bytes 4 (st_active_clients st) @
     be_bytes 4 (word_of_nat MAX_CLIENTS :: u32) @ be_bytes 4 MAX_BANDWIDTH_IN_BITS"

text \<open>\<open>socket.send_to\<close>: it has no timeout of its own.\<close>

definition socket_send :: "socket_addr \<Rightarrow> bytes \<Rightarrow> server_state \<Rightarrow> server_state \<times> (mumble_error + unit)" where
  "socket_send addr bs st =
     (case uo_result (st_socket st) of
        UdpError e \<Rightarrow> (st, Inl (MumbleIo e))
      | _ \<Rightarrow> (st\<lparr>st_socket := (st_socket st)\<lparr>uo_sent := uo_sent (st_socket st) @ [(addr, bs)]\<rparr>\<rparr>, Inr ()))"

definition restart_crypt :: "instant \<Rightarrow> decrypt_error \<Rightarrow> crypt_state \<Rightarrow> bool" where
  "restart_crypt now err s \<longleftrightarrow>
     (case err of Late \<Rightarrow> late s > 100 | Repeat \<Rightarrow> False | _ \<Rightarrow> True) \<or>
     duration_since now (last_good s) div secs 1 > 5"

text \<open>The client that sent the datagram and the packet in it, if any.\<close>

definition identify ::
    "ext \<Rightarrow> instant \<Rightarrow> bytes \<Rightarrow> socket_addr \<Rightarrow> server_state \<Rightarrow>
       server_state \<times> (cref \<times> unit voice_packet) option" where
  "identify x now buffer addr st =
     (case Option.bind (get_client_by_socket addr st) (\<lambda>r. map_option (Pair r) (st_heap st r)) of
        Some (r, c) \<Rightarrow>
          let (crypt_st, res) = decrypt (x_aes x) server_bound now (cl_crypt_state c) buffer;
              st = put_client r (c\<lparr>cl_crypt_state := crypt_st\<rparr>) st
          in (case res of
                Inr p \<Rightarrow> (st, Some (r, p))
              | Inl err \<Rightarrow>
                  if restart_crypt now err crypt_st then (fst (reset_client_crypt x now r st), None) else (st, None))
      | None \<Rightarrow> find_client_with_decrypt x now buffer addr st)"

text \<open>What is done with the packet: a ping is answered, anything else goes to the client's task.\<close>

definition receive_packet ::
    "ext \<Rightarrow> instant \<Rightarrow> socket_addr \<Rightarrow> cref \<Rightarrow> unit voice_packet \<Rightarrow> server_state \<Rightarrow> server_state" where
  "receive_packet x now addr r packet st =
     (case st_heap st r of
        None \<Rightarrow> st
      | Some c \<Rightarrow>
          let client_packet = into_client_bound packet (cl_session_id c) (st_remove_positional_data st)
          in (case client_packet of
                Ping _ \<Rightarrow>
                  let (crypt_st, dest) = encrypt (x_aes x) client_bound (cl_crypt_state c) client_packet;
                      st = put_client r (c\<lparr>cl_crypt_state := crypt_st, cl_last_udp_ping := now\<rparr>) st
                  in fst (socket_send addr dest st)
              | _ \<Rightarrow> publish (RouteVoicePacket client_packet) r st))"

definition handle_packet ::
    "ext \<Rightarrow> instant \<Rightarrow> u32 \<Rightarrow> bytes \<Rightarrow> socket_addr \<Rightarrow> server_state \<Rightarrow> server_state \<times> (mumble_error + unit)" where
  "handle_packet x now protocol_version buffer addr st =
     (if length buffer \<le> 1 then (st, Inl UnknownError)
      else if drop_bit 5 (hd buffer) AND 7 = 0 \<and> length buffer = 12 then
        (case read_varint (tl buffer) of
           Inl e \<Rightarrow> (st, Inl (MumbleIo e))
         | Inr (timestamp, _) \<Rightarrow> socket_send addr (anonymous_pong protocol_version timestamp st) st)
      else
        (case identify x now buffer addr st of
           (st, None) \<Rightarrow> (st, Inr ())
         | (st, Some (r, packet)) \<Rightarrow> (receive_packet x now addr r packet st, Inr ())))"

text \<open>The receive buffer holds 1024 bytes; the rest of a longer datagram is lost.\<close>

definition udp_server_run ::
    "ext \<Rightarrow> instant \<Rightarrow> u32 \<Rightarrow> bytes \<Rightarrow> socket_addr \<Rightarrow> server_state \<Rightarrow> server_state" where
  "udp_server_run x now protocol_version datagram addr st =
     fst (handle_packet x now protocol_version (take 1024 datagram) addr st)"

section \<open>Cleaning up\<close>

datatype verdict = Keep | Reset | Remove disconnect_reason

definition inspect :: "instant \<Rightarrow> client \<Rightarrow> verdict" where
  "inspect now c =
     (if pub_closed (cl_publisher c) then Remove LostReceivingChannel
      else if duration_since now (cl_last_udp_ping c) div secs 1 > 30 then Reset
      else if duration_since now (cl_last_tcp_ping c) div secs 1 > 10 then Remove ClientTimedOutTcp
      else if duration_since now (last_good (cl_crypt_state c)) div 1000000 > 8000 then Reset
      else Keep)"

definition to_remove :: "instant \<Rightarrow> server_state \<Rightarrow> (u32, disconnect_reason) hindex" where
  "to_remove now st =
     fold (\<lambda>(_, r) acc. case st_heap st r of
         Some c \<Rightarrow> (case inspect now c of Remove reason \<Rightarrow> hi_insert (cl_session_id c) reason acc | _ \<Rightarrow> acc)
       | None \<Rightarrow> acc) (st_clients st)
       (fold (\<lambda>(sid, reason). hi_insert sid reason) (st_disconnect_queue st) [])"

definition to_reset :: "instant \<Rightarrow> server_state \<Rightarrow> cref list" where
  "to_reset now st = map snd (filter (\<lambda>(_, r). case st_heap st r of
     Some c \<Rightarrow> inspect now c = Reset | None \<Rightarrow> False) (st_clients st))"

definition clean_run :: "ext \<Rightarrow> instant \<Rightarrow> server_state \<Rightarrow> server_state" where
  "clean_run x now st =
     (let clients_to_remove = to_remove now st;
          clients_to_reset_crypt = to_reset now st;
          st = st\<lparr>st_disconnect_queue := []\<rparr>;
          st = fold (\<lambda>r st. fst (reset_client_crypt x now r st)) clients_to_reset_crypt st
      in fold (\<lambda>(sid, reason). disconnect x sid reason) clients_to_remove st)"

end
