(* ===== verification/Invariant.thy ===== *)
theory Invariant
  imports Server
begin

text \<open>
  The invariant of the server state, stated over the directory of \<open>State\<close>, and that every operation
  of \<open>State\<close>, \<open>Handlers\<close> and \<open>Server\<close> keeps it: sessions and objects correspond, the number of active
  clients is the number of sessions, channels refer to live objects, the root channel stays, and every
  connected client is either known by its UDP address or waits to be found by decryption.
\<close>

section \<open>Indexes\<close>

lemma indexes_wf_update:
  assumes "indexes_wf st"
  shows "hi_wf q \<Longrightarrow> indexes_wf (st\<lparr>st_disconnect_queue := q\<rparr>)"
    and "channels_wf chs \<Longrightarrow> indexes_wf (st\<lparr>st_channels := chs\<rparr>)"
    and "hi_wf cs \<Longrightarrow> indexes_wf (st\<lparr>st_clients := cs\<rparr>)"
    and "hi_wf cs \<Longrightarrow> indexes_wf (st\<lparr>st_clients_without_udp := cs\<rparr>)"
    and "hi_wf as \<Longrightarrow> indexes_wf (st\<lparr>st_clients_by_socket := as\<rparr>)"
  using assms by (simp_all add: indexes_wf_def)

lemma indexes_wf_irrelevant [simp]:
  "indexes_wf (st\<lparr>st_session_count := n\<rparr>) = indexes_wf st" "indexes_wf (st\<lparr>st_channel_count := n\<rparr>) = indexes_wf st"
  "indexes_wf (st\<lparr>st_active_clients := n\<rparr>) = indexes_wf st" "indexes_wf (st\<lparr>st_anticheat := cfg\<rparr>) = indexes_wf st"
  "indexes_wf (st\<lparr>st_socket := u\<rparr>) = indexes_wf st" "indexes_wf (st\<lparr>st_shutdown := rs\<rparr>) = indexes_wf st"
  "indexes_wf (st\<lparr>st_next := r\<rparr>) = indexes_wf st" "indexes_wf (st\<lparr>st_heap := h\<rparr>) = indexes_wf st"
  "indexes_wf (put_client r c st) = indexes_wf st" "indexes_wf (modify_client r f st) = indexes_wf st"
  by (simp_all add: indexes_wf_def frame)

lemma indexes_wf_io [simp]: "indexes_wf (fst (client_io r f st)) = indexes_wf st"
  by (simp add: client_io_def split_def Let_def split: option.split)

lemma indexes_wf_left: "indexes_wf st \<Longrightarrow> indexes_wf (fst (handle_client_left_channel x sid cid st))"
proof -
  assume wf: "indexes_wf st"
  then have "channels_wf (st_channels (fst (handle_client_left_channel x sid cid st)))"
    by (intro channels_wf_left indexes_wfD)
  with wf show ?thesis
    by (auto simp: indexes_wf_def handle_client_left_channel_def delete_channel_def Let_def split_def frame
        broadcast_queue_wf split: option.split)
qed

lemma indexes_wf_set_channel: 
  assumes "indexes_wf st"
  shows "indexes_wf (fst (set_client_channel x r cid st))"
proof (cases "st_heap st r")
  case (Some c)
  have "indexes_wf ((put_client r c' st)\<lparr>st_channels := hi_modify k
      (\<lambda>ch. ch\<lparr>ch_clients := hi_insert sid q (ch_clients ch)\<rparr>) (st_channels st)\<rparr>)" for c' k sid q
    using assms channels_wf_get [OF indexes_wfD(5) [OF assms]]
    by (intro indexes_wf_update channels_wf_modify) (auto simp: index_wf indexes_wfD)
  with Some assms show ?thesis
    by (auto simp: set_client_channel_def Let_def split_def frame intro!: indexes_wf_left indexes_wf_broadcast
        split: option.split)
qed (simp add: set_client_channel_def assms)

lemma indexes_wf_close:
  assumes "indexes_wf st"
  shows "indexes_wf (close_client x sid r c st)"
proof -
  define st2 where "st2 = broadcast_client_delete x sid (cl_channel_id c) (let st = st\<lparr>st_clients_without_udp := hi_remove sid (st_clients_without_udp st)\<rparr>;
          st = st\<lparr>st_active_clients := st_active_clients st - 1\<rparr>;
          st = put_client r (c\<lparr>cl_cancelled := True, cl_udp_socket_addr := None\<rparr>) st;
          st = st\<lparr>st_shutdown := st_shutdown st @ [r]\<rparr>
      in case cl_udp_socket_addr c of Some a \<Rightarrow> remove_client_by_socket a st | None \<Rightarrow> st)"
  have "indexes_wf st2"
    using assms unfolding st2_def broadcast_client_delete_def Let_def split_def fst_conv
    by (intro indexes_wf_left indexes_wf_broadcast)
      (auto simp: remove_client_by_socket_def index_wf indexes_wfD frame split: option.split
        intro!: indexes_wf_update hi_wf_remove)
  then have "indexes_wf (st2\<lparr>st_channels := hi_modify k
       (\<lambda>ch. ch\<lparr>ch_clients := hi_retain (\<lambda>s _. s \<noteq> sid) (ch_clients ch)\<rparr>) (st_channels st2)\<rparr>)" for k
    using channels_wf_get [OF indexes_wfD(5)]
    by (intro indexes_wf_update channels_wf_modify) (auto simp: indexes_wfD hi_wf_retain)
  with \<open>indexes_wf st2\<close> show ?thesis
    by (auto simp: close_client_def st2_def [unfolded Let_def, symmetric] Let_def split: option.split)
qed

lemma indexes_wf_commit: "indexes_wf st \<Longrightarrow> indexes_wf (disconnect_commit x sid found st)"
  by (auto simp: disconnect_commit_def Let_def intro!: indexes_wf_close indexes_wf_update hi_wf_remove
      dest: indexes_wfD(1) split: option.split)

lemma indexes_wf_disconnect: "indexes_wf st \<Longrightarrow> indexes_wf (disconnect x sid reason st)"
  by (simp add: disconnect_def indexes_wf_commit)

section \<open>The invariant\<close>

text \<open>
  \<open>n\<close> is the number of clients admitted so far. As long as the session counter has not wrapped around
  the ids \<open>1\<close> to \<open>n\<close> have been given out, each to one object.
\<close>

definition obj_session :: "directory \<Rightarrow> cref \<Rightarrow> u32 option" where
  "obj_session d r = map_option i_session (d_objects d r)"

definition obj_socket :: "directory \<Rightarrow> cref \<Rightarrow> socket_addr option" where
  "obj_socket d r = Option.bind (d_objects d r) i_socket"

definition members_ok :: "(cref \<rightharpoonup> u32) \<Rightarrow> (u32 \<rightharpoonup> cref) \<Rightarrow> bool" where
  "members_ok os refs \<longleftrightarrow> (\<forall>sid r. refs sid = Some r \<longrightarrow> os r = Some sid)"

definition sess_ok :: "nat \<Rightarrow> (u32 \<rightharpoonup> cref) \<Rightarrow> (cref \<rightharpoonup> u32) \<Rightarrow> u32 \<Rightarrow> u32 \<Rightarrow> cref \<Rightarrow> bool" where
  "sess_ok n sess os active count nxt \<longleftrightarrow>
     members_ok os sess \<and> finite (dom sess) \<and> active = word_of_nat (card (dom sess)) \<and>
     count = word_of_nat (n + 1) \<and>
     (\<forall>r sid. os r = Some sid \<longrightarrow> r < nxt \<and> 0 < unat sid \<and> unat sid \<le> n) \<and>
     (\<forall>r r' sid. os r = Some sid \<longrightarrow> os r' = Some sid \<longrightarrow> r = r')"

definition chan_ok :: "(cref \<rightharpoonup> u32) \<Rightarrow> (u32 \<rightharpoonup> member_list) \<Rightarrow> bool" where
  "chan_ok os chs \<longleftrightarrow>
     (\<exists>m. chs 0 = Some m \<and> \<not> m_temporary m) \<and>
     (\<forall>k m. chs k = Some m \<longrightarrow> members_ok os (m_clients m) \<and> members_ok os (m_listeners m))"

text \<open>A connected client is either known by its UDP address or waits to be found by decryption.\<close>

definition sock_ok ::
    "(u32 \<rightharpoonup> cref) \<Rightarrow> (cref \<rightharpoonup> u32) \<Rightarrow> (cref \<rightharpoonup> socket_addr) \<Rightarrow> (u32 \<rightharpoonup> cref) \<Rightarrow> (socket_addr \<rightharpoonup> cref) \<Rightarrow> bool" where
  "sock_ok sess os addr waiting known \<longleftrightarrow>
     (\<forall>sid r. waiting sid = Some r \<longrightarrow> sess sid = Some r) \<and>
     (\<forall>a r. known a = Some r \<longrightarrow> addr r = Some a \<and> (\<exists>sid. os r = Some sid \<and> sess sid = Some r)) \<and>
     (\<forall>sid r. sess sid = Some r \<longrightarrow>
        (case addr r of Some a \<Rightarrow> known a = Some r \<and> waiting sid = None | None \<Rightarrow> waiting sid = Some r))"

definition dir_inv :: "nat \<Rightarrow> directory \<Rightarrow> bool" where
  "dir_inv n d \<longleftrightarrow>
     sess_ok n (d_sessions d) (obj_session d) (d_active d) (d_session_count d) (d_next d) \<and>
     chan_ok (obj_session d) (d_channels d) \<and>
     sock_ok (d_sessions d) (obj_session d) (obj_socket d) (d_without_udp d) (d_sockets d)"

definition server_inv :: "nat \<Rightarrow> server_state \<Rightarrow> bool" where
  "server_inv n st \<longleftrightarrow> indexes_wf st \<and> dir_inv n (directory_of st)"

subsection \<open>Channels\<close>

lemma members_ok_upd: "members_ok os refs \<Longrightarrow> os r = Some sid \<Longrightarrow> members_ok os (refs(sid \<mapsto> r))"
  by (auto simp: members_ok_def)

lemma members_ok_del: "members_ok os refs \<Longrightarrow> members_ok os (refs(sid := None))"
  by (auto simp: members_ok_def)

lemma members_ok_empty [simp]: "members_ok os Map.empty"
  by (simp add: members_ok_def)

text \<open>A channel that is changed keeps whether it is temporary and gets only members with their own id.\<close>

lemma chan_ok_upd:
  assumes "chan_ok os chs" and "\<And>m. chs cid = Some m \<Longrightarrow> m_temporary m' = m_temporary m"
    and "members_ok os (m_clients m')" and "members_ok os (m_listeners m')"
  shows "chan_ok os (chs(cid \<mapsto> m'))"
  using assms by (auto simp: chan_ok_def)

lemma chan_ok_del:
  "chan_ok os chs \<Longrightarrow> (\<And>m. chs cid = Some m \<Longrightarrow> m_temporary m) \<Longrightarrow> chan_ok os (chs(cid := None))"
  by (auto simp: chan_ok_def)

lemma members_ok_new: "members_ok os refs \<Longrightarrow> os r = None \<Longrightarrow> members_ok (os(r \<mapsto> sid)) refs"
  by (auto simp: members_ok_def)

lemma chan_ok_new: "chan_ok os chs \<Longrightarrow> os r = None \<Longrightarrow> chan_ok (os(r \<mapsto> sid)) chs"
  by (simp add: chan_ok_def members_ok_new)

lemma chan_ok_members:
  "chan_ok os chs \<Longrightarrow> chs cid = Some m \<Longrightarrow> members_ok os (m_clients m) \<and> members_ok os (m_listeners m)"
  by (auto simp: chan_ok_def)

lemma dir_sel_obj [simp]:
  "obj_session (d\<lparr>d_channels := chs\<rparr>) = obj_session d" "obj_socket (d\<lparr>d_channels := chs\<rparr>) = obj_socket d"
  "obj_session (d\<lparr>d_sessions := ss\<rparr>) = obj_session d" "obj_socket (d\<lparr>d_sessions := ss\<rparr>) = obj_socket d"
  "obj_session (d\<lparr>d_objects := (d_objects d)(r \<mapsto> i)\<rparr>) = (obj_session d)(r \<mapsto> i_session i)"
  "obj_socket (d\<lparr>d_objects := (d_objects d)(r \<mapsto> i)\<rparr>) = (obj_socket d)(r := i_socket i)"
  by (auto simp: obj_session_def obj_socket_def fun_eq_iff)

lemma dir_channels_inv:
  "dir_inv n d \<Longrightarrow> chan_ok (obj_session d) chs \<Longrightarrow> dir_inv n (d\<lparr>d_channels := chs\<rparr>)"
  by (simp add: dir_inv_def)

lemma dir_inv_chan: "dir_inv n d \<Longrightarrow> chan_ok (obj_session d) (d_channels d)"
  by (simp add: dir_inv_def)

lemma dir_leave_inv:
  assumes "dir_inv n d"
  shows "dir_inv n (dir_leave sid cid d)"
  using assms chan_ok_members [OF dir_inv_chan [OF assms], of cid]
  by (auto simp: dir_leave_def Let_def members_ok_del
      intro!: dir_channels_inv chan_ok_upd chan_ok_del dir_inv_chan split: option.split)

lemma dir_enter_inv:
  assumes "dir_inv n d" and "obj_session d r = Some sid"
  shows "dir_inv n (dir_enter sid r cid d)"
proof (cases "d_channels d cid")
  case None
  then have "(d_channels d)(cid := None) = d_channels d" by auto
  with None assms(1) show ?thesis by (simp add: dir_enter_def)
next
  case (Some m)
  with assms chan_ok_members [OF dir_inv_chan [OF assms(1)] Some] show ?thesis
    by (auto simp: dir_enter_def members_ok_upd intro!: dir_channels_inv chan_ok_upd dir_inv_chan)
qed

lemma obj_session_same: "d_objects d r = Some i \<Longrightarrow> (obj_session d)(r \<mapsto> i_session i) = obj_session d"
  by (auto simp: obj_session_def)

lemma obj_socket_same: "d_objects d r = Some i \<Longrightarrow> (obj_socket d)(r := i_socket i) = obj_socket d"
  by (auto simp: obj_socket_def)

lemma dir_move_inv:
  assumes "dir_inv n d"
  shows "dir_inv n (dir_move r cid d)"
proof (cases "d_objects d r")
  case (Some i)
  let ?d = "d\<lparr>d_objects := (d_objects d)(r \<mapsto> i\<lparr>i_channel := cid\<rparr>)\<rparr>"
  have eqs: "obj_session ?d = obj_session d" "obj_socket ?d = obj_socket d"
    using Some obj_session_same [OF Some] obj_socket_same [OF Some] by simp_all
  have d: "dir_inv n ?d"
    using assms unfolding dir_inv_def eqs by simp
  have "obj_session ?d r = Some (i_session i)" by (simp add: obj_session_def)
  from dir_enter_inv [OF d this] d Some show ?thesis
    by (simp add: dir_move_def dir_leave_inv Let_def)
qed (simp add: dir_move_def assms)

subsection \<open>Connecting and disconnecting\<close>

lemma members_okD: "members_ok os refs \<Longrightarrow> refs sid = Some r \<Longrightarrow> os r = Some sid"
  by (simp add: members_ok_def)

lemma sess_okD:
  assumes "sess_ok n sess os active count nxt"
  shows "members_ok os sess" "finite (dom sess)" "active = word_of_nat (card (dom sess))"
    "count = word_of_nat (n + 1)" "os r = Some sid \<Longrightarrow> r < nxt \<and> 0 < unat sid \<and> unat sid \<le> n"
    "os r = Some sid \<Longrightarrow> os r' = Some sid \<Longrightarrow> r = r'"
  using assms unfolding sess_ok_def by blast+

lemma sess_ok_remove:
  assumes "sess_ok n sess os active count nxt" and "sess sid \<noteq> None"
  shows "sess_ok n (sess(sid := None)) os (active - 1) count nxt"
proof -
  note ok = sess_okD [OF assms(1)]
  have "card (dom sess) = Suc (card (dom sess - {sid}))"
    using ok(2) assms(2) by (metis card_Suc_Diff1 domIff)
  then have "active - 1 = word_of_nat (card (dom (sess(sid := None))))" using ok(3) by simp
  with ok assms(1) show ?thesis unfolding sess_ok_def by (simp add: members_ok_del)
qed

lemma sess_ok_add:
  assumes "sess_ok n sess os active count nxt" and "n + 1 < 2 ^ 32" and "sess (word_of_nat (n + 1)) = None"
  shows "sess_ok (n + 1) (sess(word_of_nat (n + 1) \<mapsto> nxt)) (os(nxt \<mapsto> word_of_nat (n + 1))) (active + 1) (count + 1) (nxt + 1)"
proof -
  note ok = sess_okD [OF assms(1)]
  have u: "unat (word_of_nat (n + 1) :: u32) = n + 1"
    using assms(2) by (simp add: unat_of_nat del: of_nat_Suc)
  have fresh: "os r \<noteq> Some (word_of_nat (n + 1))" for r using ok(5) [of r] u by force
  have old: "os nxt = None" using ok(5) [of nxt] by fastforce
  have mem: "members_ok (os(nxt \<mapsto> word_of_nat (n + 1))) (sess(word_of_nat (n + 1) \<mapsto> nxt))"
    using ok(1) old by (auto simp: members_ok_def)
  have card: "card (dom (sess(word_of_nat (n + 1) \<mapsto> nxt))) = Suc (card (dom sess))"
    using ok(2) assms(3) by (simp add: domIff)
  show ?thesis
    unfolding sess_ok_def
  proof (intro conjI allI impI)
    show "active + 1 = word_of_nat (card (dom (sess(word_of_nat (n + 1) \<mapsto> nxt))))" "count + 1 = word_of_nat (n + 1 + 1)"
      unfolding card ok(3,4) by simp_all
    show "r < nxt + 1" "0 < unat sid" "unat sid \<le> n + 1"
      if "(os(nxt \<mapsto> word_of_nat (n + 1))) r = Some sid" for r sid
      using that ok(5) [of r sid] u by (auto split: if_splits)
    show "r = r'" if "(os(nxt \<mapsto> word_of_nat (n + 1))) r = Some sid"
      "(os(nxt \<mapsto> word_of_nat (n + 1))) r' = Some sid" for r r' sid
      using that ok(6) fresh by (auto split: if_splits)
  qed (use mem ok(2) in simp_all)
qed

lemma sock_okI:
  assumes "\<And>sid r. waiting sid = Some r \<Longrightarrow> sess sid = Some r"
    and "\<And>a r. known a = Some r \<Longrightarrow> addr r = Some a"
    and "\<And>a r. known a = Some r \<Longrightarrow> \<exists>sid. os r = Some sid \<and> sess sid = Some r"
    and "\<And>sid r a. sess sid = Some r \<Longrightarrow> addr r = Some a \<Longrightarrow> known a = Some r \<and> waiting sid = None"
    and "\<And>sid r. sess sid = Some r \<Longrightarrow> addr r = None \<Longrightarrow> waiting sid = Some r"
  shows "sock_ok sess os addr waiting known"
  unfolding sock_ok_def
proof (intro conjI allI impI)
  fix sid r assume "sess sid = Some r"
  with assms(4,5) show "case addr r of Some a \<Rightarrow> known a = Some r \<and> waiting sid = None | None \<Rightarrow> waiting sid = Some r"
    by (cases "addr r") simp_all
qed (use assms(1-3) in blast)+

lemma sock_okD:
  assumes "sock_ok sess os addr waiting known"
  shows "waiting sid = Some r \<Longrightarrow> sess sid = Some r"
    and "known a = Some r \<Longrightarrow> addr r = Some a"
    and "known a = Some r \<Longrightarrow> \<exists>sid. os r = Some sid \<and> sess sid = Some r"
    and "sess sid = Some r \<Longrightarrow> addr r = Some a \<Longrightarrow> known a = Some r \<and> waiting sid = None"
    and "sess sid = Some r \<Longrightarrow> addr r = None \<Longrightarrow> waiting sid = Some r"
proof -
  show "sess sid = Some r \<Longrightarrow> addr r = Some a \<Longrightarrow> known a = Some r \<and> waiting sid = None"
    "sess sid = Some r \<Longrightarrow> addr r = None \<Longrightarrow> waiting sid = Some r"
    using assms [unfolded sock_ok_def, THEN conjunct2, THEN conjunct2, rule_format, of sid r] by simp_all
qed (use assms in \<open>unfold sock_ok_def, blast\<close>)+

lemma sock_ok_remove:
  assumes "sock_ok sess os addr waiting known" and "sess_ok n sess os active count nxt" and "sess sid = Some r"
  shows "sock_ok (sess(sid := None)) os (addr(r := None)) (waiting(sid := None))
    (case addr r of Some a \<Rightarrow> known(a := None) | None \<Rightarrow> known)"
proof -
  note ok = sess_okD [OF assms(2)] and so = sock_okD [OF assms(1)]
  have rs: "os r = Some sid" using ok(1) assms(3) by (rule members_okD)
  have other: "q \<noteq> r" if "sess s = Some q" "s \<noteq> sid" for s q
    using members_okD [OF ok(1) that(1)] rs that(2) by auto
  let ?known = "case addr r of Some a \<Rightarrow> known(a := None) | None \<Rightarrow> known"
  have known: "?known a = Some q \<longleftrightarrow> known a = Some q \<and> q \<noteq> r" for a q
  proof (cases "addr r")
    case None
    have "known a \<noteq> Some r" using so(2) [of a r] None by force
    with None show ?thesis by simp metis
  next
    case (Some b)
    have "known b = Some r" using so(4) [OF assms(3) Some] by simp
    moreover have "a = b" if "known a = Some r" using so(2) [OF that] Some by simp
    ultimately show ?thesis using Some by (cases "a = b") force+
  qed
  show ?thesis
  proof (rule sock_okI)
    fix s q assume "(waiting(sid := None)) s = Some q"
    with so(1) [of s q] show "(sess(sid := None)) s = Some q" by (auto split: if_splits)
  next
    fix a q assume "?known a = Some q"
    with known have k: "known a = Some q" "q \<noteq> r" by auto
    then show "(addr(r := None)) q = Some a" using so(2) by simp
    from so(3) [OF k(1)] obtain s where "os q = Some s" "sess s = Some q" by blast
    with k(2) assms(3) show "\<exists>s. os q = Some s \<and> (sess(sid := None)) s = Some q" by (intro exI [of _ s]) auto
  next
    fix s q a assume "(sess(sid := None)) s = Some q" "(addr(r := None)) q = Some a"
    with so(4) [of s q a] known show "?known a = Some q \<and> (waiting(sid := None)) s = None" by (auto split: if_splits)
  next
    fix s q assume "(sess(sid := None)) s = Some q" "(addr(r := None)) q = None"
    with so(5) [of s q] other [of s q] show "(waiting(sid := None)) s = Some q" by (auto split: if_splits)
  qed
qed

lemma sock_ok_add:
  assumes "sock_ok sess os addr waiting known" and "sess sid = None" and "os nxt = None" and "members_ok os sess"
    and "addr nxt = None"
  shows "sock_ok (sess(sid \<mapsto> nxt)) (os(nxt \<mapsto> sid)) addr (waiting(sid \<mapsto> nxt)) known"
proof -
  note so = sock_okD [OF assms(1)]
  have new: "q \<noteq> nxt" if "known a = Some q" for a q using so(3) [OF that] assms(3) by auto
  have "waiting sid = None" using so(1) [of sid] assms(2) by (cases "waiting sid") auto
  show ?thesis
  proof (rule sock_okI)
    fix a q assume k: "known a = Some q"
    then show "addr q = Some a" by (rule so(2))
    from so(3) [OF k] obtain s where "os q = Some s" "sess s = Some q" by blast
    with new [OF k] assms(2) show "\<exists>s. (os(nxt \<mapsto> sid)) q = Some s \<and> (sess(sid \<mapsto> nxt)) s = Some q"
      by (intro exI [of _ s]) auto
  next
    fix s q a assume "(sess(sid \<mapsto> nxt)) s = Some q" "addr q = Some a"
    with so(4) [of s q a] assms(5) show "known a = Some q \<and> (waiting(sid \<mapsto> nxt)) s = None" by (auto split: if_splits)
  next
    fix s q assume "(sess(sid \<mapsto> nxt)) s = Some q" "addr q = None"
    with so(5) [of s q] show "(waiting(sid \<mapsto> nxt)) s = Some q" by (auto split: if_splits)
  next
    fix s q assume "(waiting(sid \<mapsto> nxt)) s = Some q"
    with so(1) [of s q] show "(sess(sid \<mapsto> nxt)) s = Some q" by (auto split: if_splits)
  qed
qed

lemma sock_ok_bind:
  assumes "sock_ok sess os addr waiting known" and "waiting sid = Some r" and "os r = Some sid" and "known a = None"
    and "sess_ok n sess os active count nxt"
  shows "sock_ok sess os (addr(r \<mapsto> a)) (waiting(sid := None)) (known(a \<mapsto> r))"
proof -
  note so = sock_okD [OF assms(1)] and ok = sess_okD [OF assms(5)]
  have s: "sess sid = Some r" using so(1) [OF assms(2)] .
  have none: "addr r = None" using so(4) [OF s] assms(2) by (cases "addr r") auto
  have other: "q = r \<longleftrightarrow> t = sid" if "sess t = Some q" for t q
    using that s members_okD [OF ok(1) that] assms(3) by auto
  show ?thesis
  proof (rule sock_okI)
    fix t q assume "(waiting(sid := None)) t = Some q"
    with so(1) [of t q] show "sess t = Some q" by (auto split: if_splits)
  next
    fix b q assume k: "(known(a \<mapsto> r)) b = Some q"
    then show "(addr(r \<mapsto> a)) q = Some b" using so(2) [of b q] none by (cases "b = a") auto
    from k show "\<exists>t. os q = Some t \<and> sess t = Some q" using so(3) [of b q] assms(3) s by (cases "b = a") auto
  next
    fix t q b assume t: "sess t = Some q" "(addr(r \<mapsto> a)) q = Some b"
    show "(known(a \<mapsto> r)) b = Some q \<and> (waiting(sid := None)) t = None"
    proof (cases "q = r")
      case True
      with t other show ?thesis by auto
    next
      case False
      with t so(4) [of t q b] assms(4) show ?thesis by auto
    qed
  next
    fix t q assume t: "sess t = Some q" "(addr(r \<mapsto> a)) q = None"
    then show "(waiting(sid := None)) t = Some q" using so(5) [OF t(1)] other [OF t(1)] by (auto split: if_splits)
  qed
qed

lemma sock_ok_unbind:
  assumes "sock_ok sess os addr waiting known" and "sess sid = Some r" and "addr r = Some a"
    and "sess_ok n sess os active count nxt"
  shows "sock_ok sess os (addr(r := None)) (waiting(sid \<mapsto> r)) (known(a := None))"
proof -
  note so = sock_okD [OF assms(1)] and ok = sess_okD [OF assms(4)]
  have rs: "os r = Some sid" using members_okD [OF ok(1) assms(2)] .
  have other: "q = r \<longleftrightarrow> t = sid" if "sess t = Some q" for t q
    using that assms(2) members_okD [OF ok(1) that] rs by auto
  have ka: "known a = Some r" using so(4) [OF assms(2,3)] by simp
  show ?thesis
  proof (rule sock_okI)
    fix t q assume "(waiting(sid \<mapsto> r)) t = Some q"
    with so(1) [of t q] assms(2) show "sess t = Some q" by (auto split: if_splits)
  next
    fix b q assume "(known(a := None)) b = Some q"
    then have k: "known b = Some q" "b \<noteq> a" by (auto split: if_splits)
    with so(2) [OF k(1)] assms(3) show "(addr(r := None)) q = Some b" by auto
    from so(3) [OF k(1)] show "\<exists>t. os q = Some t \<and> sess t = Some q" .
  next
    fix t q b assume t: "sess t = Some q" "(addr(r := None)) q = Some b"
    then have q: "q \<noteq> r" "addr q = Some b" by (auto split: if_splits)
    from so(4) [OF t(1) q(2)] q(1) ka other [OF t(1)] show "(known(a := None)) b = Some q \<and> (waiting(sid \<mapsto> r)) t = None"
      by auto
  next
    fix t q assume t: "sess t = Some q" "(addr(r := None)) q = None"
    then show "(waiting(sid \<mapsto> r)) t = Some q" using so(5) [OF t(1)] other [OF t(1)] by (auto split: if_splits)
  qed
qed

lemma dir_invD:
  assumes "dir_inv n d"
  shows "sess_ok n (d_sessions d) (obj_session d) (d_active d) (d_session_count d) (d_next d)"
    and "chan_ok (obj_session d) (d_channels d)"
    and "sock_ok (d_sessions d) (obj_session d) (obj_socket d) (d_without_udp d) (d_sockets d)"
  using assms by (simp_all add: dir_inv_def)

text \<open>A lookup of \<open>disconnect\<close> that is still consistent with the directory.\<close>

definition pending_ok :: "directory \<Rightarrow> u32 \<times> cref option \<Rightarrow> bool" where
  "pending_ok d p \<longleftrightarrow> (case p of (sid, None) \<Rightarrow> d_sessions d sid = None | (sid, Some r) \<Rightarrow> obj_session d r = Some sid)"

lemma dir_commit_inv:
  assumes "dir_inv n d" and "pending_ok d (sid, found)"
  shows "dir_inv n (dir_commit sid found d)"
proof (cases "d_sessions d sid")
  case (Some r)
  note ok = dir_invD [OF assms(1)]
  have rs: "obj_session d r = Some sid" using members_okD [OF sess_okD(1) [OF ok(1)] Some] .
  with assms(2) Some obtain i where i: "found = Some r" "d_objects d r = Some i" "i_session i = sid"
    using sess_okD(6) [OF ok(1)] by (cases found) (auto simp: pending_ok_def obj_session_def)
  have socket: "obj_socket d r = i_socket i" by (simp add: obj_socket_def i(2))
  let ?d = "d\<lparr>d_sessions := (d_sessions d)(sid := None), d_without_udp := (d_without_udp d)(sid := None),
      d_active := d_active d - 1, d_objects := (d_objects d)(r \<mapsto> i\<lparr>i_socket := None\<rparr>),
      d_sockets := (case i_socket i of Some a \<Rightarrow> (d_sockets d)(a := None) | None \<Rightarrow> d_sockets d)\<rparr>"
  have "obj_session ?d = obj_session d" "obj_socket ?d = (obj_socket d)(r := None)"
    using i(2) by (auto simp: obj_session_def obj_socket_def fun_eq_iff)
  then have "dir_inv n ?d"
    using sess_ok_remove [OF ok(1), of sid] sock_ok_remove [OF ok(3,1) Some] ok(2) Some
    unfolding dir_inv_def socket by simp
  then show ?thesis
    using Some i by (cases "i_socket i") (simp_all add: dir_commit_def dir_close_def Let_def dir_leave_inv)
qed (simp add: dir_commit_def assms(1))

section \<open>Operations keep the invariant\<close>

named_theorems inv \<open>operations keep the invariant\<close>

lemma server_invD:
  assumes "server_inv n st"
  shows "indexes_wf st" and "dir_inv n (directory_of st)" and "channels_wf (st_channels st)"
  using assms by (auto simp: server_inv_def)

lemma inv_same: "server_inv n st \<Longrightarrow> indexes_wf st' \<Longrightarrow> directory_of st' = directory_of st \<Longrightarrow> server_inv n st'"
  by (simp add: server_inv_def)

lemma inv_publish [inv]: "server_inv n st \<Longrightarrow> server_inv n (publish m r st)"
  by (rule inv_same) (auto simp: server_inv_def index_wf)

lemma inv_broadcast [inv]: "server_inv n st \<Longrightarrow> server_inv n (fst (broadcast_message x kind m st))"
  by (rule inv_same) (auto simp: server_inv_def index_wf)

lemma inv_put [inv]:
  "server_inv n st \<Longrightarrow> st_heap st r = Some c \<Longrightarrow> ident_of c' = ident_of c \<Longrightarrow> server_inv n (put_client r c' st)"
  by (rule inv_same) (auto simp: server_inv_def directory_put)

lemma inv_modify [inv]: "server_inv n st \<Longrightarrow> (\<And>c. ident_of (f c) = ident_of c) \<Longrightarrow> server_inv n (modify_client r f st)"
  by (rule inv_same) (auto simp: server_inv_def)

lemma inv_io [inv]: "server_inv n st \<Longrightarrow> (\<And>c. ident_of (fst (f c)) = ident_of c) \<Longrightarrow> server_inv n (fst (client_io r f st))"
  by (rule inv_same) (auto simp: server_inv_def client_io_directory)

lemma inv_set_channel [inv]: "server_inv n st \<Longrightarrow> server_inv n (fst (set_client_channel x r cid st))"
  by (auto simp: server_inv_def directory_move indexes_wf_set_channel dir_move_inv indexes_wfD)

lemma inv_commit:
  "server_inv n st \<Longrightarrow> pending_ok (directory_of st) (sid, found) \<Longrightarrow> server_inv n (disconnect_commit x sid found st)"
  by (auto simp: server_inv_def directory_commit indexes_wf_commit dir_commit_inv indexes_wfD)

lemma obj_session_state: "obj_session (directory_of st) r = map_option cl_session_id (st_heap st r)"
  by (cases "st_heap st r") (simp_all add: obj_session_def)

lemma obj_socket_state: "obj_socket (directory_of st) r = Option.bind (st_heap st r) cl_udp_socket_addr"
  by (cases "st_heap st r") (simp_all add: obj_socket_def)

lemma inv_session:
  assumes "server_inv n st" and "hi_get (st_clients st) sid = Some r"
  obtains c where "st_heap st r = Some c" "cl_session_id c = sid"
  using members_okD [OF sess_okD(1) [OF dir_invD(1) [OF server_invD(2) [OF assms(1)]]], of sid r] assms(2)
  by (auto simp: obj_session_state)

lemma pending_ok_lookup:
  assumes "server_inv n st"
  shows "pending_ok (directory_of st) (sid, disconnect_lookup sid st)"
proof (cases "hi_get (st_clients st) sid")
  case (Some r)
  with assms obtain c where "st_heap st r = Some c" "cl_session_id c = sid" by (rule inv_session)
  with Some show ?thesis
    by (simp add: pending_ok_def disconnect_lookup_def get_client_by_session_id_def upgrade_def obj_session_state)
qed (simp add: pending_ok_def disconnect_lookup_def get_client_by_session_id_def)

lemma inv_disconnect [inv]: "server_inv n st \<Longrightarrow> server_inv n (disconnect x sid reason st)"
  by (simp add: disconnect_def inv_commit pending_ok_lookup)

lemma inv_channels:
  assumes "server_inv n st" and "channels_wf chs"
    and "chan_ok (obj_session (directory_of st)) (\<lambda>k. map_option members_of (hi_get chs k))"
  shows "server_inv n (st\<lparr>st_channels := chs\<rparr>)"
proof -
  have "directory_of (st\<lparr>st_channels := chs\<rparr>) =
      (directory_of st)\<lparr>d_channels := \<lambda>k. map_option members_of (hi_get chs k)\<rparr>"
    by (simp add: directory_of_def)
  with assms show ?thesis by (auto simp: server_inv_def intro: indexes_wf_update dir_channels_inv)
qed

lemma inv_channel_modify:
  assumes "server_inv n st" and "\<And>ch. ch_id (f ch) = ch_id ch" and "\<And>ch. ch_temporary (f ch) = ch_temporary ch"
    and "\<And>ch. hi_wf (ch_clients ch) \<Longrightarrow> hi_wf (ch_clients (f ch))"
    and "\<And>ch. hi_wf (ch_listeners ch) \<Longrightarrow> hi_wf (ch_listeners (f ch))"
    and "\<And>ch. members_ok (obj_session (directory_of st)) (hi_get (ch_clients ch)) \<Longrightarrow>
      members_ok (obj_session (directory_of st)) (hi_get (ch_clients (f ch)))"
    and "\<And>ch. members_ok (obj_session (directory_of st)) (hi_get (ch_listeners ch)) \<Longrightarrow>
      members_ok (obj_session (directory_of st)) (hi_get (ch_listeners (f ch)))"
  shows "server_inv n (st\<lparr>st_channels := hi_modify cid f (st_channels st)\<rparr>)"
proof (rule inv_channels [OF assms(1)])
  note wf = server_invD(3) [OF assms(1)]
  show "channels_wf (hi_modify cid f (st_channels st))"
    using channels_wf_get [OF wf] assms(2,4,5) by (intro channels_wf_modify wf) auto
  have chan: "chan_ok (obj_session (directory_of st)) (\<lambda>k. map_option members_of (hi_get (st_channels st) k))"
    using dir_invD(2) [OF server_invD(2) [OF assms(1)]] by (simp add: directory_of_def)
  show "chan_ok (obj_session (directory_of st)) (\<lambda>k. map_option members_of (hi_get (hi_modify cid f (st_channels st)) k))"
  proof (cases "hi_get (st_channels st) cid")
    case None
    then have "hi_get (hi_modify cid f (st_channels st)) k = hi_get (st_channels st) k" for k
      by (simp add: hi_get_modify)
    with chan show ?thesis by simp
  next
    case (Some ch)
    have "(\<lambda>k. map_option members_of (hi_get (hi_modify cid f (st_channels st)) k)) =
        (\<lambda>k. map_option members_of (hi_get (st_channels st) k))(cid \<mapsto> members_of (f ch))"
      using Some by (auto simp: hi_get_modify)
    moreover note chan_ok_members [OF chan, of cid "members_of ch"]
    ultimately show ?thesis
      using chan Some assms(3,6,7) by (auto intro!: chan_ok_upd)
  qed
qed

lemma inv_add_listener [inv]:
  "server_inv n st \<Longrightarrow> st_heap st r = Some c \<Longrightarrow> cl_session_id c = sid \<Longrightarrow> server_inv n (add_listener sid r cid st)"
  unfolding add_listener_def
  by (rule inv_channel_modify) (auto simp: hi_wf_insert hi_get_insert_fun obj_session_state members_ok_upd)

lemma inv_remove_listener [inv]: "server_inv n st \<Longrightarrow> server_inv n (remove_listener sid cid st)"
  unfolding remove_listener_def
  by (rule inv_channel_modify) (auto simp: hi_wf_remove hi_get_remove_fun members_ok_del)

lemma inv_add_channel:
  assumes "server_inv n st" and "add_channel m st = Some (ch, st')"
  shows "server_inv n st'"
proof -
  obtain cid k where free: "free_id (st_channels st) (st_channel_count st) = Some (cid, k)" "ch_id ch = cid"
    "ch_clients ch = []" "ch_listeners ch = []" and
    st': "st' = st\<lparr>st_channel_count := k, st_channels := hi_insert cid ch (st_channels st)\<rparr>"
    using assms(2) by (auto simp: add_channel_def get_free_channel_id_def Let_def split: option.splits)
  let ?st = "st\<lparr>st_channel_count := k\<rparr>"
  have d: "directory_of ?st = directory_of st" by (simp add: directory_of_def)
  have none: "hi_get (st_channels st) cid = None"
    using free_id_unused [OF free(1)] by (simp add: hi_contains_def)
  have inv: "server_inv n ?st" using assms(1) d by (auto simp: server_inv_def)
  have "(\<lambda>k. map_option members_of (hi_get (hi_insert cid ch (st_channels st)) k)) =
      (d_channels (directory_of st))(cid \<mapsto> members_of ch)"
    using none by (auto simp: hi_get_insert)
  moreover have "chan_ok (obj_session (directory_of st)) ((d_channels (directory_of st))(cid \<mapsto> members_of ch))"
    using dir_invD(2) [OF server_invD(2) [OF assms(1)]] none free
    by (intro chan_ok_upd) (auto simp: members_ok_def)
  ultimately show ?thesis
    using inv_channels [OF inv, of "hi_insert cid ch (st_channels st)"] server_invD(3) [OF assms(1)] free
    by (simp add: st' d channels_wf_insert)
qed

lemma next_session_free:
  assumes "server_inv n st" and "n + 1 < 2 ^ 32" and "sid = word_of_nat (n + 1)"
  shows "hi_get (st_clients st) sid = None" and "hi_get (st_clients_without_udp st) sid = None"
    and "st_session_count st = sid" and "st_heap st (st_next st) = None"
    and "add_client now ver auth crypt_st w udp publ ip st =
      Some (st_next st, (put_client (st_next st) (client_new ver auth sid 0 crypt_st w udp publ ip now) st)
        \<lparr>st_session_count := sid + 1, st_next := st_next st + 1,
         st_active_clients := st_active_clients st + 1, st_clients := hi_insert sid (st_next st) (st_clients st),
         st_clients_without_udp := hi_insert sid (st_next st) (st_clients_without_udp st)\<rparr>)"
proof -
  note inv = dir_invD [OF server_invD(2) [OF assms(1)]]
  note ok = sess_okD [OF inv(1)]
  have u: "unat sid = n + 1" using assms(2) by (simp add: assms(3) unat_of_nat del: of_nat_Suc)
  show none: "hi_get (st_clients st) sid = None"
    using members_okD [OF ok(1), of sid] ok(5) u by (cases "hi_get (st_clients st) sid") force+
  then show "hi_get (st_clients_without_udp st) sid = None"
    using sock_okD(1) [OF inv(3), of sid] by (cases "hi_get (st_clients_without_udp st) sid") auto
  show count: "st_session_count st = sid" using ok(4) by (simp add: assms(3))
  have "free_id (st_clients st) sid = Some (sid, sid + 1)"
    using none by (subst free_id.simps) (simp add: hi_contains_def)
  with count show "add_client now ver auth crypt_st w udp publ ip st =
      Some (st_next st, (put_client (st_next st) (client_new ver auth sid 0 crypt_st w udp publ ip now) st)
        \<lparr>st_session_count := sid + 1, st_next := st_next st + 1,
         st_active_clients := st_active_clients st + 1, st_clients := hi_insert sid (st_next st) (st_clients st),
         st_clients_without_udp := hi_insert sid (st_next st) (st_clients_without_udp st)\<rparr>)"
    by (simp add: add_client_def get_free_session_id_def Let_def put_client_def)
  show "st_heap st (st_next st) = None"
    using ok(5) [of "st_next st"] by (cases "st_heap st (st_next st)") (auto simp: obj_session_state)
qed

lemma client_new_sel [simp]:
  "cl_session_id (client_new ver auth sid cid k w udp publ ip now) = sid"
  "cl_udp_socket_addr (client_new ver auth sid cid k w udp publ ip now) = None"
  by (simp_all add: client_new_def Let_def)

lemma inv_add_client:
  assumes "server_inv n st" and "n + 1 < 2 ^ 32"
    and "add_client now ver auth crypt_st w udp publ ip st = Some (r, st')"
  shows "server_inv (n + 1) st'"
proof -
  define sid where "sid = (word_of_nat (n + 1) :: u32)"
  note inv = dir_invD [OF server_invD(2) [OF assms(1)]]
  note free = next_session_free [OF assms(1,2) sid_def]
  let ?c = "client_new ver auth sid 0 crypt_st w udp publ ip now"
  have st': "r = st_next st" "st' = (put_client r ?c st)\<lparr>st_session_count := sid + 1, st_next := r + 1,
      st_active_clients := st_active_clients st + 1, st_clients := hi_insert sid r (st_clients st),
      st_clients_without_udp := hi_insert sid r (st_clients_without_udp st)\<rparr>"
    using assms(3) by (auto simp: free(5))
  have "indexes_wf st'"
    using server_invD(1) [OF assms(1)] by (simp add: st'(2) indexes_wf_def frame hi_wf_insert)
  moreover have "obj_session (directory_of st') = (obj_session (directory_of st))(r \<mapsto> sid)"
    "obj_socket (directory_of st') = obj_socket (directory_of st)"
    using free(4) st'(1) by (auto simp: obj_session_state obj_socket_state st'(2) frame fun_eq_iff)
  moreover have "d_sessions (directory_of st') = (hi_get (st_clients st))(sid \<mapsto> r)"
    "d_without_udp (directory_of st') = (hi_get (st_clients_without_udp st))(sid \<mapsto> r)"
    "d_sockets (directory_of st') = hi_get (st_clients_by_socket st)"
    "d_channels (directory_of st') = d_channels (directory_of st)"
    "d_active (directory_of st') = st_active_clients st + 1" "d_session_count (directory_of st') = st_session_count st + 1"
    "d_next (directory_of st') = st_next st + 1"
    using free(1-3) by (auto simp: st' hi_get_insert_fun frame directory_of_def)
  moreover have "chan_ok ((obj_session (directory_of st))(r \<mapsto> sid)) (d_channels (directory_of st))"
    using inv(2) free(4) st'(1) by (simp add: chan_ok_new obj_session_state)
  ultimately show "server_inv (n + 1) st'"
    using sess_ok_add [OF inv(1) assms(2), folded sid_def] free(1,4)
      sock_ok_add [OF inv(3), of sid "st_next st"] sess_okD(1) [OF inv(1)]
    by (simp add: server_inv_def dir_inv_def st'(1) obj_socket_state obj_session_state)
qed

subsection \<open>Addresses\<close>

lemma directory_socket:
  assumes "st_heap st r = Some c" and "cl_udp_socket_addr c = None"
  shows "obj_session (directory_of (set_client_socket r a st)) = obj_session (directory_of st)"
    and "obj_socket (directory_of (set_client_socket r a st)) = (obj_socket (directory_of st))(r \<mapsto> a)"
    and "hi_get (st_clients_by_socket st) a = None \<Longrightarrow>
      hi_get (st_clients_by_socket (set_client_socket r a st)) = (hi_get (st_clients_by_socket st))(a \<mapsto> r)"
  using assms
  by (auto simp: set_client_socket_def Let_def obj_session_state obj_socket_state modify_client_heap frame
      hi_get_insert_fun fun_eq_iff)

lemma set_client_socket_frame [frame]:
  "st_clients (set_client_socket r a st) = st_clients st" "st_channels (set_client_socket r a st) = st_channels st"
  "st_clients_without_udp (set_client_socket r a st) = st_clients_without_udp st"
  "st_active_clients (set_client_socket r a st) = st_active_clients st"
  "st_session_count (set_client_socket r a st) = st_session_count st" "st_next (set_client_socket r a st) = st_next st"
  "st_disconnect_queue (set_client_socket r a st) = st_disconnect_queue st"
  by (simp_all add: set_client_socket_def Let_def modify_client_def put_client_def split: option.split)

lemma indexes_wf_socket: "indexes_wf st \<Longrightarrow> indexes_wf (set_client_socket r a st)"
  unfolding set_client_socket_def Let_def
  by (auto simp: frame intro!: indexes_wf_update hi_wf_insert hi_wf_remove split: option.split)

text \<open>
  The loop of \<open>find_client_with_decrypt\<close>: it changes keys only, or ends with a client that waits for
  its address.
\<close>

lemma try_decrypt_cases:
  assumes "server_inv n st" and "\<And>sid r. (sid, r) \<in> set rs \<Longrightarrow> hi_get (st_clients_without_udp st) sid = Some r"
  shows "\<exists>st1. server_inv n st1 \<and> st_clients_without_udp st1 = st_clients_without_udp st \<and>
    st_clients_by_socket st1 = st_clients_by_socket st \<and>
    (try_decrypt x now buf a rs st = (st1, None) \<or>
     (\<exists>r p sid. (sid, r) \<in> set rs \<and> try_decrypt x now buf a rs st = (set_client_socket r a st1, Some (r, p))))"
  using assms
proof (induction rs arbitrary: st)
  case Nil
  then show ?case by auto
next
  case (Cons e rs)
  obtain sid r where e: "e = (sid, r)" by (cases e)
  show ?case
  proof (cases "st_heap st r")
    case None
    with Cons.IH [OF Cons.prems(1)] Cons.prems(2) show ?thesis by (auto simp: e)
  next
    case (Some c)
    let ?dec = "decrypt (x_aes x) server_bound now (cl_crypt_state c) buf"
    let ?st = "put_client r (c\<lparr>cl_crypt_state := fst ?dec\<rparr>) st"
    have inv: "server_inv n ?st" using Cons.prems(1) Some by (rule inv_put) (simp add: account_cong)
    show ?thesis
    proof (cases "snd ?dec")
      case (Inl err)
      with Some have "try_decrypt x now buf a (e # rs) st = try_decrypt x now buf a rs ?st"
        by (simp add: e split_def Let_def)
      with Cons.IH [OF inv] Cons.prems(2) show ?thesis by (fastforce simp: frame)
    next
      case (Inr p)
      with Some have "try_decrypt x now buf a (e # rs) st = (set_client_socket r a ?st, Some (r, p))"
        by (simp add: e split_def Let_def)
      with inv show ?thesis by (intro exI [of _ ?st]) (auto simp: frame e)
    qed
  qed
qed

lemma inv_bind:
  assumes "server_inv n st" and "hi_get (st_clients_without_udp st) sid = Some r"
    and "hi_get (st_clients_by_socket st) a = None"
  shows "server_inv n ((set_client_socket r a st)\<lparr>st_clients_without_udp := hi_remove sid (st_clients_without_udp st)\<rparr>)"
    and "\<exists>c. st_heap (set_client_socket r a st) r = Some c \<and> cl_session_id c = sid"
proof -
  let ?st = "(set_client_socket r a st)\<lparr>st_clients_without_udp := hi_remove sid (st_clients_without_udp st)\<rparr>"
  note inv = dir_invD [OF server_invD(2) [OF assms(1)]]
  have sess: "hi_get (st_clients st) sid = Some r" using sock_okD(1) [OF inv(3), of sid r] assms(2) by simp
  with assms(1) obtain c where c: "st_heap st r = Some c" "cl_session_id c = sid" by (rule inv_session)
  have none: "cl_udp_socket_addr c = None"
    using sock_okD(4) [OF inv(3), of sid r] sess assms(2) c
    by (cases "cl_udp_socket_addr c") (auto simp: obj_socket_state)
  note d = directory_socket [OF c(1) none]
  have "obj_session (directory_of ?st) = obj_session (directory_of st)"
    "obj_socket (directory_of ?st) = (obj_socket (directory_of st))(r \<mapsto> a)"
    using d(1,2) [of a] by (simp_all add: obj_session_state obj_socket_state fun_eq_iff)
  moreover have "d_channels (directory_of ?st) = d_channels (directory_of st)"
    by (simp add: directory_of_def frame)
  ultimately have "dir_inv n (directory_of ?st)"
    using inv sock_ok_bind [OF inv(3), of sid r a] assms(2,3) c d(3) [OF assms(3)]
    by (simp add: dir_inv_def frame hi_get_remove_fun obj_session_state)
  moreover have "indexes_wf ?st"
    using server_invD(1) [OF assms(1)] by (intro indexes_wf_update indexes_wf_socket hi_wf_remove) (simp_all add: indexes_wfD)
  ultimately show "server_inv n ?st" by (simp add: server_inv_def)
  show "\<exists>c. st_heap (set_client_socket r a st) r = Some c \<and> cl_session_id c = sid"
    using c none by (simp add: set_client_socket_def Let_def modify_client_heap)
qed

lemma inv_find [inv]:
  assumes "server_inv n st" and "hi_get (st_clients_by_socket st) a = None"
  shows "server_inv n (fst (find_client_with_decrypt x now buf a st))"
proof -
  have waiting: "\<And>sid r. (sid, r) \<in> set (st_clients_without_udp st) \<longleftrightarrow> hi_get (st_clients_without_udp st) sid = Some r"
    using server_invD(1) [OF assms(1)] by (simp add: hi_get_eq_Some_iff indexes_wfD)
  from try_decrypt_cases [OF assms(1), of "st_clients_without_udp st" x now buf a] waiting
  obtain st1 where st1: "server_inv n st1"
    "st_clients_without_udp st1 = st_clients_without_udp st" "st_clients_by_socket st1 = st_clients_by_socket st"
    and out: "try_decrypt x now buf a (st_clients_without_udp st) st = (st1, None) \<or>
     (\<exists>r p sid. hi_get (st_clients_without_udp st) sid = Some r \<and>
        try_decrypt x now buf a (st_clients_without_udp st) st = (set_client_socket r a st1, Some (r, p)))"
    by blast
  from out show ?thesis
  proof (elim disjE exE conjE)
    fix r p sid
    assume s: "hi_get (st_clients_without_udp st) sid = Some r"
      "try_decrypt x now buf a (st_clients_without_udp st) st = (set_client_socket r a st1, Some (r, p))"
    with inv_bind [OF st1(1), of sid r a] st1(2,3) assms(2) show ?thesis
      by (auto simp: find_client_with_decrypt_def frame)
  qed (simp add: find_client_with_decrypt_def st1(1))
qed

lemma inv_reset [inv]:
  assumes "server_inv n st" and "hi_get (st_clients st) sid = Some r"
  shows "server_inv n (fst (reset_client_crypt x now r st))"
    and "st_clients (fst (reset_client_crypt x now r st)) = st_clients st"
proof -
  note inv = dir_invD [OF server_invD(2) [OF assms(1)]]
  from assms obtain c where c: "st_heap st r = Some c" "cl_session_id c = sid" by (rule inv_session)
  define st1 where "st1 = (let st = st\<lparr>st_clients_without_udp := hi_insert sid r (st_clients_without_udp st)\<rparr>;
        st = put_client r (c\<lparr>cl_udp_socket_addr := None\<rparr>) st
      in case cl_udp_socket_addr c of Some a \<Rightarrow> remove_client_by_socket a st | None \<Rightarrow> st)"
  have reset: "reset_client_crypt x now r st = client_io r (send_crypt_setup x now True) st1"
    using c by (simp add: reset_client_crypt_def st1_def remove_udp_socket_def Let_def)
  have os: "obj_session (directory_of st1) = obj_session (directory_of st)"
    "obj_socket (directory_of st1) = (obj_socket (directory_of st))(r := None)"
    using c by (auto simp: st1_def Let_def obj_session_state obj_socket_state remove_client_by_socket_def frame
        fun_eq_iff split: option.split)
  have st1: "indexes_wf st1" "st_clients st1 = st_clients st"
    using server_invD(1) [OF assms(1)]
    by (auto simp: st1_def Let_def remove_client_by_socket_def frame
        intro!: indexes_wf_update hi_wf_insert hi_wf_remove split: option.split)
  have "dir_inv n (directory_of st1)"
  proof (cases "cl_udp_socket_addr c")
    case None
    with sock_okD(5) [OF inv(3), of sid r] assms(2) c
    have "hi_insert sid r (st_clients_without_udp st) = st_clients_without_udp st"
      by (simp add: hi_insert_def hi_contains_def obj_socket_state)
    with None c have "directory_of st1 = directory_of st"
      by (simp add: st1_def) (rule directory_cong; simp add: frame ident_of_def put_client_def)
    with server_invD(2) [OF assms(1)] show ?thesis by simp
  next
    case (Some a)
    with sock_okD(4) [OF inv(3), of sid r a] assms(2) c have wait: "hi_get (st_clients_without_udp st) sid = None"
      by (simp add: obj_socket_state)
    have "d_channels (directory_of st1) = d_channels (directory_of st)"
      "d_without_udp (directory_of st1) = (hi_get (st_clients_without_udp st))(sid \<mapsto> r)"
      "d_sockets (directory_of st1) = (hi_get (st_clients_by_socket st))(a := None)"
      "d_sessions (directory_of st1) = hi_get (st_clients st)" "d_active (directory_of st1) = st_active_clients st"
      "d_session_count (directory_of st1) = st_session_count st" "d_next (directory_of st1) = st_next st"
      using Some wait by (simp_all add: st1_def Let_def remove_client_by_socket_def put_client_def directory_of_def
          hi_get_insert_fun hi_get_remove_fun)
    with inv sock_ok_unbind [OF inv(3), of sid r a] assms(2) c Some show ?thesis
      by (simp add: dir_inv_def os obj_socket_state)
  qed
  with st1(1) have "server_inv n st1" by (simp add: server_inv_def)
  then show "server_inv n (fst (reset_client_crypt x now r st))"
    unfolding reset by (rule inv_io) (simp add: send_crypt_setup_def Let_def account_cong)
  show "st_clients (fst (reset_client_crypt x now r st)) = st_clients st"
    unfolding reset by (simp add: client_io_def split_def Let_def frame st1(2) split: option.split)
qed

subsection \<open>Handlers\<close>

lemma indexes_wf_deliver: "indexes_wf (snd acc) \<Longrightarrow> indexes_wf (snd (deliver now sp rec m r acc))"
  by (auto simp: deliver_def split_def Let_def indexes_wf_publish split: option.split)

lemma indexes_wf_deliver_all:
  "indexes_wf (snd acc) \<Longrightarrow> indexes_wf (snd (fold (\<lambda>(_, q). deliver now sp rec m q) rs acc))"
proof (induction rs arbitrary: acc)
  case (Cons e rs)
  then show ?case using Cons.IH [OF indexes_wf_deliver [OF Cons.prems]] by (cases e) simp
qed simp

lemma inv_route [inv]:
  assumes "server_inv n st"
  shows "server_inv n (route_packet now p tgt sid r st)"
proof (cases "st_heap st r")
  case (Some c)
  let ?st = "if heard_due (st_anticheat st) now c then put_client r (c\<lparr>cl_ac := (cl_ac c)\<lparr>ac_last_heard_rec := now\<rparr>\<rparr>) st else st"
  let ?out = "fold (\<lambda>(_, q). deliver now c (heard_due (st_anticheat st) now c) (SendVoicePacket p) q)
    (hi_remove sid (listening_clients tgt c st)) (0, ?st)"
  have "server_inv n ?st" using assms Some by (auto simp: account_cong intro: inv_put)
  then have "server_inv n (snd ?out)"
    by (auto simp: server_inv_def frame indexes_wf_deliver_all)
  then have "server_inv n (modify_client r (note_emission (st_anticheat (snd ?out)) (fst ?out)) (snd ?out))"
    by (rule inv_modify) simp
  then show ?thesis by (simp add: route_packet_def Some Let_def split_def)
qed (simp add: route_packet_def assms)

lemma inv_voice [inv]: "server_inv n st \<Longrightarrow> server_inv n (fst (handle_voice_packet x now p r st))"
  by (auto simp: handle_voice_packet_def Let_def intro!: inv split: voice_packet.split)

definition keeps_inv :: "nat \<Rightarrow> handled \<Rightarrow> bool" where
  "keeps_inv n h \<longleftrightarrow> (case h of Returns (st', _) \<Rightarrow> server_inv n st' | _ \<Rightarrow> True)"

lemma keeps_inv_simps [simp]:
  "keeps_inv n (Returns out) \<longleftrightarrow> server_inv n (fst out)" "keeps_inv n Panics" "keeps_inv n Hangs"
  by (simp_all add: keeps_inv_def split: prod.split)

lemma heap_session_set_channel:
  "st_heap st r = Some c \<Longrightarrow> \<exists>c'. st_heap (fst (set_client_channel x q cid st)) r = Some c' \<and> cl_session_id c' = cl_session_id c"
  using accounts_heapD [OF accounts_set_channel] by metis

lemma inv_add_listeners:
  "server_inv n st \<Longrightarrow> st_heap st r = Some c \<Longrightarrow> cl_session_id c = sid \<Longrightarrow>
   server_inv n (fold (add_listener sid r) cs st)"
proof (induction cs arbitrary: st)
  case (Cons k cs)
  then have "server_inv n (add_listener sid r k st)" by (intro inv_add_listener)
  moreover have "st_heap (add_listener sid r k st) r = Some c" using Cons.prems by (simp add: add_listener_def)
  ultimately show ?case using Cons by simp
qed simp

lemma inv_remove_listeners: "server_inv n st \<Longrightarrow> server_inv n (fold (remove_listener sid) cs st)"
  by (induction cs arbitrary: st) (simp_all add: inv_remove_listener)

lemma inv_user_state:
  assumes "server_inv n st"
  shows "keeps_inv n (handle_user_state x m r st)"
proof (cases "st_heap st r")
  case (Some c)
  let ?st = "put_client r (client_update m c) st"
  have "ident_of (client_update m c) = ident_of c" "cl_session_id (client_update m c) = cl_session_id c"
    by (simp_all add: client_update_def set_mute_def set_deaf_def Let_def account_cong split: option.split)
  then have st: "server_inv n ?st" "st_heap ?st r = Some (client_update m c)"
    "cl_session_id (client_update m c) = cl_session_id c"
    using assms Some by (auto simp: frame intro: inv_put)
  let ?out = "case UserState_channel_id m of Some cid \<Rightarrow> set_client_channel x r cid ?st | None \<Rightarrow> (?st, Inr ())"
  have out: "server_inv n (fst ?out)" using st(1) by (auto intro: inv_set_channel split: option.split)
  obtain c' where c': "st_heap (fst ?out) r = Some c'" "cl_session_id c' = cl_session_id c"
    using st(2,3) heap_session_set_channel [OF st(2), of x r] by (cases "UserState_channel_id m") auto
  from inv_add_listeners [OF out c'] out show ?thesis
    by (auto simp: handle_user_state_def Some Let_def split_def assms intro!: inv_remove_listeners split: sum.split)
qed (simp add: handle_user_state_def assms)

lemma inv_channel_state:
  assumes "server_inv n st"
  shows "keeps_inv n (handle_channel_state x m r st)"
  using assms inv_add_channel [OF assms]
  by (auto simp: handle_channel_state_def Let_def split_def intro!: inv split: option.split sum.split)

lemma inv_voice_target:
  assumes "server_inv n st"
  shows "keeps_inv n (handle_voice_target now m r st)"
  using assms
  by (auto simp: handle_voice_target_def Let_def split_def set_target_def account_cong intro: inv_put
      split: option.split)

lemma inv_dispatch: "server_inv n st \<Longrightarrow> keeps_inv n (dispatch x now k buf r st)"
  by (cases "(x, now, k, buf, r, st)" rule: dispatch.cases)
    (auto simp: try_handle_def handle_tunnel_def handle_version_def handle_authenticate_def handle_ping_def
      handle_permission_query_def handle_crypt_setup_def handle_user_stats_def send_crypt_setup_def Let_def
      account_cong inv_user_state inv_channel_state inv_voice_target
      intro!: inv split: option.split sum.split)

lemma inv_stream_read: "server_inv n st \<Longrightarrow> keeps_inv n (snd (handle_stream_read x now stream r st))"
  by (auto simp: handle_stream_read_def inv_dispatch split: sum.split)

lemma inv_count_bad: "server_inv n (fst out) \<Longrightarrow> server_inv n (fst (count_bad r out))"
  by (auto simp: count_bad_def ident_of_def intro: inv_put split: prod.split sum.split option.split)

lemma inv_queued: "server_inv n st \<Longrightarrow> server_inv n (fst (handle_queued x now m r st))"
  by (auto simp: handle_queued_def intro!: inv split: client_message.split)

lemma inv_consume: "server_inv n st \<Longrightarrow> server_inv n (fst (consume x now r st))"
  by (auto simp: consume_def Let_def account_cong intro!: inv_count_bad inv_queued inv_put split: option.split list.split)

section \<open>Who is there\<close>

text \<open>The connected sessions and the session of each object: only arrivals and removals change them.\<close>

definition people :: "server_state \<Rightarrow> (u32 \<rightharpoonup> cref) \<times> (cref \<rightharpoonup> u32)" where
  "people st = (hi_get (st_clients st), session_of st)"

lemma people_directory: "people st = (d_sessions (directory_of st), obj_session (directory_of st))"
  by (simp add: people_def fun_eq_iff session_of_def obj_session_state)

lemma people_same: "directory_of st' = directory_of st \<Longrightarrow> people st' = people st"
  by (simp add: people_directory)

lemma people_update [simp]:
  "people (st\<lparr>st_channels := chs\<rparr>) = people st" "people (st\<lparr>st_disconnect_queue := q\<rparr>) = people st"
  "people (st\<lparr>st_shutdown := sd\<rparr>) = people st" "people (st\<lparr>st_socket := u\<rparr>) = people st"
  "people (st\<lparr>st_clients_without_udp := w\<rparr>) = people st" "people (st\<lparr>st_clients_by_socket := bs\<rparr>) = people st"
  "people (st\<lparr>st_channel_count := k\<rparr>) = people st" "people (st\<lparr>st_anticheat := ac\<rparr>) = people st"
  by (simp_all add: people_def session_of_def fun_eq_iff)

lemma people_put: "st_heap st r = Some c \<Longrightarrow> cl_session_id c' = cl_session_id c \<Longrightarrow> people (put_client r c' st) = people st"
  by (auto simp: people_def session_of_def frame fun_eq_iff)

lemma people_ident: "st_heap st r = Some c \<Longrightarrow> ident_of c' = ident_of c \<Longrightarrow> people (put_client r c' st) = people st"
  by (rule people_same) (rule directory_put)

lemma people_modify: "(\<And>c. ident_of (f c) = ident_of c) \<Longrightarrow> people (modify_client r f st) = people st"
  by (rule people_same) (rule directory_modify)

lemma people_io: "(\<And>c. ident_of (fst (f c)) = ident_of c) \<Longrightarrow> people (fst (client_io r f st)) = people st"
  by (rule people_same) (rule client_io_directory)

lemma people_publish [simp]: "people (publish m r st) = people st"
  by (rule people_same) simp

lemma people_broadcast [simp]: "people (fst (broadcast_message x kind m st)) = people st"
  by (rule people_same) simp

lemma people_accounts: "accounts st' = accounts st \<Longrightarrow> hi_get (st_clients st') = hi_get (st_clients st) \<Longrightarrow> people st' = people st"
proof -
  have "session_of st r = map_option fst (accounts st r)" for st r
    by (cases "st_heap st r") (simp_all add: session_of_def accounts_def account_def)
  then show "accounts st' = accounts st \<Longrightarrow> hi_get (st_clients st') = hi_get (st_clients st) \<Longrightarrow> people st' = people st"
    by (simp add: people_def fun_eq_iff)
qed

lemma clients_set_channel [simp]: "st_clients (fst (set_client_channel x r cid st)) = st_clients st"
  by (auto simp: set_client_channel_def handle_client_left_channel_def join_channel_def delete_channel_def
      Let_def split_def frame split: option.split)

lemma people_set_channel [simp]: "people (fst (set_client_channel x r cid st)) = people st"
  by (rule people_accounts) simp_all

lemma people_listeners [simp]:
  "people (fold (add_listener sid r) cs st) = people st" "people (fold (remove_listener sid) cs st) = people st"
  by (induction cs arbitrary: st) (simp_all add: add_listener_def remove_listener_def)

lemma clients_deliver_all: "st_clients (snd (fold (\<lambda>(_, q). deliver now sp rec m q) rs acc)) = st_clients (snd acc)"
proof (induction rs arbitrary: acc)
  case (Cons e rs)
  have "st_clients (snd (deliver now sp rec m r acc)) = st_clients (snd acc)" for r acc
    by (auto simp: deliver_def split_def Let_def frame split: option.split)
  with Cons show ?case by (cases e) simp
qed simp

lemma people_route [simp]: "people (route_packet now p tgt sid r st) = people st"
  by (rule people_accounts, simp)
    (simp add: route_packet_def Let_def split_def clients_deliver_all [unfolded split_def] frame modify_client_frame split: option.split)

lemma people_voice [simp]: "people (fst (handle_voice_packet x now p r st)) = people st"
  by (auto simp: handle_voice_packet_def Let_def people_io people_modify account_cong split: voice_packet.split option.split)

definition keeps_people :: "server_state \<Rightarrow> handled \<Rightarrow> bool" where
  "keeps_people st h \<longleftrightarrow> (case h of Returns (st', _) \<Rightarrow> people st' = people st | _ \<Rightarrow> True)"

lemma keeps_people_simps [simp]:
  "keeps_people st (Returns out) \<longleftrightarrow> people (fst out) = people st" "keeps_people st Panics" "keeps_people st Hangs"
  by (simp_all add: keeps_people_def split: prod.split)

lemma people_user_state: "keeps_people st (handle_user_state x m r st)"
  by (auto simp: handle_user_state_def client_update_def set_mute_def set_deaf_def Let_def split_def people_put
      split: option.split sum.split)

lemma people_channel_state: "keeps_people st (handle_channel_state x m r st)"
  by (auto simp: handle_channel_state_def add_channel_def get_free_channel_id_def Let_def split_def
      split: option.splits sum.split)

lemma people_dispatch: "keeps_people st (dispatch x now k buf r st)"
  by (cases "(x, now, k, buf, r, st)" rule: dispatch.cases)
    (auto simp: try_handle_def handle_tunnel_def handle_version_def handle_authenticate_def handle_ping_def
      handle_permission_query_def handle_crypt_setup_def handle_user_stats_def handle_voice_target_def
      set_target_def send_crypt_setup_def Let_def split_def
      account_cong people_user_state people_channel_state people_io people_put people_ident
      split: option.split sum.split)

lemma people_stream_read: "keeps_people st (snd (handle_stream_read x now stream r st))"
  by (auto simp: handle_stream_read_def people_dispatch split: sum.split)

lemma people_count_bad: "people (fst (count_bad r out)) = people (fst out)"
  by (auto simp: count_bad_def intro: people_put split: prod.split sum.split option.split)

lemma people_consume: "people (fst (consume x now r st)) = people st"
  by (auto simp: consume_def handle_queued_def Let_def people_count_bad people_io people_put account_cong
      split: option.split list.split client_message.split)

section \<open>Datagrams and clean-up\<close>

lemma inv_known:
  assumes "server_inv n st" and "hi_get (st_clients_by_socket st) a = Some r"
  obtains c where "st_heap st r = Some c" "hi_get (st_clients st) (cl_session_id c) = Some r"
  using sock_okD(2,3) [OF dir_invD(3) [OF server_invD(2) [OF assms(1)]], of a r] assms(2)
  by (auto simp: obj_session_state)

lemma by_socket_eq: "server_inv n st \<Longrightarrow> get_client_by_socket a st = hi_get (st_clients_by_socket st) a"
  by (cases "hi_get (st_clients_by_socket st) a") (auto simp: get_client_by_socket_def upgrade_def elim: inv_known)

lemma people_socket: "people (set_client_socket r a st) = people st"
  by (auto simp: set_client_socket_def Let_def modify_client_def people_put split: option.split)

lemma people_try: "people (fst (try_decrypt x now buf a rs st)) = people st"
  by (induction x now buf a rs st rule: try_decrypt.induct)
    (auto simp: Let_def people_socket people_put split: option.split prod.split sum.split)

lemma people_find: "people (fst (find_client_with_decrypt x now buf a st)) = people st"
  using people_try [of x now buf a "st_clients_without_udp st" st]
  by (auto simp: find_client_with_decrypt_def split: prod.split option.split)

lemma people_reset [simp]: "people (fst (reset_client_crypt x now r st)) = people st"
  by (auto simp: reset_client_crypt_def remove_udp_socket_def remove_client_by_socket_def send_crypt_setup_def Let_def
      people_io account_cong people_put split: option.split)

lemma inv_identify:
  assumes "server_inv n st"
  shows "server_inv n (fst (identify x now buf a st)) \<and> people (fst (identify x now buf a st)) = people st"
proof (cases "hi_get (st_clients_by_socket st) a")
  case None
  then show ?thesis using assms by (simp add: identify_def by_socket_eq inv_find people_find)
next
  case (Some r)
  with assms obtain c where c: "st_heap st r = Some c" "hi_get (st_clients st) (cl_session_id c) = Some r"
    by (rule inv_known)
  let ?dec = "decrypt (x_aes x) server_bound now (cl_crypt_state c) buf"
  let ?st = "put_client r (c\<lparr>cl_crypt_state := fst ?dec\<rparr>) st"
  have "server_inv n ?st" "people ?st = people st" using assms c by (auto simp: account_cong people_put intro: inv_put)
  moreover from this(1) have "server_inv n (fst (reset_client_crypt x now r ?st))"
    by (rule inv_reset(1) [where sid = "cl_session_id c"]) (simp add: frame c(2))
  ultimately show ?thesis
    using assms c Some by (simp add: identify_def by_socket_eq Let_def split_def split: sum.split)
qed

lemma inv_irrelevant: "server_inv n st \<Longrightarrow> server_inv n (st\<lparr>st_socket := u\<rparr>)"
  "server_inv n st \<Longrightarrow> hi_wf q \<Longrightarrow> server_inv n (st\<lparr>st_disconnect_queue := q\<rparr>)"
  "server_inv n st \<Longrightarrow> server_inv n (st\<lparr>st_shutdown := sd\<rparr>)" "server_inv n st \<Longrightarrow> server_inv n (st\<lparr>st_anticheat := ac\<rparr>)"
  by (auto simp: server_inv_def directory_of_def intro: indexes_wf_update)

lemma inv_receive:
  assumes "server_inv n st"
  shows "server_inv n (receive_packet x now a r p st) \<and> people (receive_packet x now a r p st) = people st"
proof (cases "st_heap st r")
  case (Some c)
  have "server_inv n (put_client r (c\<lparr>cl_crypt_state := k, cl_last_udp_ping := now\<rparr>) st)" for k
    using assms Some by (rule inv_put) (simp add: ident_of_def)
  with assms Some show ?thesis
    by (auto simp: receive_packet_def socket_send_def Let_def split_def people_put
        intro!: inv_irrelevant inv_publish split: voice_packet.split udp_result.split)
qed (simp add: receive_packet_def assms)

lemma inv_packet:
  assumes "server_inv n st"
  shows "server_inv n (fst (handle_packet x now v buf a st)) \<and> people (fst (handle_packet x now v buf a st)) = people st"
proof -
  obtain st' found where id: "identify x now buf a st = (st', found)" by (cases "identify x now buf a st")
  with inv_identify [OF assms, of x now buf a] have "server_inv n st'" "people st' = people st" by simp_all
  with assms id inv_receive [of n st' x now a] show ?thesis
    by (auto simp: handle_packet_def socket_send_def intro!: inv_irrelevant
        split: sum.split udp_result.split option.split)
qed

text \<open>Sessions end but do not return, and objects keep their sessions.\<close>

definition thins :: "(u32 \<rightharpoonup> cref) \<times> (cref \<rightharpoonup> u32) \<Rightarrow> (u32 \<rightharpoonup> cref) \<times> (cref \<rightharpoonup> u32) \<Rightarrow> bool" where
  "thins p p' \<longleftrightarrow> fst p' \<subseteq>\<^sub>m fst p \<and> snd p' = snd p"

lemma thins_refl [simp]: "thins p p"
  by (simp add: thins_def)

lemma thins_trans: "thins p q \<Longrightarrow> thins q s \<Longrightarrow> thins p s"
  by (auto simp: thins_def intro: map_le_trans)

lemma thins_commit:
  assumes "server_inv n st"
  shows "thins (people st) (people (disconnect_commit x sid found st))"
proof -
  let ?d = "directory_of st"
  have "d_sessions (dir_commit sid found d) = (d_sessions d)(sid := None)" "obj_session (dir_commit sid found d) = obj_session d" for d
    by (auto simp: dir_commit_def dir_close_def dir_leave_def Let_def obj_session_def fun_eq_iff split: option.split)
  then show ?thesis
    using directory_commit [OF server_invD(3) [OF assms], of x sid found]
    by (auto simp: thins_def people_directory map_le_def)
qed

lemma inv_disconnects:
  "server_inv n st \<Longrightarrow> server_inv n (fold (\<lambda>(sid, reason). disconnect x sid reason) ds st) \<and>
   thins (people st) (people (fold (\<lambda>(sid, reason). disconnect x sid reason) ds st))"
proof (induction ds arbitrary: st)
  case (Cons d ds)
  obtain sid reason where d: "d = (sid, reason)" by (cases d)
  from Cons.prems have "server_inv n (disconnect x sid reason st)" by (rule inv_disconnect)
  moreover have "thins (people st) (people (disconnect x sid reason st))"
    unfolding disconnect_def using Cons.prems by (rule thins_commit)
  ultimately show ?case using Cons.IH by (auto simp: d intro: thins_trans)
qed simp

lemma inv_resets:
  "server_inv n st \<Longrightarrow> (\<And>r. r \<in> set rs \<Longrightarrow> \<exists>sid. hi_get (st_clients st) sid = Some r) \<Longrightarrow>
   server_inv n (fold (\<lambda>r st. fst (reset_client_crypt x now r st)) rs st) \<and>
   people (fold (\<lambda>r st. fst (reset_client_crypt x now r st)) rs st) = people st"
proof (induction rs arbitrary: st)
  case (Cons r rs)
  then obtain sid where sid: "hi_get (st_clients st) sid = Some r" by auto
  note reset = inv_reset [OF Cons.prems(1) sid, of x now]
  show ?case using Cons.IH [OF reset(1)] Cons.prems(2) by (simp add: reset(2))
qed simp

lemma inv_reset_all:
  assumes "server_inv n st"
  shows "server_inv n (fold (\<lambda>r st. fst (reset_client_crypt x now r st)) (to_reset now st) (st\<lparr>st_disconnect_queue := []\<rparr>))"
    and "people (fold (\<lambda>r st. fst (reset_client_crypt x now r st)) (to_reset now st) (st\<lparr>st_disconnect_queue := []\<rparr>)) = people st"
proof -
  have "\<exists>sid. hi_get (st_clients st) sid = Some r" if "r \<in> set (to_reset now st)" for r
    using that server_invD(1) [OF assms] by (auto simp: to_reset_def hi_get_eq_Some_iff indexes_wfD)
  then show "server_inv n (fold (\<lambda>r st. fst (reset_client_crypt x now r st)) (to_reset now st) (st\<lparr>st_disconnect_queue := []\<rparr>))"
    "people (fold (\<lambda>r st. fst (reset_client_crypt x now r st)) (to_reset now st) (st\<lparr>st_disconnect_queue := []\<rparr>)) = people st"
    using inv_resets [OF inv_irrelevant(2) [OF assms hi_wf_Nil], of "to_reset now st" x now] by simp_all
qed

lemma inv_clean:
  assumes "server_inv n st"
  shows "server_inv n (clean_run x now st)" and "thins (people st) (people (clean_run x now st))"
  using inv_disconnects [OF inv_reset_all(1) [OF assms], of x "to_remove now st" x now] inv_reset_all(2) [OF assms]
  by (simp_all add: clean_run_def Let_def)

section \<open>Arrivals\<close>

lemma people_add_client:
  assumes "server_inv n st" and "n + 1 < 2 ^ 32" and "sid = word_of_nat (n + 1)"
    and "add_client now ver auth crypt_st w udp publ ip st = Some (r, st')"
  shows "people st' = ((fst (people st))(sid \<mapsto> r), (snd (people st))(r \<mapsto> sid))" and "snd (people st) r = None"
    and "st_bans st' = st_bans st"
  using next_session_free [OF assms(1-3)] assms(4)
  by (auto simp: people_def session_of_def hi_get_insert_fun frame fun_eq_iff)

lemma seed_heard_ident [simp]: "ident_of (snd (seed_heard now e cfg c)) = ident_of c"
  by (simp add: seed_heard_def Let_def account_cong split: option.split)

lemma inv_enter:
  assumes "server_inv n st" and "n + 1 < 2 ^ 32" and "enter_client cn w ver auth k rest st = (st', out)"
    and "sid = word_of_nat (n + 1)"
  shows "\<exists>r. out = Admitted r rest \<and> server_inv (n + 1) st' \<and> snd (people st) r = None \<and>
    people st' = ((fst (people st))(sid \<mapsto> r), (snd (people st))(r \<mapsto> sid))"
proof -
  let ?add = "add_client (cn_now cn) ver auth k w (cn_udp cn) \<lparr>pub_queue = [], pub_closed = False\<rparr> (cn_peer_ip cn) st"
  obtain r st1 where add: "?add = Some (r, st1)" by (simp add: next_session_free(5) [OF assms(1,2,4)])
  note new = inv_add_client(1) [OF assms(1,2) add] people_add_client [OF assms(1,2,4) add]
  define st2 where "st2 = (if is_muted (st_bans st) (ip_string (cn_peer_ip cn))
      (name_part (unwrap_or [] (Authenticate_username auth))) then modify_client r (set_mute True) st1 else st1)"
  from new(4) have out: "enter_client cn w ver auth k rest st = (case st_heap st2 r of
               None \<Rightarrow> (st2, Admitted r rest)
             | Some c \<Rightarrow>
                 let (cfg, c) = seed_heard (cn_now cn) (cn_epoch cn) (st_anticheat st2) c
                 in ((put_client r c st2)\<lparr>st_anticheat := cfg\<rparr>, Admitted r rest))"
    unfolding st2_def by (simp only: enter_client_def Let_def add option.case prod.case)
  have st2: "server_inv (n + 1) st2" "people st2 = people st1"
    using new(1) by (auto simp: st2_def set_mute_def account_cong people_modify intro!: inv_modify)
  have "out = Admitted r rest \<and> server_inv (n + 1) st' \<and> people st' = people st2"
    using assms(3) st2(1) unfolding out
    by (auto simp: split_def Let_def people_ident intro!: inv_irrelevant inv_put split: option.splits)
  with st2(2) new(2,3) show ?thesis by auto
qed

lemma admitD:
  assumes "admit x v cn st = (st', Admitted r rest)"
  shows "\<exists>w ver auth k. enter_client cn w ver auth k rest st = (st', Admitted r rest) \<and>
    \<not> unofficial x (st_restrict_to_version st) ver auth \<and>
    is_banned (st_bans st) (ip_string (cn_peer_ip cn)) (name_part (unwrap_or [] (Authenticate_username auth))) = None"
proof -
  have "rest' = rest" if "enter_client cn w ver auth k rest' st = (st', Admitted r rest)" for w ver auth k rest'
    using that by (auto simp: enter_client_def Let_def split_def split: option.splits)
  with assms show ?thesis
    by (fastforce simp: admit_def split: prod.splits sum.splits if_splits)
qed

lemma inv_admit:
  assumes "server_inv n st" and "n + 1 < 2 ^ 32" and "admit x v cn st = (st', out)"
    and "sid = word_of_nat (n + 1)"
  shows "(\<exists>e. out = Refused e) \<and> st' = st \<or>
    (\<exists>r rest. out = Admitted r rest \<and> server_inv (n + 1) st' \<and> snd (people st) r = None \<and>
      people st' = ((fst (people st))(sid \<mapsto> r), (snd (people st))(r \<mapsto> sid)))"
proof -
  have "(\<exists>e. (st', out) = (st, Refused e)) \<or> (\<exists>w ver auth k rest. enter_client cn w ver auth k rest st = (st', out))"
    using assms(3) by (auto simp: admit_def split: prod.splits sum.splits if_splits)
  then show ?thesis using inv_enter [OF assms(1,2) _ assms(4)] by blast
qed

lemma enter_client_new:
  assumes "server_inv n st" and "n + 1 < 2 ^ 32" and "enter_client cn w ver auth k rest st = (st', Admitted r rest')"
  shows "\<exists>c. st_heap st' r = Some c \<and> cl_session_id c = word_of_nat (n + 1) \<and> cl_peer_ip c = cn_peer_ip cn \<and>
    cl_name c = unwrap_or [] (Authenticate_username auth) \<and> cl_version_release c = unwrap_or [] (Version_release ver) \<and>
    cl_last_udp_ping c = cn_now cn \<and>
    cl_publisher c = \<lparr>pub_queue = [], pub_closed = False\<rparr> \<and>
    (cl_mute c \<longleftrightarrow> is_muted (st_bans st) (ip_string (cl_peer_ip c)) (name_part (cl_name c)))"
    and "st_disconnect_queue st' = st_disconnect_queue st"
proof -
  define sid where "sid = (word_of_nat (n + 1) :: u32)"
  let ?c = "client_new ver auth sid 0 k w (cn_udp cn) \<lparr>pub_queue = [], pub_closed = False\<rparr> (cn_peer_ip cn) (cn_now cn)"
  have new: "cl_session_id ?c = sid" "cl_peer_ip ?c = cn_peer_ip cn" "\<not> cl_mute ?c"
    "cl_name ?c = unwrap_or [] (Authenticate_username auth)" "cl_last_udp_ping ?c = cn_now cn"
    "cl_publisher ?c = \<lparr>pub_queue = [], pub_closed = False\<rparr>" "cl_version_release ?c = unwrap_or [] (Version_release ver)"
    by (simp_all add: client_new_def Let_def)
  have seed: "cl_session_id (snd (seed_heard t e cfg c)) = cl_session_id c" "cl_peer_ip (snd (seed_heard t e cfg c)) = cl_peer_ip c"
    "cl_mute (snd (seed_heard t e cfg c)) = cl_mute c" "cl_name (snd (seed_heard t e cfg c)) = cl_name c"
    "cl_last_udp_ping (snd (seed_heard t e cfg c)) = cl_last_udp_ping c"
    "cl_publisher (snd (seed_heard t e cfg c)) = cl_publisher c"
    "cl_version_release (snd (seed_heard t e cfg c)) = cl_version_release c" for t e cfg c
    by (simp_all add: seed_heard_def Let_def split: option.split)
  note add = next_session_free(5) [OF assms(1,2) sid_def, of "cn_now cn" ver auth k w "cn_udp cn" "\<lparr>pub_queue = [], pub_closed = False\<rparr>" "cn_peer_ip cn"]
  show "\<exists>c. st_heap st' r = Some c \<and> cl_session_id c = word_of_nat (n + 1) \<and> cl_peer_ip c = cn_peer_ip cn \<and>
    cl_name c = unwrap_or [] (Authenticate_username auth) \<and> cl_version_release c = unwrap_or [] (Version_release ver) \<and>
    cl_last_udp_ping c = cn_now cn \<and>
    cl_publisher c = \<lparr>pub_queue = [], pub_closed = False\<rparr> \<and>
    (cl_mute c \<longleftrightarrow> is_muted (st_bans st) (ip_string (cl_peer_ip c)) (name_part (cl_name c)))"
    and "st_disconnect_queue st' = st_disconnect_queue st"
    using assms(3) unfolding enter_client_def Let_def add sid_def [symmetric]
    by (auto simp: split_def frame modify_client_heap modify_client_frame new seed set_mute_def split: if_splits option.splits)
qed

definition harmless :: "nat \<Rightarrow> server_state \<Rightarrow> server_state \<times> (mumble_error + unit) \<Rightarrow> bool" where
  "harmless n st out \<longleftrightarrow> server_inv n (fst out) \<and> people (fst out) = people st"

lemma harmless_then:
  assumes "harmless n st out" and "\<And>st'. server_inv n st' \<Longrightarrow> harmless n st' (k st')"
  shows "harmless n st (case out of (st', Inl e) \<Rightarrow> (st', Inl e) | (st', Inr _) \<Rightarrow> k st')"
  using assms by (force simp: harmless_def split: prod.split sum.split)

lemma harmless_io: "server_inv n st \<Longrightarrow> (\<And>c. ident_of (fst (f c)) = ident_of c) \<Longrightarrow> harmless n st (client_io r f st)"
  by (simp add: harmless_def inv_io people_io)

lemma harmless_send_all: "server_inv n st \<Longrightarrow> harmless n st (send_all x r ms st)"
proof (induction ms arbitrary: st)
  case (Cons km ms)
  then show ?case by (cases km) (auto intro!: harmless_then harmless_io)
qed (simp add: harmless_def)

lemma harmless_start: "server_inv n st \<Longrightarrow> harmless n st (client_start x r st)"
  unfolding client_start_def sync_client_and_channels_def
  by (intro harmless_then harmless_io harmless_send_all)
    (auto simp: send_my_user_state_def send_server_sync_def send_server_config_def harmless_def inv_broadcast
      split: option.split)

end
