(* ===== verification/Sample.thy ===== *)
theory Sample
  imports Server
begin

text \<open>
  The periodic evaluation of all clients by the anticheat, \<open>sample\<close>, \<open>flag\<close>, \<open>run_sampler\<close> and
  \<open>flush_heard\<close> of \<open>src/src/anticheat.rs\<close>. A round runs as one step: the clock is read once.
\<close>

section \<open>What a round sees\<close>

text \<open>The values \<open>serde_json\<close> builds for the notification.\<close>

datatype json = JStr string | JNum nat | JBool bool | JArr "json list" | JObj "(string \<times> json) list"

text \<open>The state, the file system, and the notifications handed to \<open>post_discord\<close>.\<close>

record world =
  w_state :: server_state
  w_disk :: disk
  w_posts :: "(string \<times> json) list"

definition set_state :: "(server_state \<Rightarrow> server_state) \<Rightarrow> world \<Rightarrow> world" where
  "set_state f w = w\<lparr>w_state := f (w_state w)\<rparr>"

text \<open>Members of a channel, listeners included, and the number of channels a session listens to.\<close>

definition chan_members :: "server_state \<Rightarrow> u32 \<Rightarrow> u32 list" where
  "chan_members st cid =
     concat (map (\<lambda>(_, ch). if ch_id ch = cid then map fst (ch_clients ch) @ map fst (ch_listeners ch) else [])
       (st_channels st))"

definition listen_count :: "server_state \<Rightarrow> u32 \<Rightarrow> u32" where
  "listen_count st sid =
     word_of_nat (length (filter (\<lambda>s. s = sid) (concat (map (\<lambda>(_, ch). map fst (ch_listeners ch)) (st_channels st)))))"

record snap =
  sn_ref :: cref
  sn_session :: u32
  sn_chan :: u32
  sn_chans :: "u32 list"
  sn_sesss :: "u32 list"
  sn_pos :: "(f32 \<times> f32 \<times> f32) option"

text \<open>A position counts while it is fresh.\<close>

definition pos_of :: "instant \<Rightarrow> client \<Rightarrow> (f32 \<times> f32 \<times> f32) option" where
  "pos_of now c =
     (let a = cl_ac c in
      if ac_has_pos a \<and> duration_since now (ac_last_pos_time a) \<le> POS_FRESH
      then Some (ac_pos_x a, ac_pos_y a, ac_pos_z a) else None)"

definition snap_of :: "instant \<Rightarrow> cref \<Rightarrow> client \<Rightarrow> snap" where
  "snap_of now r c =
     \<lparr>sn_ref = r, sn_session = cl_session_id c, sn_chan = cl_channel_id c,
      sn_chans = remdups (concat (map (\<lambda>t. map fst (vt_channels t)) (cl_targets c))),
      sn_sesss = remdups (concat (map (\<lambda>t. map fst (vt_sessions t)) (cl_targets c))),
      sn_pos = pos_of now c\<rparr>"

definition take_snaps :: "instant \<Rightarrow> server_state \<Rightarrow> snap list" where
  "take_snaps now st = List.map_filter (\<lambda>(_, r). map_option (snap_of now r) (st_heap st r)) (st_clients st)"

text \<open>The index by session; inserting overwrites, so the last one counts.\<close>

definition snap_by_session :: "snap list \<Rightarrow> u32 \<Rightarrow> snap option" where
  "snap_by_session snaps sid = List.find (\<lambda>s. sn_session s = sid) (rev snaps)"

section \<open>What is measured\<close>

definition reached_chan :: "(u32 \<Rightarrow> u32 list) \<Rightarrow> snap \<Rightarrow> u32 list" where
  "reached_chan members s = remdups (filter (\<lambda>q. q \<noteq> sn_session s) (concat (map members (sn_chans s))))"

definition reached :: "(u32 \<Rightarrow> u32 list) \<Rightarrow> snap \<Rightarrow> u32 list" where
  "reached members s =
     remdups (filter (\<lambda>q. q \<noteq> sn_session s) (sn_sesss s @ concat (map members (sn_chans s))))"

definition targets_back :: "snap \<Rightarrow> snap \<Rightarrow> bool" where
  "targets_back s other \<longleftrightarrow> sn_session s \<in> set (sn_sesss other) \<or> sn_chan s \<in> set (sn_chans other)"

text \<open>The share of the reached clients that target the speaker in return; 255 when none is reached.\<close>

definition mutuality_of :: "snap list \<Rightarrow> (u32 \<Rightarrow> u32 list) \<Rightarrow> snap \<Rightarrow> u32" where
  "mutuality_of snaps members s =
     (let rs = reached members s;
          mutual = word_of_nat (length (filter (\<lambda>q. case snap_by_session snaps q of
            Some other \<Rightarrow> targets_back s other | None \<Rightarrow> False) rs)) :: u32
      in if rs = [] then 255 else mutual * 100 div max (word_of_nat (length rs)) 1)"

text \<open>Of the clients reached by channel those with a fresh position, and how many of them are too far away.\<close>

definition far_of :: "anticheat_config \<Rightarrow> snap list \<Rightarrow> (u32 \<Rightarrow> u32 list) \<Rightarrow> snap \<Rightarrow> u32 \<times> u32" where
  "far_of cfg snaps members s =
     (case sn_pos s of
        None \<Rightarrow> (0, 0)
      | Some p \<Rightarrow>
          let limit = f32_of_int (uint (acc_pos_far_dist cfg));
              qs = List.map_filter (\<lambda>q. Option.bind (snap_by_session snaps q) sn_pos) (reached_chan members s)
          in (word_of_nat (length (filter (\<lambda>q. f32_lt (f32_mul limit limit) (dist2 p q)) qs)),
              word_of_nat (length qs)))"

record reading =
  rd_reach_instant :: u32
  rd_reach_window :: u32
  rd_mutuality :: u32
  rd_listens :: u32
  rd_far :: u32
  rd_fresh :: u32
  rd_osc :: u32

definition rd_reach :: "reading \<Rightarrow> u32" where
  "rd_reach rd = max (rd_reach_instant rd) (rd_reach_window rd)"

text \<open>Window and history lose what has expired, and the results are stored in the client.\<close>

definition measure_client ::
    "anticheat_config \<Rightarrow> instant \<Rightarrow> server_state \<Rightarrow> snap list \<Rightarrow> snap \<Rightarrow> client \<Rightarrow> client \<times> reading" where
  "measure_client cfg now st snaps s c =
     (let a = cl_ac c;
          members = chan_members st;
          win = hi_retain (\<lambda>_ t. duration_since now t \<le> window_of cfg) (ac_window a);
          hist = filter (\<lambda>(t, _). duration_since now t \<le> POS_OSC_WINDOW) (ac_pos_hist a);
          (far, fresh_total) = far_of cfg snaps members s;
          rd = \<lparr>rd_reach_instant = word_of_nat (length (reached members s)),
                rd_reach_window = word_of_nat (length win),
                rd_mutuality = mutuality_of snaps members s,
                rd_listens = listen_count st (sn_session s),
                rd_far = far, rd_fresh = fresh_total, rd_osc = count_returns hist\<rparr>
      in (c\<lparr>cl_ac := a\<lparr>ac_window := win, ac_far_targets := far, ac_pos_hist := hist,
            ac_pos_jumps := rd_osc rd, ac_reach_instant := rd_reach_instant rd,
            ac_reach_window := rd_reach_window rd, ac_mutuality := rd_mutuality rd,
            ac_listen_count := rd_listens rd\<rparr>\<rparr>, rd))"

section \<open>What is suspicious\<close>

definition low_mutuality :: "anticheat_config \<Rightarrow> reading \<Rightarrow> bool" where
  "low_mutuality cfg rd \<longleftrightarrow> rd_mutuality rd \<noteq> 255 \<and> rd_mutuality rd \<le> acc_mutuality_max_pct cfg"

definition talk_cheat :: "anticheat_config \<Rightarrow> u32 \<Rightarrow> reading \<Rightarrow> bool" where
  "talk_cheat cfg active rd \<longleftrightarrow>
     rd_reach rd \<ge> acc_min_recipients cfg \<and>
     (ucast (rd_reach rd) :: u64) * 100 \<ge> ucast active * ucast (acc_threshold_pct cfg) \<and> low_mutuality cfg rd"

definition spy :: "anticheat_config \<Rightarrow> reading \<Rightarrow> bool" where
  "spy cfg rd \<longleftrightarrow> acc_listen_max cfg > 0 \<and> rd_listens rd > acc_listen_max cfg"

definition pos_spoof :: "anticheat_config \<Rightarrow> reading \<Rightarrow> bool" where
  "pos_spoof cfg rd \<longleftrightarrow> acc_pos_osc_max cfg > 0 \<and> rd_osc rd \<ge> acc_pos_osc_max cfg"

definition pos_far_cheat :: "anticheat_config \<Rightarrow> reading \<Rightarrow> bool" where
  "pos_far_cheat cfg rd \<longleftrightarrow>
     acc_pos_far_min cfg > 0 \<and> rd_far rd \<ge> acc_pos_far_min cfg \<and>
     rd_far rd * 100 \<ge> rd_fresh rd * max (min (acc_pos_far_pct cfg) 100) 1 \<and> low_mutuality cfg rd"

text \<open>The strings are the UTF-8 bytes of the source's.\<close>

definition e_acute :: string where "e_acute = [CHR 0xC3, CHR 0xA9]"
definition em_dash :: string where "em_dash = [CHR 0xE2, CHR 0x80, CHR 0x94]"
definition right_arrow :: string where "right_arrow = [CHR 0xE2, CHR 0x86, CHR 0x92]"
definition siren :: string where "siren = [CHR 0xF0, CHR 0x9F, CHR 0x9A, CHR 0xA8]"

definition suspicions :: "anticheat_config \<Rightarrow> u32 \<Rightarrow> reading \<Rightarrow> string list" where
  "suspicions cfg active rd =
     (if talk_cheat cfg active rd then [''talk map-wide (mutualit'' @ e_acute @ '' faible)''] else []) @
     (if spy cfg rd then [''listen map-wide (espionnage)''] else []) @
     (if pos_spoof cfg rd then [''spoof position (oscillation multi-lieux)''] else []) @
     (if pos_far_cheat cfg rd then [''cibles hors de port'' @ e_acute @ ''e (position incoh'' @ e_acute @ ''rente)''] else [])"

section \<open>Flagging\<close>

definition WEBHOOK_COOLDOWN :: nat where "WEBHOOK_COOLDOWN = secs 60"

definition mut_string :: "u32 \<Rightarrow> string" where
  "mut_string mutuality = (if mutuality = 255 then ''n/a'' else dec (unat mutuality) @ ''%'')"

text \<open>The line for the panel's log.\<close>

definition flag_line :: "nat \<Rightarrow> u8 \<Rightarrow> client \<Rightarrow> u32 \<Rightarrow> u32 \<Rightarrow> u32 \<Rightarrow> u32 \<Rightarrow> string \<Rightarrow> string" where
  "flag_line epoch action c reach listens active mutuality reason =
     hms_now epoch @ '' '' @ cl_name c @ '' '' @ em_dash @ '' '' @ reason @ '' '' @ em_dash @ '' reach '' @
     dec (unat reach) @ ''/'' @ dec (unat active) @ '', mut '' @ mut_string mutuality @ '', listens '' @
     dec (unat listens) @ '' (score '' @ dec (unat (ac_score (cl_ac c))) @ '') '' @ right_arrow @ '' '' @
     (if ac_exempt (cl_ac c) then ''exempt'' else action_name action)"

text \<open>The notification; it names the player and never the address.\<close>

definition flag_payload ::
    "anticheat_config \<Rightarrow> nat \<Rightarrow> client \<Rightarrow> u32 \<Rightarrow> u32 \<Rightarrow> u32 \<Rightarrow> u32 \<Rightarrow> string \<Rightarrow> json" where
  "flag_payload cfg epoch c reach listens active mutuality reason =
     (let inlined = (\<lambda>nm v. JObj [(''name'', JStr nm), (''value'', JStr v), (''inline'', JBool True)]);
          field = (\<lambda>nm v. JObj [(''name'', JStr nm), (''value'', JStr v)]);
          server_field = (case acc_panel_url cfg of
            Some p \<Rightarrow> ''[Ouvrir le panel]('' @ p @ '')'' @ [CHR 0x0A, CHR 0x60] @ acc_server_label cfg @ [CHR 0x60]
          | None \<Rightarrow> [CHR 0x60] @ acc_server_label cfg @ [CHR 0x60])
      in JObj
        [(''username'', JStr ''Anticheat Mumble''),
         (''embeds'', JArr [JObj
           [(''title'', JStr (siren @ '' D'' @ e_acute @ ''tection anticheat'')),
            (''color'', JNum 15158332),
            (''timestamp'', JStr (iso8601_now epoch)),
            (''fields'', JArr
              [inlined ''Joueur'' (cl_name c),
               inlined ''Client'' (cl_version_release c),
               field ''Raison'' reason,
               inlined (''Port'' @ e_acute @ ''e / Mutualit'' @ e_acute)
                 (dec (unat reach) @ ''/'' @ dec (unat active) @ '' joueurs, mut '' @ mut_string mutuality),
               inlined ''Listens / Score'' (dec (unat listens) @ '' / '' @ dec (unat (ac_score (cl_ac c)))),
               inlined ''Action'' (action_name (acc_action cfg) @ (if ac_exempt (cl_ac c) then '' (exempt)'' else [])),
               inlined ''Date (UTC)'' (takeWhile (\<lambda>ch. ch \<noteq> CHR ''T'') (iso8601_now epoch) @ '' '' @ hms_now epoch),
               field ''Serveur'' server_field])]])])"

text \<open>At most one notification per client and minute.\<close>

definition flag_notify ::
    "instant \<Rightarrow> nat \<Rightarrow> cref \<Rightarrow> client \<Rightarrow> u32 \<Rightarrow> u32 \<Rightarrow> u32 \<Rightarrow> u32 \<Rightarrow> string \<Rightarrow> world \<Rightarrow> world" where
  "flag_notify now epoch r c reach listens active mutuality reason w =
     (let cfg = st_anticheat (w_state w) in
      case acc_webhook cfg of
        None \<Rightarrow> w
      | Some url \<Rightarrow>
          if duration_since now (ac_last_webhook (cl_ac c)) \<ge> WEBHOOK_COOLDOWN then
            (set_state (put_client r (c\<lparr>cl_ac := (cl_ac c)\<lparr>ac_last_webhook := now\<rparr>\<rparr>)) w)
              \<lparr>w_posts := w_posts w @ [(url, flag_payload cfg epoch c reach listens active mutuality reason)]\<rparr>
          else w)"

definition ban_add_world ::
    "ban_json \<Rightarrow> nat \<Rightarrow> string \<Rightarrow> string option \<Rightarrow> string option \<Rightarrow> string \<Rightarrow> string \<Rightarrow> world \<Rightarrow> world" where
  "ban_add_world j epoch kind ip nm display reason w =
     (let (b, d) = bans_add j epoch kind ip nm display reason (st_bans (w_state w), w_disk w)
      in w\<lparr>w_state := (w_state w)\<lparr>st_bans := b\<rparr>, w_disk := d\<rparr>)"

text \<open>The configured measure against a flagged client that is not exempt.\<close>

definition punish :: "ban_json \<Rightarrow> nat \<Rightarrow> u8 \<Rightarrow> cref \<Rightarrow> client \<Rightarrow> string \<Rightarrow> world \<Rightarrow> world" where
  "punish j epoch action r c reason w =
     (if action = ACTION_MUTE then set_state (modify_client r (set_mute True)) w
      else if action = ACTION_KICK then set_state (add_client_to_disconnect_queue (cl_session_id c) Anticheat) w
      else if action = ACTION_BAN then
        set_state (add_client_to_disconnect_queue (cl_session_id c) Anticheat)
          (ban_add_world j epoch ''ban'' (Some (ip_string (cl_peer_ip c))) (Some (name_part (cl_name c)))
            (cl_name c) (''ban auto anticheat : '' @ reason) w)
      else w)"

definition flag ::
    "ban_json \<Rightarrow> instant \<Rightarrow> nat \<Rightarrow> cref \<Rightarrow> u32 \<Rightarrow> u32 \<Rightarrow> u32 \<Rightarrow> u32 \<Rightarrow> string \<Rightarrow> world \<Rightarrow> world" where
  "flag j now epoch r reach listens active mutuality reason w =
     (case st_heap (w_state w) r of
        None \<Rightarrow> w
      | Some c \<Rightarrow>
          if duration_since now (ac_last_flag (cl_ac c)) < FLAG_COOLDOWN then w
          else
            let c = c\<lparr>cl_ac := (cl_ac c)\<lparr>ac_last_flag := now, ac_flags := ac_flags (cl_ac c) + 1\<rparr>\<rparr>;
                w = set_state (put_client r c) w;
                action = acc_action (st_anticheat (w_state w));
                w = set_state (\<lambda>st. st\<lparr>st_anticheat :=
                  push_log (flag_line epoch action c reach listens active mutuality reason) (st_anticheat st)\<rparr>) w;
                w = flag_notify now epoch r c reach listens active mutuality reason w
            in if ac_exempt (cl_ac c) then w else punish j epoch action r c reason w)"

section \<open>A round\<close>

definition strikes_needed :: "anticheat_config \<Rightarrow> u32" where
  "strikes_needed cfg = max (acc_strikes_required cfg) 1"

definition sample_client ::
    "ban_json \<Rightarrow> instant \<Rightarrow> nat \<Rightarrow> server_state \<Rightarrow> snap list \<Rightarrow> snap \<Rightarrow> world \<Rightarrow> world" where
  "sample_client j now epoch st0 snaps s w =
     (let cfg = st_anticheat st0; r = sn_ref s; active = word_of_nat (length snaps) in
      case st_heap (w_state w) r of
        None \<Rightarrow> w
      | Some c \<Rightarrow>
          let (c, rd) = measure_client cfg now st0 snaps s c;
              parts = suspicions cfg active rd;
              a = cl_ac c
          in if parts \<noteq> [] then
               let strikes = ac_strikes a + 1;
                   c = c\<lparr>cl_ac := a\<lparr>ac_strikes := strikes\<rparr>\<rparr>
               in if strikes \<ge> strikes_needed cfg then
                    let metric = max (max (max (rd_reach rd) (rd_listens rd)) (rd_far rd)) (rd_osc rd);
                        c = c\<lparr>cl_ac := (cl_ac c)\<lparr>ac_score := ac_score (cl_ac c) + ucast metric\<rparr>\<rparr>
                    in flag j now epoch r (rd_reach rd) (rd_listens rd) active (rd_mutuality rd) (join '' + '' parts)
                         (set_state (put_client r c) w)
                  else set_state (put_client r c) w
             else
               set_state (put_client r
                 (if ac_strikes a > 0 then c\<lparr>cl_ac := a\<lparr>ac_strikes := ac_strikes a - 1\<rparr>\<rparr> else c)) w)"

definition sample :: "ban_json \<Rightarrow> instant \<Rightarrow> nat \<Rightarrow> world \<Rightarrow> world" where
  "sample j now epoch w =
     (if \<not> acc_enabled (st_anticheat (w_state w)) then w
      else let snaps = take_snaps now (w_state w)
           in fold (sample_client j now epoch (w_state w) snaps) snaps w)"

section \<open>The snapshot of who spoke to whom\<close>

definition persist_entry :: "instant \<Rightarrow> nat \<Rightarrow> heard_entry \<Rightarrow> persisted_heard_entry" where
  "persist_entry now now_epoch en =
     \<lparr>ph_session_id = he_session_id en, ph_name = he_name en, ph_ip = he_ip en,
      ph_epoch = now_epoch - duration_since now (he_last en) div secs 1, ph_secs = he_secs en\<rparr>"

definition persist_heard ::
    "anticheat_config \<Rightarrow> instant \<Rightarrow> nat \<Rightarrow> client \<Rightarrow> (string, persisted_heard_entry) hindex" where
  "persist_heard cfg now now_epoch c =
     map (\<lambda>(k, en). (k, persist_entry now now_epoch en))
       (hi_retain (\<lambda>_ en. duration_since now (he_last en) div secs 1 \<le> unat (max (acc_heard_secs cfg) 10))
         (ac_heard (cl_ac c)))"

definition heard_snapshot :: "instant \<Rightarrow> nat \<Rightarrow> server_state \<Rightarrow> persisted_heard" where
  "heard_snapshot now now_epoch st =
     (let cfg = st_anticheat st;
          out = fold (\<lambda>(_, r) out. case st_heap st r of
              Some c \<Rightarrow> let lists = persist_heard cfg now now_epoch c
                in if lists = [] then out else hm_put (name_part (cl_name c)) lists out
            | None \<Rightarrow> out) (st_clients st) []
      in fold (\<lambda>(k, v). hi_insert k v) (acc_heard_seed cfg) out)"

text \<open>\<open>Path::with_extension\<close> on a path whose last component is a file name.\<close>

definition with_extension :: "string \<Rightarrow> string \<Rightarrow> string" where
  "with_extension ext p =
     (let file = rev (takeWhile (\<lambda>ch. ch \<noteq> CHR ''/'') (rev p));
          dir = take (length p - length file) p;
          stem = (if CHR ''.'' \<in> set (tl file) then rev (tl (dropWhile (\<lambda>ch. ch \<noteq> CHR ''.'') (rev file))) else file)
      in dir @ stem @ ''.'' @ ext)"

text \<open>\<open>fs::rename\<close>: the new name has the contents, atomically, and the old one is gone.\<close>

definition rename_file :: "string \<Rightarrow> string \<Rightarrow> disk \<Rightarrow> disk" where
  "rename_file old new d = d\<lparr>d_files := (d_files d)(new := d_files d old, old := None)\<rparr>"

definition flush_heard :: "heard_json \<Rightarrow> instant \<Rightarrow> nat \<Rightarrow> world \<Rightarrow> world" where
  "flush_heard hj now now_epoch w =
     (let cfg = st_anticheat (w_state w) in
      case acc_heard_file cfg of
        None \<Rightarrow> w
      | Some path \<Rightarrow>
          if \<not> acc_enabled cfg \<or> \<not> d_writable (w_disk w) then w
          else let tmp = with_extension ''tmp'' path;
                   d = write_file tmp (hj_print hj (heard_snapshot now now_epoch (w_state w))) (w_disk w)
               in w\<lparr>w_disk := rename_file tmp path d\<rparr>)"

text \<open>One turn of the endless loop of \<open>run_sampler\<close>.\<close>

definition run_sampler ::
    "ban_json \<Rightarrow> heard_json \<Rightarrow> instant \<Rightarrow> nat \<Rightarrow> u32 \<times> world \<Rightarrow> u32 \<times> world" where
  "run_sampler j hj now epoch tw =
     (let (ticks, w) = tw;
          w = sample j now epoch w;
          ticks = ticks + 1
      in (ticks, if ticks mod HEARD_FLUSH_EVERY = 0 then flush_heard hj now epoch w else w))"

section \<open>Who is punished\<close>

text \<open>
  The condition for a measure against a client: suspicious in this round, enough strikes, not flagged
  in the last three seconds, and not exempt.
\<close>

definition punishable :: "instant \<Rightarrow> server_state \<Rightarrow> snap list \<Rightarrow> snap \<Rightarrow> client \<Rightarrow> bool" where
  "punishable now st snaps s c \<longleftrightarrow>
     (let cfg = st_anticheat st in
      suspicions cfg (word_of_nat (length snaps)) (snd (measure_client cfg now st snaps s c)) \<noteq> [] \<and>
      ac_strikes (cl_ac c) + 1 \<ge> strikes_needed cfg \<and>
      duration_since now (ac_last_flag (cl_ac c)) \<ge> FLAG_COOLDOWN \<and> \<not> ac_exempt (cl_ac c))"

definition action_of :: "world \<Rightarrow> u8" where
  "action_of w = acc_action (st_anticheat (w_state w))"

lemma set_state_sel [simp]: "w_state (set_state f w) = f (w_state w)" "w_disk (set_state f w) = w_disk w"
  by (simp_all add: set_state_def)

lemma push_log_action [simp]: "acc_action (push_log l cfg) = acc_action cfg"
  by (simp add: push_log_def Let_def)

lemma modify_anticheat_frame [simp]:
  "st_heap (st\<lparr>st_anticheat := ac\<rparr>) = st_heap st" "st_disconnect_queue (st\<lparr>st_anticheat := ac\<rparr>) = st_disconnect_queue st"
  by simp_all

text \<open>What \<open>flag\<close> does to the flagged client and to the queue; everybody else is left alone.\<close>

definition flagged :: "instant \<Rightarrow> client \<Rightarrow> bool" where
  "flagged now c \<longleftrightarrow> duration_since now (ac_last_flag (cl_ac c)) \<ge> FLAG_COOLDOWN \<and> \<not> ac_exempt (cl_ac c)"

lemma notify_effect:
  assumes "st_heap (w_state w) r = Some c"
  shows "q \<noteq> r \<Longrightarrow> st_heap (w_state (flag_notify now epoch r c reach listens active m reason w)) q = st_heap (w_state w) q"
    and "\<exists>a. st_heap (w_state (flag_notify now epoch r c reach listens active m reason w)) r = Some (c\<lparr>cl_ac := a\<rparr>)"
    and "st_disconnect_queue (w_state (flag_notify now epoch r c reach listens active m reason w)) = st_disconnect_queue (w_state w)"
    and "action_of (flag_notify now epoch r c reach listens active m reason w) = action_of w"
proof -
  have "\<exists>a. c = c\<lparr>cl_ac := a\<rparr>" by (rule exI [of _ "cl_ac c"]) simp
  with assms show "\<exists>a. st_heap (w_state (flag_notify now epoch r c reach listens active m reason w)) r = Some (c\<lparr>cl_ac := a\<rparr>)"
    by (auto simp: flag_notify_def Let_def frame split: option.split)
qed (auto simp: flag_notify_def Let_def frame action_of_def split: option.split)

lemma queue_contains:
  "hi_contains (st_disconnect_queue (add_client_to_disconnect_queue s reason st)) sid \<longleftrightarrow>
     sid = s \<or> hi_contains (st_disconnect_queue st) sid"
  by (auto simp: add_client_to_disconnect_queue_def hi_contains_def hi_get_insert)

lemma ban_add_world_sel [simp]:
  "st_heap (w_state (ban_add_world j epoch kind ip nm display reason w)) = st_heap (w_state w)"
  "st_disconnect_queue (w_state (ban_add_world j epoch kind ip nm display reason w)) = st_disconnect_queue (w_state w)"
  "st_anticheat (w_state (ban_add_world j epoch kind ip nm display reason w)) = st_anticheat (w_state w)"
  by (simp_all add: ban_add_world_def split_def Let_def)

lemma queue_anticheat [simp]: "st_anticheat (add_client_to_disconnect_queue s reason st) = st_anticheat st"
  by (simp add: add_client_to_disconnect_queue_def)

lemma punish_effect:
  assumes "st_heap (w_state w) r = Some d" and "cl_session_id d = cl_session_id c"
  shows "q \<noteq> r \<Longrightarrow> st_heap (w_state (punish j epoch action r c reason w)) q = st_heap (w_state w) q"
    and "st_heap (w_state (punish j epoch action r c reason w)) r = Some (d\<lparr>cl_mute := cl_mute d \<or> action = ACTION_MUTE\<rparr>)"
    and "hi_contains (st_disconnect_queue (w_state (punish j epoch action r c reason w))) sid \<longleftrightarrow>
      hi_contains (st_disconnect_queue (w_state w)) sid \<or> action \<in> {ACTION_KICK, ACTION_BAN} \<and> sid = cl_session_id c"
    and "action_of (punish j epoch action r c reason w) = action_of w"
  using assms
  by (auto simp: punish_def action_defs modify_client_heap set_mute_def frame queue_contains action_of_def)

lemma flag_effect:
  assumes "st_heap (w_state w) r = Some c" and w': "w' = flag j now epoch r reach listens active m reason w"
  shows "q \<noteq> r \<Longrightarrow> st_heap (w_state w') q = st_heap (w_state w) q"
    and "\<exists>a. st_heap (w_state w') r = Some (c\<lparr>cl_ac := a, cl_mute := cl_mute c \<or> flagged now c \<and> action_of w = ACTION_MUTE\<rparr>)"
    and "hi_contains (st_disconnect_queue (w_state w')) sid \<longleftrightarrow>
      hi_contains (st_disconnect_queue (w_state w)) sid \<or>
      flagged now c \<and> action_of w \<in> {ACTION_KICK, ACTION_BAN} \<and> sid = cl_session_id c"
    and "action_of w' = action_of w"
proof -
  define c1 where "c1 = c\<lparr>cl_ac := (cl_ac c)\<lparr>ac_last_flag := now, ac_flags := ac_flags (cl_ac c) + 1\<rparr>\<rparr>"
  define w1 where "w1 = set_state (\<lambda>st. st\<lparr>st_anticheat := push_log (flag_line epoch (action_of w) c1 reach listens active m reason)
    (st_anticheat st)\<rparr>) (set_state (put_client r c1) w)"
  define w2 where "w2 = flag_notify now epoch r c1 reach listens active m reason w1"
  have w1: "st_heap (w_state w1) r = Some c1" "q \<noteq> r \<Longrightarrow> st_heap (w_state w1) q = st_heap (w_state w) q"
    "st_disconnect_queue (w_state w1) = st_disconnect_queue (w_state w)" "action_of w1 = action_of w"
    by (simp_all add: w1_def frame action_of_def)
  have n: "q \<noteq> r \<Longrightarrow> st_heap (w_state w2) q = st_heap (w_state w1) q"
    "\<exists>a. st_heap (w_state w2) r = Some (c1\<lparr>cl_ac := a\<rparr>)"
    "st_disconnect_queue (w_state w2) = st_disconnect_queue (w_state w1)" "action_of w2 = action_of w1"
    unfolding w2_def by (simp_all add: notify_effect(1,3,4) [OF w1(1)] notify_effect(2) [OF w1(1)])
  from n(2) obtain a where a: "st_heap (w_state w2) r = Some (c1\<lparr>cl_ac := a\<rparr>)" by blast
  have c1: "cl_session_id c1 = cl_session_id c" "cl_mute c1 = cl_mute c" "ac_exempt (cl_ac c1) = ac_exempt (cl_ac c)"
    "c1\<lparr>cl_ac := a\<rparr> = c\<lparr>cl_ac := a\<rparr>" for a
    by (simp_all add: c1_def)
  have eq: "w' = (if duration_since now (ac_last_flag (cl_ac c)) < FLAG_COOLDOWN then w
      else if ac_exempt (cl_ac c) then w2 else punish j epoch (action_of w) r c1 reason w2)"
    using assms(1) by (simp add: w' flag_def Let_def w2_def w1_def c1_def action_of_def frame)
  have same: "c = c\<lparr>cl_ac := cl_ac c, cl_mute := cl_mute c\<rparr>" "c\<lparr>cl_ac := a\<rparr> = c\<lparr>cl_ac := a, cl_mute := cl_mute c\<rparr>" for a
    by simp_all
  note p = punish_effect [OF a, of c1]
  show "q \<noteq> r \<Longrightarrow> st_heap (w_state w') q = st_heap (w_state w) q"
    using p(1) n(1) w1(2) by (simp add: eq)
  show "hi_contains (st_disconnect_queue (w_state w')) sid \<longleftrightarrow>
      hi_contains (st_disconnect_queue (w_state w)) sid \<or>
      flagged now c \<and> action_of w \<in> {ACTION_KICK, ACTION_BAN} \<and> sid = cl_session_id c"
    using p(3) n(3) w1(3) by (auto simp: eq flagged_def c1)
  show "action_of w' = action_of w" using p(4) n(4) w1(4) by (simp add: eq)
  show "\<exists>a. st_heap (w_state w') r = Some (c\<lparr>cl_ac := a, cl_mute := cl_mute c \<or> flagged now c \<and> action_of w = ACTION_MUTE\<rparr>)"
  proof (cases "duration_since now (ac_last_flag (cl_ac c)) < FLAG_COOLDOWN \<or> ac_exempt (cl_ac c)")
    case True
    then have "\<not> flagged now c" by (auto simp: flagged_def)
    with True a assms(1) same show ?thesis by (auto simp only: eq c1 if_True if_False simp_thms split: if_splits)
  next
    case False
    with p(2) show ?thesis by (auto simp: eq flagged_def c1)
  qed
qed

lemma measure_client_ac: "\<exists>a. fst (measure_client cfg now st snaps s c) = c\<lparr>cl_ac := a\<rparr> \<and>
    ac_strikes a = ac_strikes (cl_ac c) \<and> ac_last_flag a = ac_last_flag (cl_ac c) \<and> ac_exempt a = ac_exempt (cl_ac c)"
  unfolding measure_client_def Let_def split_def fst_conv by (rule exI, intro conjI, rule refl) simp_all

lemma sample_client_cases:
  assumes "st_heap (w_state w) (sn_ref s) = Some c" and "w' = sample_client j now epoch st snaps s w"
  defines "rd \<equiv> snd (measure_client (st_anticheat st) now st snaps s c)"
  obtains (struck) a where "w' = set_state (put_client (sn_ref s) (c\<lparr>cl_ac := a\<rparr>)) w"
      "suspicions (st_anticheat st) (word_of_nat (length snaps)) rd = [] \<or>
       ac_strikes (cl_ac c) + 1 < strikes_needed (st_anticheat st)"
  | (flag) a reach listens active m reason where
      "w' = flag j now epoch (sn_ref s) reach listens active m reason (set_state (put_client (sn_ref s) (c\<lparr>cl_ac := a\<rparr>)) w)"
      "ac_last_flag a = ac_last_flag (cl_ac c)" "ac_exempt a = ac_exempt (cl_ac c)"
      "suspicions (st_anticheat st) (word_of_nat (length snaps)) rd \<noteq> []"
      "ac_strikes (cl_ac c) + 1 \<ge> strikes_needed (st_anticheat st)"
proof -
  obtain a where m: "measure_client (st_anticheat st) now st snaps s c = (c\<lparr>cl_ac := a\<rparr>, rd)"
    and a: "ac_strikes a = ac_strikes (cl_ac c)" "ac_last_flag a = ac_last_flag (cl_ac c)" "ac_exempt a = ac_exempt (cl_ac c)"
    using measure_client_ac [of "st_anticheat st" now st snaps s c] unfolding rd_def by (metis prod.collapse)
  have sm: "sample_client j now epoch st snaps s w =
      (if suspicions (st_anticheat st) (word_of_nat (length snaps)) rd = [] then
         set_state (put_client (sn_ref s) (if ac_strikes a > 0 then c\<lparr>cl_ac := a\<lparr>ac_strikes := ac_strikes a - 1\<rparr>\<rparr> else c\<lparr>cl_ac := a\<rparr>)) w
       else if strikes_needed (st_anticheat st) \<le> ac_strikes (cl_ac c) + 1 then
         flag j now epoch (sn_ref s) (rd_reach rd) (rd_listens rd) (word_of_nat (length snaps)) (rd_mutuality rd)
           (join '' + '' (suspicions (st_anticheat st) (word_of_nat (length snaps)) rd))
           (set_state (put_client (sn_ref s) (c\<lparr>cl_ac := a\<lparr>ac_strikes := ac_strikes a + 1, ac_score := ac_score a +
             ucast (max (max (max (rd_reach rd) (rd_listens rd)) (rd_far rd)) (rd_osc rd))\<rparr>\<rparr>)) w)
       else set_state (put_client (sn_ref s) (c\<lparr>cl_ac := a\<lparr>ac_strikes := ac_strikes a + 1\<rparr>\<rparr>)) w)"
    unfolding sample_client_def Let_def assms(1) m option.case prod.case using a(1) by simp
  show thesis
  proof (cases "suspicions (st_anticheat st) (word_of_nat (length snaps)) rd = []")
    case True
    then have "w' = set_state (put_client (sn_ref s)
        (c\<lparr>cl_ac := if ac_strikes a > 0 then a\<lparr>ac_strikes := ac_strikes a - 1\<rparr> else a\<rparr>)) w"
      using assms(2) unfolding sm by (cases "ac_strikes a > 0") simp_all
    then show thesis using True by (rule struck [OF _ disjI1])
  next
    case False
    show thesis
    proof (cases "strikes_needed (st_anticheat st) \<le> ac_strikes (cl_ac c) + 1")
      case True
      with False assms(2) have eq: "w' = flag j now epoch (sn_ref s) (rd_reach rd) (rd_listens rd) (word_of_nat (length snaps))
          (rd_mutuality rd) (join '' + '' (suspicions (st_anticheat st) (word_of_nat (length snaps)) rd))
          (set_state (put_client (sn_ref s) (c\<lparr>cl_ac := a\<lparr>ac_strikes := ac_strikes a + 1, ac_score := ac_score a +
             ucast (max (max (max (rd_reach rd) (rd_listens rd)) (rd_far rd)) (rd_osc rd))\<rparr>\<rparr>)) w)"
        unfolding sm by (simp only: if_False if_True)
      show thesis by (rule flag [OF eq _ _ False True]) (simp_all add: a)
    next
      case few: False
      with False assms(2) have "w' = set_state (put_client (sn_ref s) (c\<lparr>cl_ac := a\<lparr>ac_strikes := ac_strikes a + 1\<rparr>\<rparr>)) w"
        unfolding sm by simp
      then show thesis using few by (intro struck) (simp_all add: not_le)
    qed
  qed
qed

lemma sample_client_effect:
  assumes "st_heap (w_state w) (sn_ref s) = Some c" and w': "w' = sample_client j now epoch st snaps s w"
  shows "q \<noteq> sn_ref s \<Longrightarrow> st_heap (w_state w') q = st_heap (w_state w) q"
    and "\<exists>a. st_heap (w_state w') (sn_ref s) =
      Some (c\<lparr>cl_ac := a, cl_mute := cl_mute c \<or> punishable now st snaps s c \<and> action_of w = ACTION_MUTE\<rparr>)"
    and "hi_contains (st_disconnect_queue (w_state w')) sid \<longleftrightarrow>
      hi_contains (st_disconnect_queue (w_state w)) sid \<or>
      punishable now st snaps s c \<and> action_of w \<in> {ACTION_KICK, ACTION_BAN} \<and> sid = cl_session_id c"
    and "action_of w' = action_of w"
proof -
  let ?P = "(q \<noteq> sn_ref s \<longrightarrow> st_heap (w_state w') q = st_heap (w_state w) q) \<and>
    (\<exists>a. st_heap (w_state w') (sn_ref s) =
      Some (c\<lparr>cl_ac := a, cl_mute := cl_mute c \<or> punishable now st snaps s c \<and> action_of w = ACTION_MUTE\<rparr>)) \<and>
    (hi_contains (st_disconnect_queue (w_state w')) sid \<longleftrightarrow> hi_contains (st_disconnect_queue (w_state w)) sid \<or>
      punishable now st snaps s c \<and> action_of w \<in> {ACTION_KICK, ACTION_BAN} \<and> sid = cl_session_id c) \<and>
    action_of w' = action_of w"
  have ?P
    using assms
  proof (cases rule: sample_client_cases)
    case (struck a)
    then have "\<not> punishable now st snaps s c" by (auto simp: punishable_def Let_def)
    with struck show ?thesis by (auto simp: frame action_of_def)
  next
    case (flag a reach listens active m reason)
    let ?w = "set_state (put_client (sn_ref s) (c\<lparr>cl_ac := a\<rparr>)) w"
    have "punishable now st snaps s c = flagged now (c\<lparr>cl_ac := a\<rparr>)"
      using flag by (auto simp: punishable_def flagged_def Let_def)
    moreover have "st_heap (w_state ?w) (sn_ref s) = Some (c\<lparr>cl_ac := a\<rparr>)" by (simp add: frame)
    note f = flag_effect [OF this flag(1)]
    ultimately show ?thesis using f by (auto simp: frame action_of_def)
  qed
  then show "q \<noteq> sn_ref s \<Longrightarrow> st_heap (w_state w') q = st_heap (w_state w) q"
    and "\<exists>a. st_heap (w_state w') (sn_ref s) =
      Some (c\<lparr>cl_ac := a, cl_mute := cl_mute c \<or> punishable now st snaps s c \<and> action_of w = ACTION_MUTE\<rparr>)"
    and "hi_contains (st_disconnect_queue (w_state w')) sid \<longleftrightarrow>
      hi_contains (st_disconnect_queue (w_state w)) sid \<or>
      punishable now st snaps s c \<and> action_of w \<in> {ACTION_KICK, ACTION_BAN} \<and> sid = cl_session_id c"
    and "action_of w' = action_of w" by blast+
qed

lemma sample_fold:
  assumes "distinct (map sn_ref ss)" and "\<And>s. s \<in> set ss \<Longrightarrow> st_heap (w_state w) (sn_ref s) \<noteq> None"
    and "w' = fold (sample_client j now epoch st snaps) ss w"
  shows "(\<forall>q. q \<notin> sn_ref ` set ss \<longrightarrow> st_heap (w_state w') q = st_heap (w_state w) q) \<and>
    (\<forall>s c. s \<in> set ss \<longrightarrow> st_heap (w_state w) (sn_ref s) = Some c \<longrightarrow> (\<exists>a. st_heap (w_state w') (sn_ref s) =
      Some (c\<lparr>cl_ac := a, cl_mute := cl_mute c \<or> punishable now st snaps s c \<and> action_of w = ACTION_MUTE\<rparr>))) \<and>
    (\<forall>sid. hi_contains (st_disconnect_queue (w_state w')) sid \<longleftrightarrow> hi_contains (st_disconnect_queue (w_state w)) sid \<or>
      action_of w \<in> {ACTION_KICK, ACTION_BAN} \<and> (\<exists>s \<in> set ss. \<exists>c. st_heap (w_state w) (sn_ref s) = Some c \<and>
        punishable now st snaps s c \<and> sid = cl_session_id c))"
  using assms
proof (induction ss arbitrary: w)
  case (Cons s0 ss)
  obtain c0 where c0: "st_heap (w_state w) (sn_ref s0) = Some c0" using Cons.prems(2) [of s0] by auto
  define v where "v = sample_client j now epoch st snaps s0 w"
  note one = sample_client_effect [OF c0 v_def]
  have other: "st_heap (w_state v) (sn_ref s) = st_heap (w_state w) (sn_ref s)" if "s \<in> set ss" for s
  proof (rule one(1))
    show "sn_ref s \<noteq> sn_ref s0" using that Cons.prems(1) by (metis distinct.simps(2) image_eqI list.set_map list.simps(9))
  qed
  have "distinct (map sn_ref ss)" "\<And>s. s \<in> set ss \<Longrightarrow> st_heap (w_state v) (sn_ref s) \<noteq> None"
    "w' = fold (sample_client j now epoch st snaps) ss v"
    using Cons.prems other by (simp_all add: v_def)
  note IH = Cons.IH [OF this]
  show ?case
  proof (intro conjI allI impI)
    fix q assume "q \<notin> sn_ref ` set (s0 # ss)"
    then show "st_heap (w_state w') q = st_heap (w_state w) q" using IH one(1) [of q] by simp
  next
    fix s c assume s: "s \<in> set (s0 # ss)" "st_heap (w_state w) (sn_ref s) = Some c"
    show "\<exists>a. st_heap (w_state w') (sn_ref s) =
      Some (c\<lparr>cl_ac := a, cl_mute := cl_mute c \<or> punishable now st snaps s c \<and> action_of w = ACTION_MUTE\<rparr>)"
    proof (cases "s = s0")
      case True
      with s c0 Cons.prems(1) have "sn_ref s \<notin> sn_ref ` set ss" "c = c0" by auto
      with IH one(2) True show ?thesis by simp
    next
      case False
      with s(1) have "s \<in> set ss" by simp
      with IH other s(2) one(4) show ?thesis by simp
    qed
  next
    fix sid
    let ?E = "\<lambda>w s. \<exists>c. st_heap (w_state w) (sn_ref s) = Some c \<and> punishable now st snaps s c \<and> sid = cl_session_id c"
    have "(\<exists>s \<in> set ss. ?E v s) \<longleftrightarrow> (\<exists>s \<in> set ss. ?E w s)" using other by simp
    moreover have "?E w s0 \<longleftrightarrow> punishable now st snaps s0 c0 \<and> sid = cl_session_id c0" using c0 by simp
    moreover from IH have "hi_contains (st_disconnect_queue (w_state w')) sid \<longleftrightarrow>
        hi_contains (st_disconnect_queue (w_state v)) sid \<or> action_of v \<in> {ACTION_KICK, ACTION_BAN} \<and> (\<exists>s \<in> set ss. ?E v s)"
      by blast
    ultimately show "hi_contains (st_disconnect_queue (w_state w')) sid \<longleftrightarrow> hi_contains (st_disconnect_queue (w_state w)) sid \<or>
      action_of w \<in> {ACTION_KICK, ACTION_BAN} \<and> (\<exists>s \<in> set (s0 # ss). \<exists>c. st_heap (w_state w) (sn_ref s) = Some c \<and>
        punishable now st snaps s c \<and> sid = cl_session_id c)"
      unfolding one(3) one(4) list.set(2) bex_simps by argo
  qed
qed simp

lemma take_snaps_iff:
  "s \<in> set (take_snaps now st) \<longleftrightarrow> (\<exists>sid r c. (sid, r) \<in> set (st_clients st) \<and> st_heap st r = Some c \<and> s = snap_of now r c)"
  by (force simp: take_snaps_def List.map_filter_def)

lemma map_filter_refs:
  "map sn_ref (List.map_filter (\<lambda>(_, r). map_option (snap_of now r) (h r)) xs) = map snd (filter (\<lambda>(_, r). h r \<noteq> None) xs)"
  by (induction xs) (auto simp: List.map_filter_simps snap_of_def split: option.split)

lemma take_snaps_distinct: "distinct (map snd (st_clients st)) \<Longrightarrow> distinct (map sn_ref (take_snaps now st))"
  by (simp add: take_snaps_def map_filter_refs distinct_map_filter)

text \<open>
  C8: Whom the anticheat punishes. A round mutes a connected client, or queues it for disconnection, only
  if that is the configured action, the client is suspicious in this round, this is at least the required
  strike, it was not flagged in the last three seconds and it is not exempt; and then it does so.
\<close>

theorem sample_punishes_exactly:
  assumes "refs_ok (w_state w)" and "acc_enabled (st_anticheat (w_state w))"
    and "hi_get (st_clients (w_state w)) sid = Some r" and "st_heap (w_state w) r = Some c"
    and "p = punishable now (w_state w) (take_snaps now (w_state w)) (snap_of now r c) c"
  shows "(\<exists>c'. st_heap (w_state (sample j now epoch w)) r = Some c' \<and>
      (cl_mute c' \<longleftrightarrow> cl_mute c \<or> p \<and> action_of w = ACTION_MUTE)) \<and>
    (hi_contains (st_disconnect_queue (w_state (sample j now epoch w))) sid \<longleftrightarrow>
      hi_contains (st_disconnect_queue (w_state w)) sid \<or> p \<and> action_of w \<in> {ACTION_KICK, ACTION_BAN})"
proof -
  let ?st = "w_state w"
  let ?snaps = "take_snaps now ?st"
  have wf: "hi_wf (st_clients ?st)" using assms(1) by (simp add: refs_ok_def indexes_wfD)
  have live: "\<exists>c. st_heap ?st q = Some c \<and> cl_session_id c = s" if "hi_get (st_clients ?st) s = Some q" for s q
    using assms(1) that by (force simp: refs_ok_def session_of_def)
  have "distinct (map snd (st_clients ?st))" using wf live by (rule refs_distinct)
  then have "distinct (map sn_ref ?snaps)" by (rule take_snaps_distinct)
  moreover have "st_heap ?st (sn_ref s) \<noteq> None" if "s \<in> set ?snaps" for s
    using that by (auto simp: take_snaps_iff snap_of_def)
  moreover have "sample j now epoch w = fold (sample_client j now epoch ?st ?snaps) ?snaps w"
    using assms(2) by (simp add: sample_def Let_def)
  ultimately have all: "(\<forall>s c. s \<in> set ?snaps \<longrightarrow> st_heap ?st (sn_ref s) = Some c \<longrightarrow> (\<exists>a. st_heap (w_state (sample j now epoch w)) (sn_ref s) =
      Some (c\<lparr>cl_ac := a, cl_mute := cl_mute c \<or> punishable now ?st ?snaps s c \<and> action_of w = ACTION_MUTE\<rparr>)))"
    "hi_contains (st_disconnect_queue (w_state (sample j now epoch w))) sid \<longleftrightarrow> hi_contains (st_disconnect_queue ?st) sid \<or>
      action_of w \<in> {ACTION_KICK, ACTION_BAN} \<and> (\<exists>s \<in> set ?snaps. \<exists>c. st_heap ?st (sn_ref s) = Some c \<and>
        punishable now ?st ?snaps s c \<and> sid = cl_session_id c)"
    using sample_fold by blast+
  have mine: "snap_of now r c \<in> set ?snaps" using assms(3,4) wf by (auto simp: take_snaps_iff hi_get_eq_Some_iff)
  have sid: "cl_session_id c = sid" using live [OF assms(3)] assms(4) by auto
  have "(\<exists>s \<in> set ?snaps. \<exists>c. st_heap ?st (sn_ref s) = Some c \<and> punishable now ?st ?snaps s c \<and> sid = cl_session_id c) \<longleftrightarrow> p"
  proof
    assume "\<exists>s \<in> set ?snaps. \<exists>c. st_heap ?st (sn_ref s) = Some c \<and> punishable now ?st ?snaps s c \<and> sid = cl_session_id c"
    then obtain k q d where d: "(k, q) \<in> set (st_clients ?st)" "st_heap ?st q = Some d"
      "punishable now ?st ?snaps (snap_of now q d) d" "sid = cl_session_id d"
      by (auto simp: take_snaps_iff snap_of_def)
    with live [of k q] wf have "k = sid" by (auto simp: hi_get_eq_Some_iff)
    with d(1) assms(3) wf have "q = r" by (simp flip: hi_get_eq_Some_iff)
    with d assms(4,5) show p by simp
  next
    assume p
    with mine assms(4,5) sid show "\<exists>s \<in> set ?snaps. \<exists>c. st_heap ?st (sn_ref s) = Some c \<and> punishable now ?st ?snaps s c \<and> sid = cl_session_id c"
      by (intro bexI [OF _ mine] exI [of _ c]) (simp add: snap_of_def)
  qed
  with all mine assms(4,5) show ?thesis by (force simp: snap_of_def)
qed

definition demo_spy :: world where
  "demo_spy = \<lparr>w_state = demo_state
     \<lparr>st_channels := [(0, (channel_new 0 (Some 0) ''Root'' [] False)\<lparr>ch_listeners := [(1, 0)]\<rparr>),
        (1, (channel_new 1 (Some 0) ''x'' [] False)\<lparr>ch_listeners := [(1, 0)]\<rparr>)],
      st_anticheat := anticheat_new True 60 15 30 10 1 1 ACTION_KICK None None ''s''\<rparr>,
     w_disk = \<lparr>d_files = Map.empty, d_writable = True\<rparr>, w_posts = []\<rparr>"

lemma demo_spy_refs: "refs_ok (w_state demo_spy)"
proof -
  have "indexes_wf (w_state demo_spy)"
    using demo_state_wf(1) by (simp add: demo_spy_def indexes_wf_def channels_wf_def hi_wf_def)
  moreover have "session_of (w_state demo_spy) = [0 \<mapsto> 1, 1 \<mapsto> 2]"
    by (auto simp: demo_spy_def session_of_def)
  ultimately show ?thesis
    by (auto simp: refs_ok_def) (auto simp: demo_spy_def hi_get_def split: if_splits)
qed

lemma demo_client_ac [simp]:
  "cl_ac (demo_client sid cid) = ac_stats_new 0" "cl_targets (demo_client sid cid) = replicate 30 voice_target_default"
  by (simp_all add: demo_client_def client_new_def Let_def)

theorem sample_punishes_exactly_witness:
  "hi_contains (st_disconnect_queue (w_state (sample std_ban_json 100000000000 0 demo_spy))) 1"
proof -
  let ?st = "w_state demo_spy" and ?now = "100000000000"
  have "punishable ?now ?st (take_snaps ?now ?st) (snap_of ?now 0 (demo_client 1 0)) (demo_client 1 0)"
    by (simp add: punishable_def demo_spy_def suspicions_def spy_def measure_client_def Let_def split_def listen_count_def
        snap_of_def anticheat_new_def strikes_needed_def ac_stats_new_def FLAG_COOLDOWN_def duration_since_def secs_def)
  moreover have "hi_get (st_clients ?st) 1 = Some 0" "st_heap ?st 0 = Some (demo_client 1 0)"
    "action_of demo_spy = ACTION_KICK" "acc_enabled (st_anticheat ?st)"
    by (simp_all add: demo_spy_def action_of_def anticheat_new_def hi_get_def)
  ultimately show ?thesis
    using sample_punishes_exactly [OF demo_spy_refs, of 1 0 "demo_client 1 0" _ ?now std_ban_json 0] by simp
qed

section \<open>Restart\<close>

text \<open>What the code relies on of \<open>serde_json\<close> for the snapshot.\<close>

definition heard_json_ok :: "heard_json \<Rightarrow> bool" where
  "heard_json_ok hj \<longleftrightarrow> (\<forall>h. hj_parse hj (hj_print hj h) = Some h)"

lemma hi_get_map_snd: "hi_get (map (\<lambda>(k, v). (k, f v)) m) k = map_option f (hi_get m k)"
  by (simp add: hi_get_def map_of_map)

lemma hi_get_fold_insert:
  "hi_get (fold (\<lambda>(k, v). hi_insert k (f v)) m acc) k =
     (case hi_get acc k of Some v \<Rightarrow> Some v | None \<Rightarrow> map_option f (hi_get m k))"
proof (induction m arbitrary: acc)
  case Nil
  then show ?case by (simp split: option.split)
next
  case (Cons e m)
  obtain k' v where e: "e = (k', v)" by (cases e)
  show ?case by (auto simp: e Cons.IH hi_get_insert split: option.split) (auto simp: hi_get_def)
qed

lemma snapshot_client:
  assumes "\<And>s q d. (s, q) \<in> set xs \<Longrightarrow> st_heap st q = Some d \<Longrightarrow> name_part (cl_name d) = nm \<Longrightarrow> q = r"
    and "st_heap st r = Some c" and "name_part (cl_name c) = nm" and "persist_heard cfg now epoch c = l" and "l \<noteq> []"
    and "r \<in> snd ` set xs \<or> hi_get acc nm = Some l"
  shows "hi_get (fold (\<lambda>(_, r) out. case st_heap st r of
              Some c \<Rightarrow> let lists = persist_heard cfg now epoch c
                in if lists = [] then out else hm_put (name_part (cl_name c)) lists out
            | None \<Rightarrow> out) xs acc) nm = Some l"
  using assms(1,6)
proof (induction xs arbitrary: acc)
  case Nil
  then show ?case by simp
next
  case (Cons e xs)
  obtain s q where e: "e = (s, q)" by (cases e)
  let ?step = "case st_heap st q of
              Some c \<Rightarrow> let lists = persist_heard cfg now epoch c
                in if lists = [] then acc else hm_put (name_part (cl_name c)) lists acc
            | None \<Rightarrow> acc"
  have now: "r \<in> snd ` set xs \<or> hi_get ?step nm = Some l"
  proof (cases "q = r")
    case True
    then show ?thesis using assms(2-5) by (simp add: hi_get_put)
  next
    case False
    then have "r \<in> snd ` set xs \<or> hi_get acc nm = Some l" using Cons.prems(2) by (auto simp: e)
    moreover have "name_part (cl_name d) \<noteq> nm" if "st_heap st q = Some d" for d
      using Cons.prems(1) [of s q d] False that by (auto simp: e)
    ultimately show ?thesis by (auto simp: Let_def hi_get_put split: option.split)
  qed
  show ?case unfolding e fold_simps prod.case
  proof (rule Cons.IH [OF _ now])
    show "(s', q') \<in> set xs \<Longrightarrow> st_heap st q' = Some d \<Longrightarrow> name_part (cl_name d) = nm \<Longrightarrow> q' = r" for s' q' d
      using Cons.prems(1) [of s' q' d] by simp
  qed
qed

lemma snapshot_lookup:
  assumes "\<And>s q d. hi_get (st_clients st) s = Some q \<Longrightarrow> st_heap st q = Some d \<Longrightarrow> name_part (cl_name d) = name_part (cl_name c) \<Longrightarrow> q = r"
    and "hi_wf (st_clients st)" and "hi_get (st_clients st) sid = Some r" and "st_heap st r = Some c"
    and "persist_heard (st_anticheat st) now epoch c \<noteq> []"
  shows "hi_get (heard_snapshot now epoch st) (name_part (cl_name c)) = Some (persist_heard (st_anticheat st) now epoch c)"
proof -
  have r: "r \<in> snd ` set (st_clients st)" using hi_get_SomeD [OF assms(3)] by force
  have "hi_get (fold (\<lambda>(_, r) out. case st_heap st r of
              Some c \<Rightarrow> let lists = persist_heard (st_anticheat st) now epoch c
                in if lists = [] then out else hm_put (name_part (cl_name c)) lists out
            | None \<Rightarrow> out) (st_clients st) []) (name_part (cl_name c)) = Some (persist_heard (st_anticheat st) now epoch c)"
  proof (rule snapshot_client [OF _ assms(4) refl refl assms(5) disjI1 [OF r]])
    fix s q d assume "(s, q) \<in> set (st_clients st)" "st_heap st q = Some d" "name_part (cl_name d) = name_part (cl_name c)"
    then show "q = r" using assms(2) by (intro assms(1) [of s q d]) (simp_all add: hi_get_eq_Some_iff)
  qed
  then show ?thesis
    using hi_get_fold_insert [of "\<lambda>v. v" "acc_heard_seed (st_anticheat st)"] by (simp add: heard_snapshot_def Let_def)
qed

lemma hi_wf_snapshot: "hi_wf (heard_snapshot now epoch st)"
proof -
  have put: "hi_wf (fold (\<lambda>(_, r) out. case st_heap st r of
              Some c \<Rightarrow> let lists = persist_heard cfg now epoch c
                in if lists = [] then out else hm_put (name_part (cl_name c)) lists out
            | None \<Rightarrow> out) xs acc)" if "hi_wf acc" for cfg xs acc
    using that by (induction xs arbitrary: acc) (auto simp: Let_def hi_wf_put split: option.split)
  have ins: "hi_wf (fold (\<lambda>(k, v). hi_insert k v) xs acc)" if "hi_wf acc" for xs :: persisted_heard and acc
    using that by (induction xs arbitrary: acc) (auto simp: hi_wf_insert)
  show ?thesis unfolding heard_snapshot_def Let_def by (intro ins put [unfolded Let_def]) simp
qed

lemma init_seed:
  assumes "d_files d path = Some data" and "hj_parse hj data = Some seed" and "hi_wf seed" and "hi_get seed n = Some l"
    and "l' = hi_retain (\<lambda>_ e. now_epoch - ph_epoch e \<le> unat (max (acc_heard_secs cfg) 10)) l" and "l' \<noteq> []"
  shows "hi_get (acc_heard_seed (init_heard_persistence hj now_epoch path d cfg)) n = Some l'"
proof -
  let ?old = "\<lambda>_ e. now_epoch - ph_epoch e \<le> unat (max (acc_heard_secs cfg) 10)"
  have "hi_wf (map (\<lambda>(k, l). (k, hi_retain ?old l)) seed)"
    using assms(3) by (simp add: hi_wf_def comp_def split_def)
  moreover have "hi_get (map (\<lambda>(k, l). (k, hi_retain ?old l)) seed) n = Some l'"
    using assms(4,5) by (simp add: hi_get_map_snd)
  ultimately show ?thesis
    using assms(1,2,6) by (simp add: init_heard_persistence_def Let_def hi_get_retain)
qed

text \<open>
  C36: Who spoke to whom survives a restart. An entry that is not older than the retention at the snapshot
  and not older than the retention when the server starts again is given back to the client of the same
  player when it connects, with the speaker's data and the time it was last heard.
\<close>

theorem heard_survives_restart:
  assumes "heard_json_ok hj" and "st = w_state w" and "acc_heard_file (st_anticheat st) = Some path"
    and "acc_enabled (st_anticheat st)" and "d_writable (w_disk w)" and "with_extension ''tmp'' path \<noteq> path"
    and "hi_wf (st_clients st)" and "hi_get (st_clients st) sid = Some r" and "st_heap st r = Some c"
    and "\<And>s q d. hi_get (st_clients st) s = Some q \<Longrightarrow> st_heap st q = Some d \<Longrightarrow>
      name_part (cl_name d) = name_part (cl_name c) \<Longrightarrow> q = r"
    and "hi_wf (ac_heard (cl_ac c))" and "hi_get (ac_heard (cl_ac c)) k = Some en"
    and "age = duration_since now (he_last en) div secs 1" and "age \<le> epoch"
    and "age \<le> unat (max (acc_heard_secs (st_anticheat st)) 10)"
    and "epoch \<le> epoch'" and "epoch' - epoch + age \<le> unat (max (acc_heard_secs cfg) 10)"
    and "name_part (cl_name c') = name_part (cl_name c)" and "ac_heard (cl_ac c') = []"
  shows "hi_get (ac_heard (cl_ac (snd (seed_heard now' epoch'
      (init_heard_persistence hj epoch' path (w_disk (flush_heard hj now epoch w)) cfg) c')))) k =
    Some (en\<lparr>he_last := now' - int (secs (epoch' - epoch + age))\<rparr>)"
proof -
  let ?l = "persist_heard (st_anticheat st) now epoch c" and ?n = "name_part (cl_name c)"
  let ?old = "\<lambda>_ e. epoch' - ph_epoch e \<le> unat (max (acc_heard_secs cfg) 10)"
  let ?seed = "heard_snapshot now epoch st"
  have k: "hi_get ?l k = Some (persist_entry now epoch en)"
    using assms(11,12,13,15) by (simp add: persist_heard_def hi_get_map_snd hi_get_retain)
  then have "?l \<noteq> []" by auto
  with assms(7-9) have l: "hi_get ?seed ?n = Some ?l" by (rule snapshot_lookup [rotated]) (use assms(10) in blast)
  have onfile: "d_files (w_disk (flush_heard hj now epoch w)) path = Some (hj_print hj ?seed)"
    using assms(2-6) by (simp add: flush_heard_def Let_def rename_file_def write_file_def)
  have wf: "hi_wf ?l"
    using assms(11) by (simp add: persist_heard_def hi_wf_def hi_retain_def distinct_map_filter comp_def split_def)
  have old: "hi_get (hi_retain ?old ?l) k = Some (persist_entry now epoch en)"
    using k wf assms(13,14,16,17) by (simp add: hi_get_retain persist_entry_def)
  have "hj_parse hj (hj_print hj ?seed) = Some ?seed" using assms(1) by (simp add: heard_json_ok_def)
  moreover have "hi_retain ?old ?l \<noteq> []" using old by (metis hi_get_Nil option.distinct(1))
  ultimately have "hi_get (acc_heard_seed (init_heard_persistence hj epoch' path (w_disk (flush_heard hj now epoch w)) cfg)) ?n =
      Some (hi_retain ?old ?l)" by (rule init_seed [OF onfile _ hi_wf_snapshot l refl])
  then show ?thesis
    using assms(13,14,16,18,19) old hi_get_fold_insert [of "seed_entry now' epoch'" "hi_retain ?old ?l" "[]" k]
    by (simp add: seed_heard_def Let_def seed_entry_def persist_entry_def)
qed

text \<open>A printer and parser for the witness, over the escaped fields of \<open>Bans\<close>.\<close>

definition heard_strings :: "string \<times> persisted_heard_entry \<Rightarrow> string list" where
  "heard_strings ke = (case ke of (k, e) \<Rightarrow> [k, replicate (unat (ph_session_id e)) CHR ''1'', ph_name e, ph_ip e,
     replicate (ph_epoch e) CHR ''1'', replicate (unat (ph_secs e)) CHR ''1''])"

definition person_strings :: "string \<times> (string, persisted_heard_entry) hindex \<Rightarrow> string list" where
  "person_strings kl = (case kl of (k, l) \<Rightarrow> k # replicate (length l) CHR ''1'' # concat (map heard_strings l))"

fun strings_heard :: "nat \<Rightarrow> string list \<Rightarrow> (string, persisted_heard_entry) hindex \<times> string list" where
  "strings_heard (Suc n) (k # a # b # c # d # e # r) =
     (let (l, r) = strings_heard n r in ((k, \<lparr>ph_session_id = word_of_nat (length a), ph_name = b, ph_ip = c,
        ph_epoch = length d, ph_secs = word_of_nat (length e)\<rparr>) # l, r))"
| "strings_heard _ r = ([], r)"

fun strings_people :: "nat \<Rightarrow> string list \<Rightarrow> persisted_heard" where
  "strings_people (Suc n) (k # m # r) = (let (l, r) = strings_heard (length m) r in (k, l) # strings_people n r)"
| "strings_people _ r = []"

definition std_heard_json :: heard_json where
  "std_heard_json = \<lparr>hj_print = (\<lambda>h. concat (map esc (concat (map person_strings h)))),
     hj_parse = (\<lambda>s. Some (strings_people (length s) (unesc_all (length s) s)))\<rparr>"

lemma strings_heard_inverse: "strings_heard (length l) (concat (map heard_strings l) @ r) = (l, r)"
  by (induction l) (auto simp: heard_strings_def)

lemma strings_people_inverse: "length h \<le> n \<Longrightarrow> strings_people n (concat (map person_strings h)) = h"
proof (induction h arbitrary: n)
  case Nil
  then show ?case by (cases n) simp_all
next
  case (Cons kl h)
  then show ?case by (cases n; cases kl) (simp_all add: person_strings_def strings_heard_inverse)
qed

lemma std_heard_json_ok: "heard_json_ok std_heard_json"
proof -
  have "length h \<le> length (concat (map person_strings h))" for h
    by (induction h) (auto simp: person_strings_def)
  then have "length h \<le> length (concat (map esc (concat (map person_strings h))))" for h
    using length_concat_esc le_trans by blast
  then show ?thesis
    by (simp add: heard_json_ok_def std_heard_json_def unesc_all_esc [OF length_concat_esc] strings_people_inverse)
qed

definition demo_entry :: heard_entry where
  "demo_entry = \<lparr>he_session_id = 2, he_name = ''[2] bob'', he_ip = ''10.0.0.2'', he_last = 0, he_secs = 4\<rparr>"

definition demo_heard :: world where
  "demo_heard = demo_spy\<lparr>w_state := demo_state\<lparr>st_clients := [(1, 0)],
     st_heap := [0 \<mapsto> (demo_client 1 0)\<lparr>cl_ac := (ac_stats_new 0)\<lparr>ac_heard := [(''bob'', demo_entry)]\<rparr>\<rparr>],
     st_anticheat := (anticheat_new True 60 15 30 10 1 1 ACTION_KICK None None ''s'')\<lparr>acc_heard_file := Some ''d/heard.json''\<rparr>\<rparr>\<rparr>"

theorem heard_survives_restart_witness:
  "hi_get (ac_heard (cl_ac (snd (seed_heard 7 100
      (init_heard_persistence std_heard_json 100 ''d/heard.json''
        (w_disk (flush_heard std_heard_json 3000000000 60 demo_heard))
        (anticheat_new True 60 15 30 10 1 1 ACTION_KICK None None ''s'')) (demo_client 5 0))))) ''bob'' =
    Some (demo_entry\<lparr>he_last := 7 - int (secs (100 - 60 + 3))\<rparr>)"
  by (rule heard_survives_restart [OF std_heard_json_ok refl, where sid = 1 and r = 0 and
      c = "(demo_client 1 0)\<lparr>cl_ac := (ac_stats_new 0)\<lparr>ac_heard := [(''bob'', demo_entry)]\<rparr>\<rparr>"])
    (auto simp: demo_heard_def demo_spy_def anticheat_new_def hi_get_def hi_wf_def duration_since_def secs_def
      demo_entry_def with_extension_def ac_stats_new_def demo_client_def client_new_def Let_def split: if_splits)

end
