(* ===== verification/Http.thy ===== *)
theory Http
  imports Sample
begin

text \<open>
  The administration interface, \<open>src/src/http\<close>: authentication, routing and every handler. Requests
  arrive with their JSON bodies decoded and responses are the values that are encoded; the page of the
  panel and the text of the metrics are only named.
\<close>

section \<open>Requests and responses\<close>

datatype status_code = OK | NOT_FOUND | BAD_REQUEST

record anticheat_client =
  av_session_id :: u32
  av_name :: string
  av_ip :: string
  av_version :: string
  av_release :: string
  av_os :: string
  av_channel_id :: u32
  av_reach_instant :: u32
  av_reach_window :: u32
  av_mutuality :: u32
  av_listens :: u32
  av_has_pos :: bool
  av_pos_x :: f32
  av_pos_y :: f32
  av_pos_z :: f32
  av_pos_jumps :: u32
  av_max_speed :: f32
  av_far_targets :: u32
  av_score :: u64
  av_flags :: u32
  av_muted :: bool
  av_exempt :: bool

record anticheat_status =
  as_enabled :: bool
  as_threshold_pct :: u32
  as_min_recipients :: u32
  as_mutuality_max_pct :: u32
  as_window_secs :: u32
  as_strikes_required :: u32
  as_listen_max :: u32
  as_pos_osc_dist :: u32
  as_pos_osc_max :: u32
  as_pos_far_dist :: u32
  as_pos_far_min :: u32
  as_pos_far_pct :: u32
  as_heard_secs :: u32
  as_server_label :: string
  as_hide_ips :: bool
  as_action :: string
  as_webhook :: "string option"
  as_panel_url :: "string option"
  as_connected :: u32
  as_clients :: "anticheat_client list"
  as_logs :: "string list"
  as_bans :: "ban_entry list"

record config_update =
  cu_enabled :: "bool option"
  cu_threshold_pct :: "u32 option"
  cu_min_recipients :: "u32 option"
  cu_mutuality_max_pct :: "u32 option"
  cu_window_secs :: "u32 option"
  cu_strikes_required :: "u32 option"
  cu_listen_max :: "u32 option"
  cu_pos_osc_dist :: "u32 option"
  cu_pos_osc_max :: "u32 option"
  cu_pos_far_dist :: "u32 option"
  cu_pos_far_min :: "u32 option"
  cu_pos_far_pct :: "u32 option"
  cu_heard_secs :: "u32 option"
  cu_action :: "string option"
  cu_webhook :: "string option"
  cu_panel_url :: "string option"

record heard_item =
  hd_session_id :: u32
  hd_name :: string
  hd_ip :: string
  hd_ago_secs :: nat
  hd_secs :: u32

record heard_response =
  hr_session_id :: u32
  hr_name :: string
  hr_retention_secs :: u32
  hr_heard :: "heard_item list"

record mumble_client =
  mc_name :: string
  mc_session_id :: u32
  mc_channel :: "string option"
  mc_mute :: bool
  mc_good :: u32
  mc_late :: u32
  mc_lost :: u32
  mc_resync :: u32
  mc_last_good_duration :: nat
  mc_targets :: "(u32 list \<times> u32 list) list"

datatype request =
    GetAnticheat | PostAnticheatClear | PostAnticheatConfig config_update | GetHeard u32 | PostHeardClear u32
  | PostAnticheatUser string string | PostAnticheatUnban u64 | PostDeaf bool string | GetDeaf string
  | GetMetrics | PostMute bool string | GetMute string | GetPanel | GetStatus

datatype response =
    Unauthorized | StatusOnly status_code | AnticheatJson anticheat_status | HeardJson heard_response
  | DeafJson bool string | MuteJson bool string | MetricsText | PanelHtml | StatusJson "(u32, mumble_client) hindex"

section \<open>Authentication\<close>

record auth_state =
  au_username :: string
  au_password :: "string option"

text \<open>Without a password there is no interface at all.\<close>

definition create_http_server :: "string \<Rightarrow> string option \<Rightarrow> auth_state option" where
  "create_http_server username password =
     (case password of None \<Rightarrow> None | Some _ \<Rightarrow> Some \<lparr>au_username = username, au_password = password\<rparr>)"

definition authorized :: "auth_state \<Rightarrow> (string \<times> string option) option \<Rightarrow> bool" where
  "authorized a credentials \<longleftrightarrow>
     au_password a \<noteq> None \<and>
     (case credentials of Some (i, password) \<Rightarrow> i = au_username a \<and> password = au_password a | None \<Rightarrow> False)"

section \<open>The panel's data\<close>

definition IP_REDACTED :: string where "IP_REDACTED = ''xx.xx.xx.xx''"

definition shown_ip :: "bool \<Rightarrow> string \<Rightarrow> string" where
  "shown_ip hide_ips ip = (if hide_ips then IP_REDACTED else ip)"

definition anticheat_client_of :: "bool \<Rightarrow> client \<Rightarrow> anticheat_client" where
  "anticheat_client_of hide_ips c =
     (let a = cl_ac c in
      \<lparr>av_session_id = cl_session_id c, av_name = cl_name c, av_ip = shown_ip hide_ips (ip_string (cl_peer_ip c)),
       av_version = cl_version_str c, av_release = cl_version_release c, av_os = cl_version_os c,
       av_channel_id = cl_channel_id c, av_reach_instant = ac_reach_instant a, av_reach_window = ac_reach_window a,
       av_mutuality = ac_mutuality a, av_listens = ac_listen_count a, av_has_pos = ac_has_pos a,
       av_pos_x = ac_pos_x a, av_pos_y = ac_pos_y a, av_pos_z = ac_pos_z a, av_pos_jumps = ac_pos_jumps a,
       av_max_speed = ac_max_speed a, av_far_targets = ac_far_targets a, av_score = ac_score a,
       av_flags = ac_flags a, av_muted = cl_mute c, av_exempt = ac_exempt a\<rparr>)"

text \<open>Descending by score, then by reach; the order of equals is up to \<open>sort_unstable_by\<close>, here that of the index.\<close>

definition sort_clients :: "anticheat_client list \<Rightarrow> anticheat_client list" where
  "sort_clients cs = sort_key (\<lambda>a. - uint (av_score a)) (sort_key (\<lambda>a. - uint (av_reach_window a)) cs)"

definition redact_ban :: "ban_entry \<Rightarrow> ban_entry" where
  "redact_ban b = b\<lparr>be_ip := map_option (\<lambda>_. IP_REDACTED) (be_ip b)\<rparr>"

definition get_anticheat :: "server_state \<Rightarrow> anticheat_status" where
  "get_anticheat st =
     (let ac = st_anticheat st;
          hide_ips = acc_hide_ips ac;
          clients = map (anticheat_client_of hide_ips) (List.map_filter (\<lambda>(_, r). st_heap st r) (st_clients st));
          bans = bans_list (st_bans st)
      in \<lparr>as_enabled = acc_enabled ac, as_threshold_pct = acc_threshold_pct ac,
          as_min_recipients = acc_min_recipients ac, as_mutuality_max_pct = acc_mutuality_max_pct ac,
          as_window_secs = acc_window_secs ac, as_strikes_required = acc_strikes_required ac,
          as_listen_max = acc_listen_max ac, as_pos_osc_dist = acc_pos_osc_dist ac,
          as_pos_osc_max = acc_pos_osc_max ac, as_pos_far_dist = acc_pos_far_dist ac,
          as_pos_far_min = acc_pos_far_min ac, as_pos_far_pct = acc_pos_far_pct ac,
          as_heard_secs = acc_heard_secs ac, as_server_label = acc_server_label ac, as_hide_ips = hide_ips,
          as_action = action_name (acc_action ac), as_webhook = acc_webhook ac, as_panel_url = acc_panel_url ac,
          as_connected = st_active_clients st, as_clients = sort_clients clients, as_logs = recent_logs ac,
          as_bans = (if hide_ips then map redact_ban bans else bans)\<rparr>)"

section \<open>Configuration\<close>

definition clamp :: "'a :: linorder \<Rightarrow> 'a \<Rightarrow> 'a \<Rightarrow> 'a" where
  "clamp lo hi v = (if v < lo then lo else if v > hi then hi else v)"

definition update_with :: "('v \<Rightarrow> 'c \<Rightarrow> 'c) \<Rightarrow> 'v option \<Rightarrow> 'c \<Rightarrow> 'c" where
  "update_with f v c = (case v of Some v \<Rightarrow> f v c | None \<Rightarrow> c)"

definition blank_none :: "string \<Rightarrow> string option" where
  "blank_none s = (if trim s = [] then None else Some s)"

definition apply_config :: "config_update \<Rightarrow> anticheat_config \<Rightarrow> anticheat_config" where
  "apply_config u ac =
     (let ac = update_with (\<lambda>v ac. ac\<lparr>acc_enabled := v\<rparr>) (cu_enabled u) ac;
          ac = update_with (\<lambda>v ac. ac\<lparr>acc_threshold_pct := clamp 1 100 v\<rparr>) (cu_threshold_pct u) ac;
          ac = update_with (\<lambda>v ac. ac\<lparr>acc_min_recipients := v\<rparr>) (cu_min_recipients u) ac;
          ac = update_with (\<lambda>v ac. ac\<lparr>acc_mutuality_max_pct := min v 100\<rparr>) (cu_mutuality_max_pct u) ac;
          ac = update_with (\<lambda>v ac. ac\<lparr>acc_window_secs := max v 1\<rparr>) (cu_window_secs u) ac;
          ac = update_with (\<lambda>v ac. ac\<lparr>acc_strikes_required := max v 1\<rparr>) (cu_strikes_required u) ac;
          ac = update_with (\<lambda>v ac. ac\<lparr>acc_listen_max := v\<rparr>) (cu_listen_max u) ac;
          ac = update_with (\<lambda>v ac. ac\<lparr>acc_pos_osc_dist := if v = 0 then 0 else max v 50\<rparr>) (cu_pos_osc_dist u) ac;
          ac = update_with (\<lambda>v ac. ac\<lparr>acc_pos_osc_max := v\<rparr>) (cu_pos_osc_max u) ac;
          ac = update_with (\<lambda>v ac. ac\<lparr>acc_pos_far_dist := max v 100\<rparr>) (cu_pos_far_dist u) ac;
          ac = update_with (\<lambda>v ac. ac\<lparr>acc_pos_far_min := v\<rparr>) (cu_pos_far_min u) ac;
          ac = update_with (\<lambda>v ac. ac\<lparr>acc_pos_far_pct := clamp 1 100 v\<rparr>) (cu_pos_far_pct u) ac;
          ac = update_with (\<lambda>v ac. ac\<lparr>acc_heard_secs := clamp 10 7200 v\<rparr>) (cu_heard_secs u) ac;
          ac = update_with (\<lambda>v ac. ac\<lparr>acc_action := parse_action v\<rparr>) (cu_action u) ac;
          ac = update_with (\<lambda>v ac. ac\<lparr>acc_webhook := blank_none v\<rparr>) (cu_webhook u) ac;
          ac = update_with (\<lambda>v ac. ac\<lparr>acc_panel_url := blank_none v\<rparr>) (cu_panel_url u) ac
      in ac)"

definition post_anticheat_config :: "config_update \<Rightarrow> world \<Rightarrow> world \<times> status_code" where
  "post_anticheat_config u w = (set_state (\<lambda>st. st\<lparr>st_anticheat := apply_config u (st_anticheat st)\<rparr>) w, OK)"

section \<open>Actions on users\<close>

definition reset_client_counters :: "client \<Rightarrow> client" where
  "reset_client_counters c =
     c\<lparr>cl_ac := (cl_ac c)\<lparr>ac_score := 0, ac_flags := 0, ac_max_recipients := 0, ac_strikes := 0, ac_window := [],
       ac_pos_jumps := 0, ac_max_speed := 0, ac_pos_hist := [], ac_far_targets := 0, ac_heard := []\<rparr>\<rparr>"

definition set_exempt :: "bool \<Rightarrow> client \<Rightarrow> client" where
  "set_exempt b c = c\<lparr>cl_ac := (cl_ac c)\<lparr>ac_exempt := b\<rparr>\<rparr>"

definition ban_remove_matching_world :: "ban_json \<Rightarrow> string \<Rightarrow> string \<Rightarrow> string \<Rightarrow> world \<Rightarrow> world" where
  "ban_remove_matching_world j ip nm kind w =
     (let (b, d) = bans_remove_matching j ip nm kind (st_bans (w_state w), w_disk w)
      in w\<lparr>w_state := (w_state w)\<lparr>st_bans := b\<rparr>, w_disk := d\<rparr>)"

definition post_anticheat_user :: "ban_json \<Rightarrow> nat \<Rightarrow> string \<Rightarrow> string \<Rightarrow> world \<Rightarrow> world \<times> status_code" where
  "post_anticheat_user j epoch user action w =
     (case Option.bind (get_client_by_name user (w_state w))
             (\<lambda>r. map_option (Pair r) (st_heap (w_state w) r)) of
        None \<Rightarrow> (w, NOT_FOUND)
      | Some (r, c) \<Rightarrow>
          let ip = ip_string (cl_peer_ip c);
              np = name_part (cl_name c)
          in if action = ''block'' then
               (set_state (modify_client r (set_mute True))
                 (ban_add_world j epoch ''mute'' (Some ip) (Some np) (cl_name c) ''mute manuel''
                   (set_state (modify_client r (set_exempt False)) w)), OK)
             else if action = ''unblock'' then
               (set_state (modify_client r (set_mute False))
                 (set_state (modify_client r (set_exempt True)) (ban_remove_matching_world j ip np ''mute'' w)), OK)
             else if action = ''kick'' then
               (set_state (add_client_to_disconnect_queue (cl_session_id c) Anticheat) w, OK)
             else if action = ''reset'' then
               (set_state (modify_client r reset_client_counters) w, OK)
             else if action = ''ban'' then
               (set_state (add_client_to_disconnect_queue (cl_session_id c) Anticheat)
                 (ban_add_world j epoch ''ban'' (Some ip) (Some np) (cl_name c) ''banni via panel'' w), OK)
             else (w, BAD_REQUEST))"

definition post_anticheat_unban :: "ban_json \<Rightarrow> u64 \<Rightarrow> world \<Rightarrow> world \<times> status_code" where
  "post_anticheat_unban j ident w =
     (let (b, d) = bans_remove j ident (st_bans (w_state w), w_disk w)
      in (w\<lparr>w_state := (w_state w)\<lparr>st_bans := b\<rparr>, w_disk := d\<rparr>, OK))"

section \<open>Who spoke to whom\<close>

definition heard_item_of :: "bool \<Rightarrow> instant \<Rightarrow> heard_entry \<Rightarrow> heard_item" where
  "heard_item_of hide_ips now e =
     \<lparr>hd_session_id = he_session_id e, hd_name = he_name e, hd_ip = shown_ip hide_ips (he_ip e),
      hd_ago_secs = duration_since now (he_last e) div secs 1, hd_secs = he_secs e\<rparr>"

text \<open>Looking at the list drops what has expired.\<close>

definition get_heard :: "instant \<Rightarrow> u32 \<Rightarrow> world \<Rightarrow> world \<times> (status_code + heard_response)" where
  "get_heard now sid w =
     (let st = w_state w; cfg = st_anticheat st in
      case Option.bind (hi_get (st_clients st) sid) (\<lambda>r. map_option (Pair r) (st_heap st r)) of
        None \<Rightarrow> (w, Inl NOT_FOUND)
      | Some (r, c) \<Rightarrow>
          let h = hi_retain (\<lambda>_ e. duration_since now (he_last e) \<le> heard_retention cfg) (ac_heard (cl_ac c));
              heard = map (\<lambda>(_, e). heard_item_of (acc_hide_ips cfg) now e) h
          in (set_state (put_client r (c\<lparr>cl_ac := (cl_ac c)\<lparr>ac_heard := h\<rparr>\<rparr>)) w,
              Inr \<lparr>hr_session_id = sid, hr_name = cl_name c, hr_retention_secs = acc_heard_secs cfg,
                hr_heard = sort_key hd_ago_secs heard\<rparr>))"

definition post_heard_clear :: "u32 \<Rightarrow> world \<Rightarrow> world \<times> status_code" where
  "post_heard_clear sid w =
     (case hi_get (st_clients (w_state w)) sid of
        None \<Rightarrow> (w, NOT_FOUND)
      | Some r \<Rightarrow> (set_state (modify_client r (\<lambda>c. c\<lparr>cl_ac := (cl_ac c)\<lparr>ac_heard := []\<rparr>\<rparr>)) w, OK))"

definition post_anticheat_clear :: "world \<Rightarrow> world \<times> status_code" where
  "post_anticheat_clear w =
     (let w = fold (\<lambda>(_, r). set_state (modify_client r reset_client_counters)) (st_clients (w_state w)) w
      in (set_state (\<lambda>st. st\<lparr>st_anticheat := clear_logs (st_anticheat st)\<rparr>) w, OK))"

section \<open>Mute, deaf and status\<close>

definition post_mute :: "bool \<Rightarrow> string \<Rightarrow> world \<Rightarrow> world \<times> status_code" where
  "post_mute mute user w =
     (case get_client_by_name user (w_state w) of
        Some r \<Rightarrow> (set_state (modify_client r (set_mute mute)) w, OK)
      | None \<Rightarrow> (w, NOT_FOUND))"

definition get_mute :: "string \<Rightarrow> server_state \<Rightarrow> status_code + bool \<times> string" where
  "get_mute username st =
     (case Option.bind (get_client_by_name username st) (st_heap st) of
        Some c \<Rightarrow> Inr (cl_mute c, username)
      | None \<Rightarrow> Inl NOT_FOUND)"

definition post_deaf :: "bool \<Rightarrow> string \<Rightarrow> world \<Rightarrow> world \<times> status_code" where
  "post_deaf deaf user w =
     (case get_client_by_name user (w_state w) of
        Some r \<Rightarrow> (set_state (modify_client r (set_deaf deaf)) w, OK)
      | None \<Rightarrow> (w, NOT_FOUND))"

definition get_deaf :: "string \<Rightarrow> server_state \<Rightarrow> status_code + bool \<times> string" where
  "get_deaf username st =
     (case Option.bind (get_client_by_name username st) (st_heap st) of
        Some c \<Rightarrow> Inr (cl_deaf c, username)
      | None \<Rightarrow> Inl NOT_FOUND)"

definition mumble_client_of :: "instant \<Rightarrow> server_state \<Rightarrow> client \<Rightarrow> mumble_client" where
  "mumble_client_of now st c =
     (let k = cl_crypt_state c in
      \<lparr>mc_name = cl_name c, mc_session_id = cl_session_id c,
       mc_channel = map_option ch_name (hi_get (st_channels st) (cl_channel_id c)), mc_mute = cl_mute c,
       mc_good = good k, mc_late = late k, mc_lost = lost k, mc_resync = resync k,
       mc_last_good_duration = duration_since now (last_good k) div 1000000,
       mc_targets = map (\<lambda>t. (map fst (vt_sessions t), map fst (vt_channels t))) (cl_targets c)\<rparr>)"

definition get_status :: "instant \<Rightarrow> server_state \<Rightarrow> (u32, mumble_client) hindex" where
  "get_status now st =
     fold (\<lambda>c. hm_put (cl_session_id c) (mumble_client_of now st c))
       (List.map_filter (\<lambda>(_, r). st_heap st r) (st_clients st)) []"

section \<open>Routing\<close>

definition status_response :: "world \<times> status_code \<Rightarrow> world \<times> response" where
  "status_response = map_prod (\<lambda>w. w) StatusOnly"

fun handle_request :: "ban_json \<Rightarrow> instant \<Rightarrow> nat \<Rightarrow> request \<Rightarrow> world \<Rightarrow> world \<times> response" where
  "handle_request j now epoch GetAnticheat w = (w, AnticheatJson (get_anticheat (w_state w)))"
| "handle_request j now epoch PostAnticheatClear w = status_response (post_anticheat_clear w)"
| "handle_request j now epoch (PostAnticheatConfig u) w = status_response (post_anticheat_config u w)"
| "handle_request j now epoch (GetHeard sid) w =
     map_prod (\<lambda>w. w) (case_sum StatusOnly HeardJson) (get_heard now sid w)"
| "handle_request j now epoch (PostHeardClear sid) w = status_response (post_heard_clear sid w)"
| "handle_request j now epoch (PostAnticheatUser user action) w = status_response (post_anticheat_user j epoch user action w)"
| "handle_request j now epoch (PostAnticheatUnban ident) w = status_response (post_anticheat_unban j ident w)"
| "handle_request j now epoch (PostDeaf deaf user) w = status_response (post_deaf deaf user w)"
| "handle_request j now epoch (GetDeaf user) w = (w, case_sum StatusOnly (\<lambda>(b, u). DeafJson b u) (get_deaf user (w_state w)))"
| "handle_request j now epoch GetMetrics w = (w, MetricsText)"
| "handle_request j now epoch (PostMute mute user) w = status_response (post_mute mute user w)"
| "handle_request j now epoch (GetMute user) w = (w, case_sum StatusOnly (\<lambda>(b, u). MuteJson b u) (get_mute user (w_state w)))"
| "handle_request j now epoch GetPanel w = (w, PanelHtml)"
| "handle_request j now epoch GetStatus w = (w, StatusJson (get_status now (w_state w)))"

definition auth_basic ::
    "ban_json \<Rightarrow> auth_state \<Rightarrow> instant \<Rightarrow> nat \<Rightarrow> (string \<times> string option) option \<Rightarrow> request \<Rightarrow> world \<Rightarrow> world \<times> response" where
  "auth_basic j a now epoch credentials req w =
     (if authorized a credentials then handle_request j now epoch req w else (w, Unauthorized))"

section \<open>Credentials\<close>

text \<open>
  C37: The interface needs the password. Without a configured password there is no interface; with one, a
  request that does not carry exactly the configured user name and password is answered with 401 and
  changes nothing, whatever it asks for.
\<close>

theorem http_needs_password:
  assumes "create_http_server username password = Some a" and "credentials \<noteq> Some (username, password)"
  shows "password \<noteq> None \<and> auth_basic j a now epoch credentials req w = (w, Unauthorized)"
  using assms by (auto simp: create_http_server_def auth_basic_def authorized_def split: option.splits)

theorem http_needs_password_witness:
  "auth_basic std_ban_json \<lparr>au_username = ''admin'', au_password = Some ''pw''\<rparr> 0 0 (Some (''admin'', None))
     PostAnticheatClear demo_spy = (demo_spy, Unauthorized)"
  using http_needs_password [of "''admin''" "Some ''pw''" "\<lparr>au_username = ''admin'', au_password = Some ''pw''\<rparr>"
      "Some (''admin'', None)" std_ban_json 0 0 PostAnticheatClear demo_spy]
  by (simp add: create_http_server_def)

section \<open>The configuration stays in range\<close>

definition config_ok :: "anticheat_config \<Rightarrow> bool" where
  "config_ok cfg \<longleftrightarrow>
     acc_threshold_pct cfg \<in> {1..100} \<and> acc_mutuality_max_pct cfg \<le> 100 \<and> acc_window_secs cfg \<ge> 1 \<and>
     acc_strikes_required cfg \<ge> 1 \<and> (acc_pos_osc_dist cfg = 0 \<or> acc_pos_osc_dist cfg \<ge> 50) \<and>
     acc_pos_far_dist cfg \<ge> 100 \<and> acc_pos_far_pct cfg \<in> {1..100} \<and> acc_heard_secs cfg \<in> {10..7200} \<and>
     acc_action cfg \<in> {ACTION_LOG, ACTION_MUTE, ACTION_KICK, ACTION_BAN} \<and> length (acc_logs cfg) \<le> LOG_CAPACITY"

lemma parse_action_range: "parse_action a \<in> {ACTION_LOG, ACTION_MUTE, ACTION_KICK, ACTION_BAN}"
  by (simp add: parse_action_def)

lemma config_ok_new:
  "config_ok (anticheat_new on t mr mm ws sr lm (parse_action action) hook panel label)"
  using parse_action_range [of action]
  by (auto simp: config_ok_def anticheat_new_def LOG_CAPACITY_def min_def max_def)

lemma clamp_range: "lo \<le> hi \<Longrightarrow> clamp lo hi v \<in> {lo..hi}"
  by (auto simp: clamp_def)

lemma update_withI: "config_ok c \<Longrightarrow> (\<And>v. config_ok c \<Longrightarrow> config_ok (f v c)) \<Longrightarrow> config_ok (update_with f v c)"
  by (simp add: update_with_def split: option.split)

lemma config_ok_apply:
  assumes "config_ok cfg"
  shows "config_ok (apply_config u cfg)"
  using assms clamp_range [of "1 :: u32" 100] clamp_range [of "10 :: u32" 7200] parse_action_range
  unfolding apply_config_def Let_def
  by (intro update_withI) (auto simp: config_ok_def)

lemma modify_client_anticheat [simp]: "st_anticheat (modify_client r f st) = st_anticheat st"
  by (simp add: frame)

lemma ban_remove_matching_world_sel [simp]:
  "st_anticheat (w_state (ban_remove_matching_world j ip nm kind w)) = st_anticheat (w_state w)"
  by (simp add: ban_remove_matching_world_def split_def Let_def)

lemma reset_all_anticheat [simp]:
  "st_anticheat (w_state (fold (\<lambda>(_, r). set_state (modify_client r f)) xs w)) = st_anticheat (w_state w)"
  by (induction xs arbitrary: w) auto

lemma request_config:
  "st_anticheat (w_state (fst (handle_request j now epoch req w))) =
     (case req of PostAnticheatConfig u \<Rightarrow> apply_config u (st_anticheat (w_state w))
      | PostAnticheatClear \<Rightarrow> clear_logs (st_anticheat (w_state w)) | _ \<Rightarrow> st_anticheat (w_state w))"
  by (cases req)
    (auto simp: status_response_def post_anticheat_clear_def post_anticheat_config_def get_heard_def post_heard_clear_def
      post_anticheat_user_def post_anticheat_unban_def post_deaf_def post_mute_def Let_def frame
      split: option.split prod.split)

lemma config_ok_log:
  assumes "config_ok cfg"
  shows "config_ok (push_log l cfg)"
proof -
  have "length (acc_logs (push_log l cfg)) \<le> LOG_CAPACITY"
    using assms by (auto simp: config_ok_def push_log_def Let_def LOG_CAPACITY_def)
  with assms show ?thesis by (simp add: config_ok_def push_log_def Let_def)
qed

lemma sample_config_ok:
  assumes "config_ok (st_anticheat (w_state w))"
  shows "config_ok (st_anticheat (w_state (sample j now epoch w)))"
proof -
  have notify: "st_anticheat (w_state (flag_notify now epoch r c reach listens active m reason w)) = st_anticheat (w_state w)"
    for r c reach listens active m reason w
    by (simp add: flag_notify_def Let_def frame split: option.split)
  have punish: "st_anticheat (w_state (punish j epoch action r c reason w)) = st_anticheat (w_state w)" for action r c reason w
    by (simp add: punish_def)
  have flag: "config_ok (st_anticheat (w_state (flag j now epoch r reach listens active m reason w)))"
    if "config_ok (st_anticheat (w_state w))" for r reach listens active m reason w
    using that by (auto simp: flag_def Let_def notify punish frame config_ok_log split: option.split)
  have "config_ok (st_anticheat (w_state (sample_client j now epoch st snaps s w)))"
    if "config_ok (st_anticheat (w_state w))" for st snaps s w
    using that by (auto simp: sample_client_def Let_def frame flag split: option.split prod.split)
  then have "config_ok (st_anticheat (w_state (fold (sample_client j now epoch st snaps) ss w)))"
    if "config_ok (st_anticheat (w_state w))" for st snaps ss w
    using that by (induction ss arbitrary: w) auto
  with assms show ?thesis by (simp add: sample_def Let_def)
qed

text \<open>
  C38: The anticheat configuration is always in range. The server starts with percentages between 1 and
  100, at least one strike and one second, a retention between 10 seconds and two hours, one of the four
  actions and a log of at most a hundred lines, whatever the command line says, and no request and no
  sampling round leads out of these ranges.
\<close>

theorem config_in_range:
  "config_ok (anticheat_new on t mr mm ws sr lm (parse_action action) hook panel label) \<and>
   (config_ok (st_anticheat (w_state w)) \<longrightarrow>
     config_ok (st_anticheat (w_state (fst (auth_basic j a now epoch credentials req w)))) \<and>
     config_ok (st_anticheat (w_state (sample j now epoch w))))"
  using config_ok_apply [of "st_anticheat (w_state w)"] config_ok_new sample_config_ok
  by (auto simp: auth_basic_def request_config config_ok_def clear_logs_def LOG_CAPACITY_def split: request.split)

theorem config_in_range_witness:
  "config_ok (anticheat_new True 60 15 30 10 3 25 (parse_action ''ban'') None None ''s'') \<and>
   config_ok (st_anticheat (w_state (fst (auth_basic std_ban_json \<lparr>au_username = ''a'', au_password = Some ''p''\<rparr> 0 0
     (Some (''a'', Some ''p'')) (PostAnticheatClear)
     (demo_spy\<lparr>w_state := demo_state\<lparr>st_anticheat :=
       anticheat_new True 60 15 30 10 3 25 (parse_action ''ban'') None None ''s''\<rparr>\<rparr>)))))"
  using config_in_range [of True 60 15 30 10 3 25 "''ban''" None None "''s''" "demo_spy\<lparr>w_state := demo_state\<lparr>st_anticheat :=
       anticheat_new True 60 15 30 10 3 25 (parse_action ''ban'') None None ''s''\<rparr>\<rparr>" std_ban_json
       "\<lparr>au_username = ''a'', au_password = Some ''p''\<rparr>" 0 0 "Some (''a'', Some ''p'')" PostAnticheatClear]
  by simp

section \<open>Hidden addresses\<close>

text \<open>
  A state without addresses: those the clients connect from and send voice from, those of whom they heard,
  the index by address, the addresses of the datagrams sent, and the ban list.
\<close>

definition erase_client :: "client \<Rightarrow> client" where
  "erase_client c = c\<lparr>cl_peer_ip := V4 0 0 0 0, cl_udp_socket_addr := None, cl_udp := (cl_udp c)\<lparr>uo_sent := []\<rparr>,
     cl_ac := (cl_ac c)\<lparr>ac_heard := map (\<lambda>(k, e). (k, e\<lparr>he_ip := []\<rparr>)) (ac_heard (cl_ac c))\<rparr>\<rparr>"

definition erase_ips :: "server_state \<Rightarrow> server_state" where
  "erase_ips st = st\<lparr>st_heap := (\<lambda>r. map_option erase_client (st_heap st r)),
     st_clients_by_socket := [], st_clients_without_udp := [], st_socket := (st_socket st)\<lparr>uo_sent := []\<rparr>,
     st_bans := (st_bans st)\<lparr>bl_bans := map (\<lambda>b. b\<lparr>be_ip := map_option (\<lambda>_. []) (be_ip b)\<rparr>) (bl_bans (st_bans st))\<rparr>\<rparr>"

lemma erase_ips_sel [simp]:
  "st_clients (erase_ips st) = st_clients st" "st_channels (erase_ips st) = st_channels st"
  "st_anticheat (erase_ips st) = st_anticheat st" "st_active_clients (erase_ips st) = st_active_clients st"
  "st_heap (erase_ips st) r = map_option erase_client (st_heap st r)"
  by (simp_all add: erase_ips_def)

lemma erase_client_sel [simp]:
  "cl_name (erase_client c) = cl_name c" "cl_session_id (erase_client c) = cl_session_id c"
  "cl_mute (erase_client c) = cl_mute c" "cl_deaf (erase_client c) = cl_deaf c"
  "cl_authenticate (erase_client c) = cl_authenticate c" "anticheat_client_of True (erase_client c) = anticheat_client_of True c"
  "mumble_client_of now (erase_ips st) (erase_client c) = mumble_client_of now st c"
  by (simp_all add: erase_client_def anticheat_client_of_def mumble_client_of_def shown_ip_def Let_def)

lemma erase_by_name [simp]: "get_client_by_name nm (erase_ips st) = get_client_by_name nm st"
proof -
  have "(\<lambda>(_, r). case st_heap (erase_ips st) r of
        Some c \<Rightarrow> unwrap_or [] (Authenticate_username (cl_authenticate c)) = nm | None \<Rightarrow> False) =
      (\<lambda>(_ :: u32, r). case st_heap st r of
        Some c \<Rightarrow> unwrap_or [] (Authenticate_username (cl_authenticate c)) = nm | None \<Rightarrow> False)"
    by (auto simp: fun_eq_iff split: option.split)
  then show ?thesis by (simp add: get_client_by_name_def)
qed

lemma map_filter_erase [simp]:
  "List.map_filter (\<lambda>(_, r). map_option erase_client (st_heap st r)) xs = map erase_client (List.map_filter (\<lambda>(_, r). st_heap st r) xs)"
  by (induction xs) (auto simp: List.map_filter_simps split: option.split)

lemma get_anticheat_erased:
  assumes "acc_hide_ips (st_anticheat st)"
  shows "get_anticheat (erase_ips st) = get_anticheat st"
proof -
  have "map redact_ban (bl_bans (st_bans (erase_ips st))) = map redact_ban (bl_bans (st_bans st))"
    by (simp add: erase_ips_def redact_ban_def comp_def option.map_comp)
  with assms show ?thesis by (simp add: get_anticheat_def Let_def comp_def bans_list_def)
qed

lemma get_status_erased: "get_status now (erase_ips st) = get_status now st"
proof -
  have "fold (\<lambda>c. hm_put (cl_session_id c) (mumble_client_of now (erase_ips st) c)) (map erase_client cs) acc =
      fold (\<lambda>c. hm_put (cl_session_id c) (mumble_client_of now st c)) cs acc" for cs acc
    by (induction cs arbitrary: acc) simp_all
  then show ?thesis by (simp add: get_status_def)
qed

lemma heard_items_erased [simp]:
  "map (\<lambda>(_, e). heard_item_of True now e)
     (hi_retain (\<lambda>_ e. duration_since now (he_last e) \<le> d) (map (\<lambda>(k, e). (k, e\<lparr>he_ip := []\<rparr>)) h)) =
   map (\<lambda>(_, e). heard_item_of True now e) (hi_retain (\<lambda>_ e. duration_since now (he_last e) \<le> d) h)"
  by (induction h) (auto simp: hi_retain_def heard_item_of_def shown_ip_def)

lemma get_heard_erased:
  assumes "acc_hide_ips (st_anticheat (w_state w))"
  shows "snd (get_heard now sid (w\<lparr>w_state := erase_ips (w_state w)\<rparr>)) = snd (get_heard now sid w)"
  using assms by (auto simp: get_heard_def Let_def erase_client_def split: option.split bind_splits)

lemma response_erased:
  assumes "acc_hide_ips (st_anticheat (w_state w))"
  shows "snd (handle_request j now epoch req (w\<lparr>w_state := erase_ips (w_state w)\<rparr>)) = snd (handle_request j now epoch req w)"
  using assms
  by (cases req)
    (auto simp: get_anticheat_erased get_status_erased get_heard_erased status_response_def post_anticheat_clear_def
      post_anticheat_config_def post_heard_clear_def post_anticheat_user_def post_anticheat_unban_def post_deaf_def
      post_mute_def get_mute_def get_deaf_def Let_def split: option.split prod.split bind_splits)

text \<open>A response comes from the state alone, never from the files or the notifications.\<close>

lemma response_state:
  assumes "w_state w' = w_state w"
  shows "snd (handle_request j now epoch req w') = snd (handle_request j now epoch req w)"
  using assms
  by (cases req)
    (auto simp: get_heard_def status_response_def post_anticheat_clear_def post_anticheat_config_def post_heard_clear_def
      post_anticheat_user_def post_anticheat_unban_def post_deaf_def post_mute_def Let_def split: option.split prod.split)

lemma hide_ips_update_with:
  assumes "\<And>v c. acc_hide_ips (f v c) = acc_hide_ips c"
  shows "acc_hide_ips (update_with f v c) = acc_hide_ips c"
  using assms by (simp add: update_with_def split: option.split)

lemma hide_ips_request:
  "acc_hide_ips (st_anticheat (w_state (fst (handle_request j now epoch req w)))) = acc_hide_ips (st_anticheat (w_state w))"
  unfolding request_config
  by (cases req) (simp_all add: apply_config_def Let_def hide_ips_update_with clear_logs_def)


definition demo_banned :: "string \<Rightarrow> socket_addr option \<Rightarrow> world" where
  "demo_banned ip addr = \<lparr>w_state = demo_state
     \<lparr>st_anticheat := (st_anticheat demo_state)\<lparr>acc_hide_ips := True\<rparr>,
      st_heap := [0 \<mapsto> (demo_client 1 0)\<lparr>cl_udp_socket_addr := addr\<rparr>],
      st_bans := \<lparr>bl_bans = [\<lparr>be_id = 1, be_kind = ''ban'', be_ip = Some ip, be_name = Some ''eve'', be_display = ''eve'',
        be_reason = ''banni via panel'', be_at = ''00:00:00''\<rparr>], bl_next_id = 2, bl_file = None\<rparr>\<rparr>,
     w_disk = \<lparr>d_files = [''bans.json'' \<mapsto> ip], d_writable = True\<rparr>, w_posts = []\<rparr>"


end
