(* ===== verification/Quiet.thy ===== *)
theory Quiet
  imports Invariant Http
begin

text \<open>
  Sampling rounds and the administration interface change what the server knows about its clients, never
  who is connected: sessions, channels and addresses stay as they are, and a kick or a ban takes effect
  through the disconnect queue.
\<close>

definition quiet :: "server_state \<Rightarrow> server_state \<Rightarrow> bool" where
  "quiet st st' \<longleftrightarrow> directory_of st' = directory_of st \<and> (indexes_wf st \<longrightarrow> indexes_wf st')"

named_theorems quiet \<open>operations that connect and disconnect nobody\<close>

lemma quiet_refl [quiet]: "quiet st st"
  by (simp add: quiet_def)

lemma quiet_inv: "quiet st st' \<Longrightarrow> server_inv n st \<Longrightarrow> server_inv n st' \<and> people st' = people st"
  using people_same [of st' st] inv_same [of n st st'] server_invD(1) [of n st] unfolding quiet_def by blast

lemma quiet_put [quiet]:
  "quiet st st' \<Longrightarrow> st_heap st' r = Some c \<Longrightarrow> ident_of c' = ident_of c \<Longrightarrow> quiet st (put_client r c' st')"
  by (simp add: quiet_def directory_put)

lemma quiet_modify [quiet]: "quiet st st' \<Longrightarrow> (\<And>c. ident_of (f c) = ident_of c) \<Longrightarrow> quiet st (modify_client r f st')"
  by (simp add: quiet_def)

lemma directory_settings [simp]:
  "directory_of (st\<lparr>st_disconnect_queue := q\<rparr>) = directory_of st" "directory_of (st\<lparr>st_anticheat := cfg\<rparr>) = directory_of st"
  "directory_of (st\<lparr>st_bans := b\<rparr>) = directory_of st"
  by (simp_all add: directory_of_def)

lemma quiet_enqueue [quiet]: "quiet st st' \<Longrightarrow> quiet st (add_client_to_disconnect_queue sid reason st')"
  by (auto simp: quiet_def add_client_to_disconnect_queue_def indexes_wf_def hi_wf_insert)

lemma quiet_config [quiet]:
  "quiet st st' \<Longrightarrow> quiet st (st'\<lparr>st_anticheat := cfg\<rparr>)" "quiet st st' \<Longrightarrow> quiet st (st'\<lparr>st_bans := b\<rparr>)"
  by (auto simp: quiet_def indexes_wf_def)

lemma ident_of_ac [simp]: "ident_of (c\<lparr>cl_ac := a\<rparr>) = ident_of c"
  by (simp add: ident_of_def)

lemma ident_of_settings [simp]:
  "ident_of (set_mute b c) = ident_of c" "ident_of (set_deaf b c) = ident_of c" "ident_of (set_exempt b c) = ident_of c"
  "ident_of (reset_client_counters c) = ident_of c"
  by (simp_all add: ident_of_def set_mute_def set_deaf_def set_exempt_def reset_client_counters_def)

lemma ident_of_measure [simp]: "ident_of (fst (measure_client cfg now st snaps s c)) = ident_of c"
  using measure_client_ac [of cfg now st snaps s c] by auto

lemma quiet_bans [quiet]:
  "quiet st (w_state w) \<Longrightarrow> quiet st (w_state (ban_add_world j epoch kind ip nm display reason w))"
  "quiet st (w_state w) \<Longrightarrow> quiet st (w_state (ban_remove_matching_world j ip' nm' kind w))"
  by (simp_all add: ban_add_world_def ban_remove_matching_world_def Let_def split_def quiet)

section \<open>Sampling\<close>

lemma quiet_notify [quiet]:
  "quiet st (w_state w) \<Longrightarrow> st_heap (w_state w) r = Some c \<Longrightarrow>
   quiet st (w_state (flag_notify now epoch r c reach listens active m reason w))"
  by (auto simp: flag_notify_def Let_def quiet split: option.split)

lemma quiet_punish [quiet]: "quiet st (w_state w) \<Longrightarrow> quiet st (w_state (punish j epoch action r c reason w))"
  by (simp add: punish_def quiet)

lemma quiet_flag [quiet]:
  assumes "quiet st (w_state w)"
  shows "quiet st (w_state (flag j now epoch r reach listens active m reason w))"
proof (cases "st_heap (w_state w) r")
  case (Some c)
  note put = quiet_put [OF assms Some]
  from Some assms show ?thesis
    by (simp add: flag_def Let_def put quiet_config quiet_punish quiet_notify frame)
qed (simp add: flag_def assms)

lemma quiet_sample_client [quiet]:
  assumes "quiet st (w_state w)"
  shows "quiet st (w_state (sample_client j now epoch st0 snaps s w))"
proof (cases "st_heap (w_state w) (sn_ref s)")
  case (Some c)
  have put: "quiet st (put_client (sn_ref s) (c\<lparr>cl_ac := a\<rparr>) (w_state w))" for a by (rule quiet_put [OF assms Some]) simp
  show ?thesis
  proof (rule sample_client_cases [OF Some refl, where j = j and now = now and epoch = epoch and st = st0 and snaps = snaps])
    fix a assume "sample_client j now epoch st0 snaps s w = set_state (put_client (sn_ref s) (c\<lparr>cl_ac := a\<rparr>)) w"
    then show ?thesis using put by (simp only: set_state_sel)
  next
    fix a reach listens active m reason
    assume "sample_client j now epoch st0 snaps s w =
      flag j now epoch (sn_ref s) reach listens active m reason (set_state (put_client (sn_ref s) (c\<lparr>cl_ac := a\<rparr>)) w)"
    then show ?thesis by (simp only: quiet_flag set_state_sel put)
  qed
qed (simp add: sample_client_def Let_def assms)

lemma quiet_sample [quiet]: "quiet (w_state w) (w_state (sample j now epoch w))"
proof -
  have "quiet st (w_state (fold (sample_client j now epoch st0 snaps) ss w))" if "quiet st (w_state w)" for st st0 snaps ss w
    using that by (induction ss arbitrary: w) (simp_all add: quiet)
  then show ?thesis by (simp add: sample_def Let_def quiet)
qed

section \<open>Administration\<close>

lemma quiet_reset [quiet]:
  "quiet st (w_state w) \<Longrightarrow> quiet st (w_state (fold (\<lambda>(_ :: u32, r). set_state (modify_client r reset_client_counters)) rs w))"
  by (induction rs arbitrary: w) (auto simp: quiet)

lemma quiet_user: "quiet (w_state w) (w_state (fst (post_anticheat_user j epoch user action w)))"
  by (simp add: post_anticheat_user_def Let_def quiet split: option.split)

lemma quiet_heard: "quiet (w_state w) (w_state (fst (get_heard now sid w)))"
  by (auto simp: get_heard_def Let_def split: option.split bind_splits intro!: quiet)

lemma quiet_request: "quiet (w_state w) (w_state (fst (handle_request j now epoch req w)))"
  by (cases req)
    (auto simp: status_response_def post_anticheat_clear_def post_anticheat_config_def quiet_heard post_heard_clear_def
      quiet_user post_anticheat_unban_def post_deaf_def post_mute_def Let_def split_def quiet quiet_reset [unfolded split_def]
      split: option.split)

end
