(* ===== verification/Reach.thy ===== *)
theory Reach
  imports Quiet
begin

text \<open>
  The server as a transition system: connections, frames, queued messages, datagrams, clean-up runs,
  anticheat rounds and administration requests in any order, with \<open>disconnect\<close> interleaved between its
  lookup and its removal. Every reachable state satisfies the invariant of \<open>Invariant\<close>.
\<close>

section \<open>Steps\<close>

text \<open>
  A configuration: the state, the calls of \<open>disconnect\<close> that have looked up their client and not yet
  removed it, and the number of clients admitted so far.
\<close>

type_synonym config = "server_state \<times> (u32 \<times> cref option) list \<times> nat"

text \<open>An object is freed when neither the state nor a running call holds an \<open>Arc\<close> of it.\<close>

definition unreferenced :: "cref \<Rightarrow> server_state \<Rightarrow> (u32 \<times> cref option) list \<Rightarrow> bool" where
  "unreferenced r st pend \<longleftrightarrow>
     r \<notin> snd ` set (st_clients st) \<and> Some r \<notin> snd ` set pend \<and>
     (\<forall>ch \<in> snd ` set (st_channels st). r \<notin> snd ` set (ch_clients ch) \<and> r \<notin> snd ` set (ch_listeners ch))"

definition issued :: "nat \<Rightarrow> u32 \<Rightarrow> bool" where
  "issued n sid \<longleftrightarrow> 0 < unat sid \<and> unat sid \<le> n"

inductive step :: "ext \<Rightarrow> Version \<Rightarrow> config \<Rightarrow> config \<Rightarrow> bool" for x v where
  Refuse: "admit x v cn st = (st', Refused e) \<Longrightarrow> step x v (st, pend, n) (st', pend, n)"
| Connect: "admit x v cn st = (st', Admitted r rest) \<Longrightarrow> step x v (st, pend, n) (st', pend, n + 1)"
| Start: "step x v (st, pend, n) (fst (client_start x r st), pend, n)"
| Frame: "snd (handle_stream_read x now stream r st) = Returns out \<Longrightarrow>
    step x v (st, pend, n) (fst (count_bad r out), pend, n)"
| Consume: "step x v (st, pend, n) (fst (consume x now r st), pend, n)"
| Datagram: "step x v (st, pend, n) (udp_server_run x now pv datagram addr st, pend, n)"
| Clean: "step x v (st, pend, n) (clean_run x now st, pend, n)"
| Enqueue: "issued n sid \<Longrightarrow> step x v (st, pend, n) (add_client_to_disconnect_queue sid reason st, pend, n)"
| Lookup: "issued n sid \<Longrightarrow> step x v (st, pend, n) (st, (sid, disconnect_lookup sid st) # pend, n)"
| Commit: "(sid, found) \<in> set pend \<Longrightarrow>
    step x v (st, pend, n) (disconnect_commit x sid found st, remove1 (sid, found) pend, n)"
| Close: "step x v (st, pend, n)
    (modify_client r (\<lambda>c. c\<lparr>cl_publisher := (cl_publisher c)\<lparr>pub_closed := True\<rparr>\<rparr>) st, pend, n)"
| Shutdown: "r \<in> set (st_shutdown st) \<Longrightarrow> step x v (st, pend, n) (run_shutdown r st, pend, n)"
| Sample: "w_state w = st \<Longrightarrow> step x v (st, pend, n) (w_state (sample j now epoch w), pend, n)"
| Request: "w_state w = st \<Longrightarrow>
    step x v (st, pend, n) (w_state (fst (auth_basic j a now epoch credentials req w)), pend, n)"
| Free: "unreferenced r st pend \<Longrightarrow> step x v (st, pend, n) (st\<lparr>st_heap := (st_heap st)(r := None)\<rparr>, pend, n)"

inductive reachable :: "ext \<Rightarrow> Version \<Rightarrow> config \<Rightarrow> bool" for x v where
  Init: "reachable x v (state_new x sock pos restrict ac bans, [], 0)"
| Step: "reachable x v cf \<Longrightarrow> step x v cf cf' \<Longrightarrow> reachable x v cf'"

definition config_inv :: "config \<Rightarrow> bool" where
  "config_inv cf \<longleftrightarrow> (case cf of (st, pend, n) \<Rightarrow> server_inv n st \<and>
     (\<forall>(sid, found) \<in> set pend. issued n sid \<and> pending_ok (directory_of st) (sid, found)))"

lemma pending_people:
  "pending_ok (directory_of st) (sid, found) \<longleftrightarrow>
     (case found of None \<Rightarrow> fst (people st) sid = None | Some r \<Rightarrow> snd (people st) r = Some sid)"
  by (simp add: pending_ok_def people_directory split: option.split)

lemma pending_thins:
  "thins (people st) (people st') \<Longrightarrow> pending_ok (directory_of st) p \<Longrightarrow> pending_ok (directory_of st') p"
  by (cases p) (force simp: pending_people thins_def map_le_def dom_def split: option.splits)

text \<open>A step that admits nobody: the invariant is kept and sessions are only removed.\<close>

lemma config_thins:
  assumes "config_inv (st, pend, n)" and "server_inv n st'" and "thins (people st) (people st')"
    and "set pend' \<subseteq> set pend"
  shows "config_inv (st', pend', n)"
  using assms pending_thins [OF assms(3)] by (fastforce simp: config_inv_def)

lemma config_same:
  assumes "config_inv (st, pend, n)" and "server_inv n st'" and "people st' = people st"
  shows "config_inv (st', pend, n)"
  using config_thins [OF assms(1,2)] assms(3) by simp

lemma server_inv_new: "server_inv 0 (state_new x sock pos restrict ac bans)"
proof -
  let ?root = "channel_new 0 (Some 0) ''Root'' ''Root channel'' False"
  have root: "ch_id ?root = 0" "ch_clients ?root = []" "ch_listeners ?root = []" "\<not> ch_temporary ?root"
    by (simp_all add: channel_new_def)
  have get: "hi_get [] k = None" for k :: 'k by (simp add: hi_get_def)
  have "channels_wf (hi_insert 0 ?root [])"
    using root by (intro channels_wf_insert) (simp_all add: channels_wf_def)
  moreover have "chan_ok os (\<lambda>k. map_option members_of (hi_get (hi_insert 0 ?root []) k))" for os
    using root by (auto simp: chan_ok_def members_ok_def hi_get_insert get)
  ultimately show ?thesis
    by (auto simp: server_inv_def state_new_def indexes_wf_def dir_inv_def sess_ok_def sock_ok_def members_ok_def
        obj_session_def obj_socket_def directory_of_def get dom_def)
qed

lemma config_connect:
  assumes "config_inv (st, pend, n)" and "n + 1 < 2 ^ 32" and "admit x v cn st = (st', Admitted r rest)"
  shows "config_inv (st', pend, n + 1)"
proof -
  define sid where "sid = (word_of_nat (n + 1) :: u32)"
  have u: "unat sid = n + 1" using assms(2) by (simp add: sid_def unat_of_nat del: of_nat_Suc)
  have "server_inv n st" using assms(1) by (simp add: config_inv_def)
  from inv_admit [OF this assms(2,3) sid_def]
  have new: "server_inv (n + 1) st'" "snd (people st) r = None"
    "people st' = ((fst (people st))(sid \<mapsto> r), (snd (people st))(r \<mapsto> sid))" by auto
  have "issued (n + 1) s \<and> pending_ok (directory_of st') (s, found)" if "(s, found) \<in> set pend" for s found
  proof -
    from assms(1) that have ok: "issued n s" "pending_ok (directory_of st) (s, found)" by (auto simp: config_inv_def)
    then have "s \<noteq> sid" using u by (auto simp: issued_def)
    with ok new(2,3) show ?thesis by (auto simp: pending_people issued_def split: option.splits)
  qed
  with new(1) show ?thesis by (auto simp: config_inv_def)
qed

lemma config_lookup:
  "config_inv (st, pend, n) \<Longrightarrow> issued n sid \<Longrightarrow> config_inv (st, (sid, disconnect_lookup sid st) # pend, n)"
  by (auto simp: config_inv_def pending_ok_lookup)

lemma config_commit:
  assumes "config_inv (st, pend, n)" and "(sid, found) \<in> set pend"
  shows "config_inv (disconnect_commit x sid found st, remove1 (sid, found) pend, n)"
proof (rule config_thins [OF assms(1)])
  have st: "server_inv n st" "pending_ok (directory_of st) (sid, found)" using assms by (auto simp: config_inv_def)
  show "server_inv n (disconnect_commit x sid found st)" using st by (rule inv_commit)
  show "thins (people st) (people (disconnect_commit x sid found st))" using st(1) by (rule thins_commit)
qed (rule set_remove1_subset)

lemma hi_get_value: "hi_wf xs \<Longrightarrow> v \<notin> snd ` set xs \<Longrightarrow> hi_get xs k \<noteq> Some v"
  by (metis hi_get_eq_Some_iff image_eqI snd_conv)

lemma unreferencedD:
  assumes "unreferenced r st pend" and "indexes_wf st"
  shows "hi_get (st_clients st) sid \<noteq> Some r" and "(sid, Some r) \<notin> set pend"
    and "d_channels (directory_of st) k = Some m \<Longrightarrow> m_clients m sid \<noteq> Some r \<and> m_listeners m sid \<noteq> Some r"
proof -
  note wf = indexes_wfD [OF assms(2)]
  show "hi_get (st_clients st) sid \<noteq> Some r"
    using assms(1) wf by (intro hi_get_value) (auto simp: unreferenced_def)
  show "(sid, Some r) \<notin> set pend" using assms(1) by (force simp: unreferenced_def)
  assume "d_channels (directory_of st) k = Some m"
  then obtain ch where ch: "hi_get (st_channels st) k = Some ch" "m = members_of ch" by auto
  with wf have "(k, ch) \<in> set (st_channels st)" by (simp add: hi_get_eq_Some_iff channels_wf_def)
  then have "ch \<in> snd ` set (st_channels st)" by (metis image_eqI snd_conv)
  with assms(1) have "r \<notin> snd ` set (ch_clients ch)" "r \<notin> snd ` set (ch_listeners ch)"
    unfolding unreferenced_def by blast+
  moreover have "hi_wf (ch_clients ch)" "hi_wf (ch_listeners ch)" using channels_wf_get ch(1) wf by blast+
  ultimately show "m_clients m sid \<noteq> Some r \<and> m_listeners m sid \<noteq> Some r"
    by (simp add: ch(2) members_of_def hi_get_value)
qed

lemma dir_free_inv:
  assumes "dir_inv n d" and "\<And>sid. d_sessions d sid \<noteq> Some r"
    and "\<And>k m sid. d_channels d k = Some m \<Longrightarrow> m_clients m sid \<noteq> Some r \<and> m_listeners m sid \<noteq> Some r"
  shows "dir_inv n (d\<lparr>d_objects := (d_objects d)(r := None)\<rparr>)"
proof -
  let ?d = "d\<lparr>d_objects := (d_objects d)(r := None)\<rparr>"
  note inv = dir_invD [OF assms(1)]
  have os: "obj_session ?d = (obj_session d)(r := None)" "obj_socket ?d = (obj_socket d)(r := None)"
    by (auto simp: obj_session_def obj_socket_def)
  have members: "members_ok ((obj_session d)(r := None)) refs" if "members_ok (obj_session d) refs" "\<And>sid. refs sid \<noteq> Some r" for refs
    using that by (auto simp: members_ok_def)
  have "sess_ok n (d_sessions d) ((obj_session d)(r := None)) (d_active d) (d_session_count d) (d_next d)"
    using inv(1) assms(2) members by (auto simp: sess_ok_def)
  moreover have "chan_ok ((obj_session d)(r := None)) (d_channels d)"
    using inv(2) assms(3) members unfolding chan_ok_def by blast
  moreover have "sock_ok (d_sessions d) ((obj_session d)(r := None)) ((obj_socket d)(r := None)) (d_without_udp d) (d_sockets d)"
  proof (rule sock_okI)
    fix a q assume "d_sockets d a = Some q"
    moreover from sock_okD(3) [OF inv(3) this] assms(2) have "q \<noteq> r" by auto
    ultimately show "((obj_socket d)(r := None)) q = Some a"
      "\<exists>sid. ((obj_session d)(r := None)) q = Some sid \<and> d_sessions d sid = Some q"
      using sock_okD(2,3) [OF inv(3), of a q] by simp_all
  next
    fix sid q assume q: "d_sessions d sid = Some q"
    with assms(2) have "q \<noteq> r" by auto
    then show "((obj_socket d)(r := None)) q = Some a \<Longrightarrow> d_sockets d a = Some q \<and> d_without_udp d sid = None"
      "((obj_socket d)(r := None)) q = None \<Longrightarrow> d_without_udp d sid = Some q" for a
      using sock_okD(4,5) [OF inv(3) q] by simp_all
  qed (rule sock_okD(1) [OF inv(3)])
  ultimately show ?thesis unfolding dir_inv_def os by simp
qed

lemma config_free:
  assumes "config_inv (st, pend, n)" and "unreferenced r st pend"
  shows "config_inv (st\<lparr>st_heap := (st_heap st)(r := None)\<rparr>, pend, n)"
proof -
  let ?st = "st\<lparr>st_heap := (st_heap st)(r := None)\<rparr>"
  have st: "server_inv n st" using assms(1) by (simp add: config_inv_def)
  note free = unreferencedD [OF assms(2) server_invD(1) [OF st]]
  have d: "directory_of ?st = (directory_of st)\<lparr>d_objects := (d_objects (directory_of st))(r := None)\<rparr>"
    by (auto simp: directory_of_def)
  have "server_inv n ?st"
    using st dir_free_inv [OF server_invD(2) [OF st], of r] free(1,3) unfolding server_inv_def d
    by (auto simp: indexes_wf_def)
  moreover have "pending_ok (directory_of ?st) (sid, found)" if "(sid, found) \<in> set pend" "pending_ok (directory_of st) (sid, found)" for sid found
    using that free(2) [of sid] by (auto simp: d pending_ok_def obj_session_def split: option.splits)
  ultimately show ?thesis using assms(1) by (auto simp: config_inv_def)
qed

lemma step_inv:
  assumes "step x v (st, pend, n) (st', pend', n')" and "config_inv (st, pend, n)" and "n' < 2 ^ 32"
  shows "config_inv (st', pend', n')"
proof -
  have st: "server_inv n st" using assms(2) by (simp add: config_inv_def)
  note same = config_same [OF assms(2)]
  from assms(1) show ?thesis
  proof (cases rule: step.cases)
    case (Refuse cn e)
    then have "st' = st"
      by (auto simp: admit_def enter_client_def Let_def split: prod.splits sum.splits if_splits option.splits)
    with Refuse assms(2) show ?thesis by simp
  next
    case (Connect cn r rest)
    with config_connect [OF assms(2) _ Connect(3)] assms(3) show ?thesis by simp
  next
    case (Start r)
    then show ?thesis using harmless_start [OF st, of x r] by (simp add: harmless_def same)
  next
    case (Frame now stream r out)
    then have "server_inv n (fst out)" "people (fst out) = people st"
      using inv_stream_read [OF st, of x now stream r] people_stream_read [of st x now stream r] by simp_all
    with Frame show ?thesis by (simp add: inv_count_bad people_count_bad same)
  next
    case Consume
    then show ?thesis by (simp add: st inv_consume people_consume same)
  next
    case Datagram
    then show ?thesis using inv_packet [OF st] by (simp add: udp_server_run_def same)
  next
    case Clean
    then show ?thesis using config_thins [OF assms(2) inv_clean [OF st]] by simp
  next
    case (Enqueue sid reason)
    then show ?thesis
      using inv_irrelevant(2) [OF st] indexes_wfD [OF server_invD(1) [OF st]]
      by (simp add: add_client_to_disconnect_queue_def hi_wf_insert same)
  next
    case (Lookup sid)
    then show ?thesis using config_lookup [OF assms(2)] by simp
  next
    case (Commit sid found)
    then show ?thesis using config_commit [OF assms(2)] by simp
  next
    case Close
    then show ?thesis by (simp add: account_cong st inv_modify people_modify same)
  next
    case (Shutdown r)
    then show ?thesis by (simp add: run_shutdown_def ident_of_def st inv_irrelevant inv_modify people_modify same)
  next
    case (Sample w j now epoch)
    then show ?thesis using quiet_inv [OF quiet_sample st [folded Sample(4)]] by (simp add: same)
  next
    case (Request w j a now epoch credentials req)
    then show ?thesis using quiet_inv [OF quiet_request st [folded Request(4)]] assms(2) by (simp add: same auth_basic_def)
  next
    case (Free r)
    then show ?thesis using config_free [OF assms(2)] by simp
  qed
qed

lemma reachable_inv:
  assumes "reachable x v cf" and "snd (snd cf) < 2 ^ 32"
  shows "config_inv cf"
  using assms
proof (induction rule: reachable.induct)
  case Init
  then show ?case by (simp add: config_inv_def server_inv_new)
next
  case (Step cf cf')
  obtain st pend n st' pend' n' where cf: "cf = (st, pend, n)" "cf' = (st', pend', n')" by (cases cf, cases cf')
  from Step.hyps(2) have "n \<le> n'" unfolding cf by cases auto
  with Step.IH Step.prems step_inv Step.hyps(2) show ?case unfolding cf by auto
qed

lemma reachable_server_inv: "reachable x v (st, pend, n) \<Longrightarrow> n < 2 ^ 32 \<Longrightarrow> server_inv n st"
  using reachable_inv [of x v "(st, pend, n)"] by (simp add: config_inv_def)

definition demo_connection :: connection where
  "demo_connection = \<lparr>cn_version_in_time = True, cn_auth_in_time = True, cn_key = replicate 16 7, cn_now = 0,
     cn_epoch = 0, cn_writer = \<lparr>tw_sent = [], tw_error = None, tw_cancel_first = True\<rparr>,
     cn_udp = \<lparr>uo_sent = [], uo_result = UdpSent\<rparr>, cn_peer_ip = V4 10 0 0 1,
     cn_stream = get_mumble_buffer KVersion [] @ get_mumble_buffer KAuthenticate []\<rparr>"

definition demo_new :: server_state where
  "demo_new = state_new std_ext \<lparr>uo_sent = [], uo_result = UdpSent\<rparr> False None
       (anticheat_new True 50 15 20 10 3 0 0 None None ''s'') \<lparr>bl_bans = [], bl_next_id = 1, bl_file = None\<rparr>"

lemma demo_init: "isl (snd (client_init std_ext True True (replicate 16 7) 0 Version_new
    \<lparr>tw_sent = [], tw_error = None, tw_cancel_first = True\<rparr>
    (get_mumble_buffer KVersion [] @ get_mumble_buffer KAuthenticate []))) = False"
  by code_simp

lemma demo_admitted:
  obtains st r rest where "admit std_ext Version_new demo_connection demo_new = (st, Admitted r rest)"
proof -
  obtain st out where admit: "admit std_ext Version_new demo_connection demo_new = (st, out)" by fastforce
  have "out \<noteq> Refused e" for e
  proof
    assume "out = Refused e"
    with admit have "isl (snd (client_init std_ext True True (replicate 16 7) 0 Version_new
      \<lparr>tw_sent = [], tw_error = None, tw_cancel_first = True\<rparr>
      (get_mumble_buffer KVersion [] @ get_mumble_buffer KAuthenticate [])))"
      by (auto simp: admit_def demo_connection_def demo_new_def state_new_def unofficial_def is_banned_def enter_client_def Let_def
        split: prod.splits sum.splits option.splits)
    with demo_init show False by simp
  qed
  with inv_admit [OF _ _ admit refl, of 0] that admit show thesis by (auto simp: demo_new_def server_inv_new)
qed

lemma demo_reachable:
  "\<exists>st r c. reachable std_ext Version_new (st, [], 1) \<and> people st = ([1 \<mapsto> r], [r \<mapsto> 1]) \<and>
     st_heap st r = Some c \<and> cl_last_udp_ping c = 0 \<and> \<not> pub_closed (cl_publisher c) \<and> st_disconnect_queue st = []"
proof -
  have init: "reachable std_ext Version_new (demo_new, [], 0)" unfolding demo_new_def by (rule Init)
  have inv: "server_inv 0 demo_new" by (simp add: demo_new_def server_inv_new)
  obtain st r rest where admit: "admit std_ext Version_new demo_connection demo_new = (st, Admitted r rest)"
    by (rule demo_admitted)
  have "reachable std_ext Version_new (st, [], 1)"
    using reachable.Step [OF init step.Connect [OF admit]] by simp
  moreover have "people demo_new = (Map.empty, Map.empty)" "st_disconnect_queue demo_new = []"
    by (simp_all add: people_def session_of_def demo_new_def state_new_def hi_get_def fun_eq_iff)
  moreover obtain w ver auth k where "enter_client demo_connection w ver auth k rest demo_new = (st, Admitted r rest)"
    using admitD [OF admit] by blast
  ultimately show ?thesis
    using inv_admit [OF inv _ admit refl] enter_client_new [OF inv, of demo_connection _ _ _ _ rest st r rest]
    by (fastforce simp: demo_connection_def)
qed

lemma people_commit:
  assumes "server_inv n st"
  shows "fst (people (disconnect_commit x sid found st)) = (fst (people st))(sid := None)"
proof -
  have "d_sessions (dir_commit sid found d) = (d_sessions d)(sid := None)" for d
    by (auto simp: dir_commit_def dir_close_def dir_leave_def Let_def split: option.split)
  then show ?thesis
    using directory_commit [OF server_invD(3) [OF assms], of x sid found] by (simp add: people_directory)
qed

lemma card_issued:
  assumes "\<And>sid. sid \<in> S \<Longrightarrow> issued n sid"
  shows "card S \<le> n"
proof -
  have "inj_on unat S" by (rule inj_onI) (rule word_unat_eq_iff [THEN iffD2])
  then have "card S = card (unat ` S)" by (rule card_image [symmetric])
  also have "\<dots> \<le> card {1..n}" using assms by (intro card_mono) (auto simp: issued_def Suc_le_eq)
  finally show ?thesis by simp
qed

lemma hi_card: "hi_wf xs \<Longrightarrow> card (dom (hi_get xs)) = length xs"
proof -
  assume wf: "hi_wf xs"
  then have "dom (hi_get xs) = set (map fst xs)" by (force simp: dom_def hi_get_eq_Some_iff)
  with wf show ?thesis by (simp add: hi_wf_def distinct_card del: set_map)
qed

text \<open>
  C2: The number of active clients is exact. In whatever order connections, messages, datagrams,
  clean-up runs and concurrent disconnects of the same session interleave, \<open>active_clients\<close> is the
  number of connected clients: no client is counted off twice.
\<close>

theorem active_clients_exact:
  assumes "reachable x v (st, pend, n)" and "n < 2 ^ 32"
  shows "unat (st_active_clients st) = length (st_clients st)"
proof -
  have inv: "server_inv n st" by (rule reachable_server_inv [OF assms(1,2)])
  note ok = sess_okD [OF dir_invD(1) [OF server_invD(2) [OF inv]]]
  have "issued n sid" if "hi_get (st_clients st) sid = Some r" for sid r
    using members_okD [OF ok(1), of sid r] that ok(5) [of r sid] by (auto simp: issued_def)
  then have "card (dom (hi_get (st_clients st))) \<le> n" by (intro card_issued) auto
  with assms(2) have "card (dom (hi_get (st_clients st))) < 2 ^ 32" by simp
  with ok(3) have "unat (st_active_clients st) = card (dom (hi_get (st_clients st)))"
    by (simp add: unat_of_nat)
  then show ?thesis using indexes_wfD [OF server_invD(1) [OF inv]] by (simp add: hi_card)
qed

theorem active_clients_exact_witness:
  "\<exists>st pend. reachable std_ext Version_new (st, pend, 1) \<and> length pend = 1 \<and> st_active_clients st = 0"
proof -
  obtain st r where st: "reachable std_ext Version_new (st, [], 1)" "people st = ([1 \<mapsto> r], [r \<mapsto> 1])"
    using demo_reachable by blast
  let ?p = "(1, disconnect_lookup 1 st)" and ?st = "disconnect_commit std_ext 1 (disconnect_lookup 1 st) st"
  have one: "issued 1 1" by (simp add: issued_def)
  have "reachable std_ext Version_new (st, [?p], 1)" using st(1) step.Lookup [OF one] by (rule reachable.Step)
  then have "reachable std_ext Version_new (st, [?p, ?p], 1)" using step.Lookup [OF one] by (rule reachable.Step)
  then have r: "reachable std_ext Version_new (?st, [?p], 1)"
    using step.Commit [of 1 "disconnect_lookup 1 st" "[?p, ?p]" std_ext Version_new st 1] by (auto intro: reachable.Step)
  have "server_inv 1 st" using reachable_server_inv [OF st(1)] by simp
  from people_commit [OF this, of std_ext 1] st(2) have "hi_get (st_clients ?st) = Map.empty"
    by (auto simp: people_def fun_eq_iff)
  then have "st_clients ?st = []" by (cases "st_clients ?st") (auto simp: hi_get_def fun_eq_iff split: if_splits)
  with active_clients_exact [OF r] r show ?thesis by (intro exI [of _ ?st] exI [of _ "[?p]"]) (simp add: unat_eq_zero)
qed

text \<open>
  C5: UDP addresses. In every reachable state the root channel exists, a connected client with a UDP
  address is found by it and is not searched for by decryption, one without is searched for, and an
  address leads to a connected client that has this address, never to one that has left.
\<close>

theorem udp_addresses_exact:
  assumes "reachable x v (st, pend, n)" and "n < 2 ^ 32"
  shows "(\<exists>ch. hi_get (st_channels st) 0 = Some ch \<and> \<not> ch_temporary ch) \<and>
    (\<forall>sid r. hi_get (st_clients st) sid = Some r \<longrightarrow> (\<exists>c. st_heap st r = Some c \<and> cl_session_id c = sid \<and>
       (case cl_udp_socket_addr c of
          Some a \<Rightarrow> get_client_by_socket a st = Some r \<and> hi_get (st_clients_without_udp st) sid = None
        | None \<Rightarrow> hi_get (st_clients_without_udp st) sid = Some r))) \<and>
    (\<forall>a r. get_client_by_socket a st = Some r \<longrightarrow> (\<exists>c. st_heap st r = Some c \<and> cl_udp_socket_addr c = Some a \<and>
       hi_get (st_clients st) (cl_session_id c) = Some r))"
proof (intro conjI allI impI)
  have inv: "server_inv n st" by (rule reachable_server_inv [OF assms(1,2)])
  note ok = dir_invD [OF server_invD(2) [OF inv]]
  show "\<exists>ch. hi_get (st_channels st) 0 = Some ch \<and> \<not> ch_temporary ch"
    using ok(2) by (auto simp: chan_ok_def members_of_def)
  fix sid r assume sid: "hi_get (st_clients st) sid = Some r"
  with inv obtain c where c: "st_heap st r = Some c" "cl_session_id c = sid" by (rule inv_session)
  with sid show "\<exists>c. st_heap st r = Some c \<and> cl_session_id c = sid \<and>
     (case cl_udp_socket_addr c of
        Some a \<Rightarrow> get_client_by_socket a st = Some r \<and> hi_get (st_clients_without_udp st) sid = None
      | None \<Rightarrow> hi_get (st_clients_without_udp st) sid = Some r)"
    using sock_okD(4,5) [OF ok(3), of sid r]
    by (auto simp: by_socket_eq [OF inv] obj_socket_state split: option.split)
next
  have inv: "server_inv n st" by (rule reachable_server_inv [OF assms(1,2)])
  fix a r assume "get_client_by_socket a st = Some r"
  then have a: "hi_get (st_clients_by_socket st) a = Some r" by (simp add: by_socket_eq [OF inv])
  with inv obtain c where "st_heap st r = Some c" "hi_get (st_clients st) (cl_session_id c) = Some r"
    by (rule inv_known)
  then show "\<exists>c. st_heap st r = Some c \<and> cl_udp_socket_addr c = Some a \<and> hi_get (st_clients st) (cl_session_id c) = Some r"
    using sock_okD(2) [OF dir_invD(3) [OF server_invD(2) [OF inv]], of a r] a by (auto simp: obj_socket_state)
qed

theorem udp_addresses_exact_witness:
  "\<exists>st r. reachable std_ext Version_new (st, [], 1) \<and> hi_get (st_clients st) 1 = Some r \<and>
    (\<exists>ch. hi_get (st_channels st) 0 = Some ch)"
proof -
  obtain st r where st: "reachable std_ext Version_new (st, [], 1)" "people st = ([1 \<mapsto> r], [r \<mapsto> 1])"
    using demo_reachable by blast
  with udp_addresses_exact [OF st(1)] show ?thesis by (auto simp: people_def)
qed

section \<open>Cleaning up\<close>

lemma people_disconnects:
  "server_inv n st \<Longrightarrow> fst (people (fold (\<lambda>(sid, reason). disconnect x sid reason) ds st)) s =
     (if s \<in> fst ` set ds then None else fst (people st) s)"
proof (induction ds arbitrary: st)
  case (Cons d ds)
  obtain sid reason where d: "d = (sid, reason)" by (cases d)
  have "server_inv n (disconnect x sid reason st)" using Cons.prems by (rule inv_disconnect)
  moreover have "fst (people (disconnect x sid reason st)) = (fst (people st))(sid := None)"
    unfolding disconnect_def using Cons.prems by (rule people_commit)
  ultimately show ?case using Cons.IH by (simp add: d)
qed simp

lemma hi_contains_keys: "hi_contains m k \<longleftrightarrow> k \<in> fst ` set m"
  by (auto simp: hi_contains_def hi_get_def dom_map_of_conv_image_fst [symmetric] domIff)

lemma fst_hi_insert [simp]: "fst ` set (hi_insert k v m) = insert k (fst ` set m)"
  by (auto simp: hi_insert_def hi_contains_keys)

lemma queued_keys: "fst ` set (fold (\<lambda>(sid, reason). hi_insert sid reason) q acc) = fst ` set q \<union> fst ` set acc"
proof (induction q arbitrary: acc)
  case (Cons e q)
  then show ?case by (cases e) (simp del: set_map)
qed simp

lemma inspected_keys:
  "fst ` set (fold (\<lambda>(_, r) acc. case st_heap st r of
         Some c \<Rightarrow> (case inspect now c of Remove reason \<Rightarrow> hi_insert (cl_session_id c) reason acc | _ \<Rightarrow> acc)
       | None \<Rightarrow> acc) xs acc) =
   {cl_session_id c |k r c reason. (k, r) \<in> set xs \<and> st_heap st r = Some c \<and> inspect now c = Remove reason} \<union> fst ` set acc"
proof (induction xs arbitrary: acc)
  case (Cons e xs)
  obtain k r where e: "e = (k, r)" by (cases e)
  let ?rest = "{cl_session_id c |k r c reason. (k, r) \<in> set xs \<and> st_heap st r = Some c \<and> inspect now c = Remove reason}"
  have "{cl_session_id c |k r c reason. (k, r) \<in> set (e # xs) \<and> st_heap st r = Some c \<and> inspect now c = Remove reason} =
      (case st_heap st r of Some c \<Rightarrow> (case inspect now c of Remove reason \<Rightarrow> insert (cl_session_id c) ?rest | _ \<Rightarrow> ?rest)
       | None \<Rightarrow> ?rest)"
    unfolding e by (auto split: option.split verdict.split)
  then show ?case by (simp add: e Cons.IH split: option.split verdict.split)
qed simp

lemma to_remove_iff:
  assumes "server_inv n st" and "hi_get (st_clients st) s = Some r" and "st_heap st r = Some c"
  shows "s \<in> fst ` set (to_remove now st) \<longleftrightarrow>
    hi_contains (st_disconnect_queue st) s \<or> (\<exists>reason. inspect now c = Remove reason)"
proof -
  have wf: "hi_wf (st_clients st)" using server_invD(1) [OF assms(1)] by (simp add: indexes_wfD)
  have own: "cl_session_id c' = k" if "(k, q) \<in> set (st_clients st)" "st_heap st q = Some c'" for k q c'
  proof -
    have "hi_get (st_clients st) k = Some q" using that(1) wf by (simp add: hi_get_eq_Some_iff)
    with assms(1) obtain d where "st_heap st q = Some d" "cl_session_id d = k" by (rule inv_session)
    with that(2) show ?thesis by simp
  qed
  have mine1: "(s, r) \<in> set (st_clients st)" using assms(2) wf by (simp add: hi_get_eq_Some_iff)
  have mine2: "q = r" if "(s, q) \<in> set (st_clients st)" for q
    using hi_get_eq_Some_iff [OF wf, of s q] that assms(2) by simp
  have "s \<in> {cl_session_id c |k r c reason. (k, r) \<in> set (st_clients st) \<and> st_heap st r = Some c \<and> inspect now c = Remove reason}
      \<longleftrightarrow> (\<exists>reason. inspect now c = Remove reason)" (is "s \<in> ?S \<longleftrightarrow> _")
  proof
    assume "s \<in> ?S"
    then obtain k q d reason where d: "s = cl_session_id d" "(k, q) \<in> set (st_clients st)" "st_heap st q = Some d"
      "inspect now d = Remove reason" by auto
    with own [of k q d] mine2 [of q] assms(3) show "\<exists>reason. inspect now c = Remove reason" by auto
  next
    assume "\<exists>reason. inspect now c = Remove reason"
    moreover have "s = cl_session_id c" using own [OF mine1 assms(3)] by simp
    ultimately show "s \<in> ?S" using mine1 assms(3) by auto
  qed
  then show ?thesis
    unfolding to_remove_def inspected_keys by (simp add: queued_keys hi_contains_keys disj_commute)
qed

lemma inspect_removes:
  "(\<exists>reason. inspect now c = Remove reason) \<longleftrightarrow> pub_closed (cl_publisher c) \<or>
     duration_since now (cl_last_tcp_ping c) \<ge> secs 11 \<and> duration_since now (cl_last_udp_ping c) < secs 31"
proof -
  have "(d div secs 1 > k) = (d \<ge> secs (k + 1))" for d k :: nat
    by (simp add: secs_def less_eq_div_iff_mult_less_eq flip: Suc_le_eq)
  from this [of 30] this [of 10] show ?thesis by (auto simp: inspect_def)
qed

lemma clean_run_sessions:
  assumes "server_inv n st" and "hi_get (st_clients st) sid = Some r" and "st_heap st r = Some c"
  shows "hi_get (st_clients (clean_run x now st)) sid =
    (if hi_contains (st_disconnect_queue st) sid \<or> pub_closed (cl_publisher c) \<or>
        duration_since now (cl_last_tcp_ping c) \<ge> secs 11 \<and> duration_since now (cl_last_udp_ping c) < secs 31
     then None else Some r)"
proof -
  let ?st = "fold (\<lambda>r st. fst (reset_client_crypt x now r st)) (to_reset now st) (st\<lparr>st_disconnect_queue := []\<rparr>)"
  note st = inv_reset_all [OF assms(1), of x now]
  have "hi_get (st_clients (clean_run x now st)) sid = fst (people (clean_run x now st)) sid"
    by (simp add: people_def)
  also have "\<dots> = (if sid \<in> fst ` set (to_remove now st) then None else fst (people ?st) sid)"
    using people_disconnects [OF st(1)] by (simp add: clean_run_def Let_def)
  finally show ?thesis
    using st(2) assms(2) to_remove_iff [OF assms, of now] by (auto simp: inspect_removes people_def)
qed

text \<open>
  C10: A clean-up run removes exactly those clients that are queued for disconnection, have lost the
  receiver of their queue, or have been silent on TCP for more than ten seconds while not silent on UDP
  for more than thirty; all others stay connected.
\<close>

theorem clean_run_exact:
  assumes "reachable x v (st, pend, n)" and "n < 2 ^ 32"
    and "hi_get (st_clients st) sid = Some r" and "st_heap st r = Some c"
  shows "hi_get (st_clients (clean_run x now st)) sid =
    (if hi_contains (st_disconnect_queue st) sid \<or> pub_closed (cl_publisher c) \<or>
        duration_since now (cl_last_tcp_ping c) \<ge> secs 11 \<and> duration_since now (cl_last_udp_ping c) < secs 31
     then None else Some r)"
proof -
  have "server_inv n st" by (rule reachable_server_inv [OF assms(1,2)])
  from this assms(3,4) show ?thesis by (rule clean_run_sessions)
qed

theorem clean_run_exact_witness:
  "\<exists>st pend r. reachable std_ext Version_new (st, pend, 1) \<and> hi_get (st_clients st) 1 = Some r \<and>
    hi_get (st_clients (clean_run std_ext 5 st)) 1 = None"
proof -
  obtain st r where st: "reachable std_ext Version_new (st, [], 1)" "people st = ([1 \<mapsto> r], [r \<mapsto> 1])"
    using demo_reachable by blast
  let ?st = "add_client_to_disconnect_queue 1 Anticheat st"
  have "issued 1 1" by (simp add: issued_def)
  from reachable.Step [OF st(1) step.Enqueue [OF this]] have r: "reachable std_ext Version_new (?st, [], 1)" .
  from st(2) have "hi_get (st_clients st) 1 = Some r" "session_of st r = Some 1"
    by (auto simp: people_def fun_eq_iff split: if_splits)
  then obtain c where "hi_get (st_clients ?st) 1 = Some r" "st_heap ?st r = Some c"
    by (auto simp: session_of_def frame)
  moreover have "hi_contains (st_disconnect_queue ?st) 1"
    by (simp add: add_client_to_disconnect_queue_def hi_contains_keys)
  ultimately show ?thesis using clean_run_exact [OF r] r by (intro exI [of _ ?st]) auto
qed

subsection \<open>Clients without UDP\<close>

definition udp_pings :: "server_state \<Rightarrow> cref \<Rightarrow> instant option" where
  "udp_pings st r = map_option cl_last_udp_ping (st_heap st r)"

lemma udp_pings_update [simp]:
  "udp_pings (st\<lparr>st_channels := chs\<rparr>) = udp_pings st" "udp_pings (st\<lparr>st_disconnect_queue := q\<rparr>) = udp_pings st"
  "udp_pings (st\<lparr>st_shutdown := sd\<rparr>) = udp_pings st" "udp_pings (st\<lparr>st_clients := cs\<rparr>) = udp_pings st"
  "udp_pings (st\<lparr>st_clients_without_udp := w\<rparr>) = udp_pings st" "udp_pings (st\<lparr>st_clients_by_socket := bs\<rparr>) = udp_pings st"
  "udp_pings (st\<lparr>st_active_clients := n\<rparr>) = udp_pings st" "udp_pings (st\<lparr>st_debug_message_id := i\<rparr>) = udp_pings st"
  by (simp_all add: udp_pings_def fun_eq_iff)

lemma udp_pings_put: "st_heap st r = Some c \<Longrightarrow> cl_last_udp_ping c' = cl_last_udp_ping c \<Longrightarrow> udp_pings (put_client r c' st) = udp_pings st"
  by (auto simp: udp_pings_def frame)

lemma udp_pings_publish [simp]: "udp_pings (publish m r st) = udp_pings st"
proof -
  have "cl_last_udp_ping (handed m c) = cl_last_udp_ping c" for c
    by (simp add: handed_def try_send_def Let_def)
  then show ?thesis by (auto simp: udp_pings_def publish_heap option.map_comp comp_def)
qed

lemma udp_pings_publish_all [simp]: "udp_pings (fold (\<lambda>(_, r). publish m r) rs st) = udp_pings st"
  by (induction rs arbitrary: st) auto

lemma udp_pings_broadcast [simp]: "udp_pings (fst (broadcast_message x kind m st)) = udp_pings st"
  by (simp add: broadcast_message_def Let_def split: sum.split)

lemma udp_pings_left [simp]: "udp_pings (fst (handle_client_left_channel x sid cid st)) = udp_pings st"
  by (auto simp: handle_client_left_channel_def delete_channel_def Let_def split_def split: option.split)

lemma udp_pings_disconnect [simp]: "udp_pings (disconnect x sid reason st) = udp_pings st"
proof -
  have "udp_pings (close_client x sid r c st) = udp_pings st" if "st_heap st r = Some c" for r c st
    using that by (auto simp: close_client_def broadcast_client_delete_def remove_client_by_socket_def Let_def split_def
        udp_pings_put split: option.split)
  then show ?thesis
    by (auto simp: disconnect_def disconnect_commit_def Let_def split: option.split bind_splits)
qed

lemma udp_pings_reset [simp]: "udp_pings (fst (reset_client_crypt x now r st)) = udp_pings st"
proof -
  have "cl_last_udp_ping (fst (send_crypt_setup x now b c)) = cl_last_udp_ping c" for b c
    by (simp add: send_crypt_setup_def send_message_def send_bytes_def Let_def split: sum.split option.split)
  then have "udp_pings (fst (client_io r (send_crypt_setup x now True) st)) = udp_pings st" for st
    by (auto simp: client_io_def split_def Let_def udp_pings_put split: option.split)
  then show ?thesis
    by (auto simp: reset_client_crypt_def remove_udp_socket_def remove_client_by_socket_def Let_def
        udp_pings_put split: option.split)
qed

lemma udp_pings_clean: "udp_pings (clean_run x now st) = udp_pings st"
proof -
  have "udp_pings (fold (\<lambda>r st. fst (reset_client_crypt x now r st)) rs st) = udp_pings st" for rs st
    by (induction rs arbitrary: st) auto
  moreover have "udp_pings (fold (\<lambda>(sid, reason). disconnect x sid reason) ds st) = udp_pings st" for ds st
    by (induction ds arbitrary: st) auto
  ultimately show ?thesis by (simp add: clean_run_def Let_def)
qed

text \<open>
  C35: A client that has been silent on UDP for more than thirty seconds is not timed out, however long it
  has been silent on TCP: every clean-up run keeps it and only resets its keys. The run does not touch the
  time of its last UDP ping, so the next one, 50 milliseconds later, does the same again.
\<close>

theorem silent_udp_client_stays:
  assumes "reachable x v (st, pend, n)" and "n < 2 ^ 32"
    and "hi_get (st_clients st) sid = Some r" and "st_heap st r = Some c"
    and "\<not> hi_contains (st_disconnect_queue st) sid" and "\<not> pub_closed (cl_publisher c)"
    and "duration_since now (cl_last_udp_ping c) \<ge> secs 31"
  shows "r \<in> set (to_reset now st) \<and> hi_get (st_clients (clean_run x now st)) sid = Some r \<and>
    (\<exists>c'. st_heap (clean_run x now st) r = Some c' \<and> cl_last_udp_ping c' = cl_last_udp_ping c)"
proof -
  have inv: "server_inv n st" by (rule reachable_server_inv [OF assms(1,2)])
  have "(sid, r) \<in> set (st_clients st)"
    using assms(3) indexes_wfD [OF server_invD(1) [OF inv]] by (simp add: hi_get_eq_Some_iff)
  moreover have "duration_since now (cl_last_udp_ping c) div secs 1 > 30"
    using assms(7) by (simp add: secs_def)
  ultimately have "r \<in> set (to_reset now st)"
    using assms(4,6) by (force simp: to_reset_def inspect_def)
  moreover have "hi_get (st_clients (clean_run x now st)) sid = Some r"
    using clean_run_sessions [OF inv assms(3,4), of x now] assms(5-7) by simp
  moreover have "udp_pings (clean_run x now st) r = Some (cl_last_udp_ping c)"
    using assms(4) by (simp add: udp_pings_clean) (simp add: udp_pings_def)
  ultimately show ?thesis by (auto simp: udp_pings_def)
qed

theorem silent_udp_client_stays_witness:
  "\<exists>st r. reachable std_ext Version_new (st, [], 1) \<and> r \<in> set (to_reset 100000000000 st) \<and>
    hi_get (st_clients (clean_run std_ext 100000000000 st)) 1 = Some r"
proof -
  obtain st r c where st: "reachable std_ext Version_new (st, [], 1)" "people st = ([1 \<mapsto> r], [r \<mapsto> 1])"
    "st_heap st r = Some c" "cl_last_udp_ping c = 0" "\<not> pub_closed (cl_publisher c)" "st_disconnect_queue st = []"
    using demo_reachable by blast
  from st(2) have "hi_get (st_clients st) 1 = Some r" by (simp add: people_def)
  from silent_udp_client_stays [OF st(1) _ this st(3) _ st(5), of 100000000000] st(4,6) st(1)
  show ?thesis by (auto simp: hi_contains_keys duration_since_def secs_def)
qed

section \<open>Admission\<close>

text \<open>
  C7: Admission. Whoever is admitted is not banned, neither by address nor by name, satisfies the version
  restriction, gets a session id no connected client has, and starts muted exactly if a persistent mute
  matches.
\<close>

theorem admission_checked:
  assumes "reachable x v (st, pend, n)" and "n + 1 < 2 ^ 32" and "admit x v cn st = (st', Admitted r rest)"
  shows "\<exists>c. st_heap st' r = Some c \<and>
    hi_get (st_clients st) (cl_session_id c) = None \<and> hi_get (st_clients st') (cl_session_id c) = Some r \<and>
    (\<forall>restrict_to. st_restrict_to_version st = Some restrict_to \<longrightarrow>
       contains_string (x_to_lowercase x (cl_version_release c)) restrict_to \<and> x_is_match x USERNAME_REGEX (cl_name c)) \<and>
    is_banned (st_bans st) (ip_string (cl_peer_ip c)) (name_part (cl_name c)) = None \<and>
    (cl_mute c \<longleftrightarrow> is_muted (st_bans st) (ip_string (cl_peer_ip c)) (name_part (cl_name c)))"
proof -
  define sid where "sid = (word_of_nat (n + 1) :: u32)"
  have inv: "server_inv n st" using reachable_server_inv [OF assms(1)] assms(2) by simp
  obtain w ver auth k where enter: "enter_client cn w ver auth k rest st = (st', Admitted r rest)"
    "\<not> unofficial x (st_restrict_to_version st) ver auth"
    "is_banned (st_bans st) (ip_string (cn_peer_ip cn)) (name_part (unwrap_or [] (Authenticate_username auth))) = None"
    using admitD [OF assms(3)] by blast
  have "hi_get (st_clients st) sid = None" by (rule next_session_free(1) [OF inv assms(2) sid_def])
  moreover have "hi_get (st_clients st') sid = Some r"
    using inv_enter [OF inv assms(2) enter(1) sid_def] by (auto simp: people_def)
  ultimately show ?thesis using enter_client_new(1) [OF inv assms(2) enter(1), folded sid_def] enter(2,3) by (auto simp: unofficial_def)
qed

theorem admission_checked_witness:
  "\<exists>st r rest c. admit std_ext Version_new demo_connection demo_new = (st, Admitted r rest) \<and>
     st_heap st r = Some c \<and> is_banned (st_bans demo_new) (ip_string (cl_peer_ip c)) (name_part (cl_name c)) = None"
proof -
  have "reachable std_ext Version_new (demo_new, [], 0)" unfolding demo_new_def by (rule Init)
  moreover obtain st r rest where admit: "admit std_ext Version_new demo_connection demo_new = (st, Admitted r rest)"
    by (rule demo_admitted)
  ultimately show ?thesis using admission_checked [of std_ext Version_new demo_new "[]" 0, OF _ _ admit] by auto
qed

end
