(* ===== verification/Startup.thy ===== *)
theory Startup
  imports Reach
begin

text \<open>
  The start of the server, \<open>src/src/main.rs\<close>: the command line and what \<open>main\<close> builds from it and from
  the files of an earlier run. Sockets, certificates and the spawning of tasks are not part of the model.
\<close>

section \<open>The command line\<close>

record args =
  ar_listen :: string
  ar_http_listen :: string
  ar_http_user :: string
  ar_http_password :: "string option"
  ar_strip_mumble_position :: bool
  ar_https :: bool
  ar_http_log :: bool
  ar_key :: string
  ar_cert :: string
  ar_restrict_to_version :: "string option"
  ar_anticheat :: bool
  ar_anticheat_threshold_pct :: u32
  ar_anticheat_min_recipients :: u32
  ar_anticheat_mutuality_max_pct :: u32
  ar_anticheat_window_secs :: u32
  ar_anticheat_strikes :: u32
  ar_anticheat_listen_max :: u32
  ar_anticheat_action :: string
  ar_ban_file :: "string option"
  ar_anticheat_webhook :: "string option"
  ar_anticheat_panel_url :: "string option"
  ar_server_name :: "string option"
  ar_panel_hide_ips :: bool

definition args_default :: args where
  "args_default = \<lparr>ar_listen = ''0.0.0.0:64738'', ar_http_listen = ''0.0.0.0:8080'', ar_http_user = ''admin'',
     ar_http_password = None, ar_strip_mumble_position = False, ar_https = False, ar_http_log = False,
     ar_key = ''key.pem'', ar_cert = ''cert.pem'', ar_restrict_to_version = None, ar_anticheat = False,
     ar_anticheat_threshold_pct = 60, ar_anticheat_min_recipients = 15, ar_anticheat_mutuality_max_pct = 30,
     ar_anticheat_window_secs = 10, ar_anticheat_strikes = 3, ar_anticheat_listen_max = 25,
     ar_anticheat_action = ''log'', ar_ban_file = None, ar_anticheat_webhook = None,
     ar_anticheat_panel_url = None, ar_server_name = None, ar_panel_hide_ips = False\<rparr>"

section \<open>What is built from it\<close>

definition protocol_version :: u32 where
  "protocol_version = push_bit 16 1 OR push_bit 8 4 OR 0"

text \<open>The family and name of the operating system and the version of the package are fixed by the build.\<close>

definition server_version :: "string \<Rightarrow> string \<Rightarrow> string \<Rightarrow> Version" where
  "server_version os_family os pkg_version =
     Version_new\<lparr>Version_os := Some os_family, Version_os_version := Some os, Version_release := Some pkg_version,
       Version_version := Some protocol_version\<rparr>"

definition server_label :: "args \<Rightarrow> string" where
  "server_label ar =
     (case ar_server_name ar of Some s \<Rightarrow> if trim s = [] then ar_listen ar else s | None \<Rightarrow> ar_listen ar)"

definition anticheat_of_args :: "args \<Rightarrow> anticheat_config" where
  "anticheat_of_args ar =
     (anticheat_new (ar_anticheat ar) (ar_anticheat_threshold_pct ar) (ar_anticheat_min_recipients ar)
       (ar_anticheat_mutuality_max_pct ar) (ar_anticheat_window_secs ar) (ar_anticheat_strikes ar)
       (ar_anticheat_listen_max ar) (parse_action (ar_anticheat_action ar)) (ar_anticheat_webhook ar)
       (ar_anticheat_panel_url ar) (server_label ar))
     \<lparr>acc_hide_ips := ar_panel_hide_ips ar\<rparr>"

text \<open>\<open>Path::parent\<close>, on a path whose last component is a file name, and \<open>Path::join\<close> with a file name.\<close>

definition path_parent :: "string \<Rightarrow> string" where
  "path_parent p =
     (let dir = dropWhile (\<lambda>ch. ch \<noteq> CHR ''/'') (rev p);
          trimmed = rev (dropWhile (\<lambda>ch. ch = CHR ''/'') dir)
      in if trimmed = [] \<and> dir \<noteq> [] then ''/'' else trimmed)"

definition path_join :: "string \<Rightarrow> string \<Rightarrow> string" where
  "path_join dir p = (if dir = [] \<or> last dir = CHR ''/'' then dir @ p else dir @ ''/'' @ p)"

definition boot ::
    "ext \<Rightarrow> ban_json \<Rightarrow> heard_json \<Rightarrow> udp_out \<Rightarrow> nat \<Rightarrow> disk \<Rightarrow> args \<Rightarrow> world \<times> auth_state option" where
  "boot x j hj socket epoch d ar =
     (let ac = anticheat_of_args ar;
          bans = bans_load j (ar_ban_file ar) d;
          ac = (case ar_ban_file ar of
            Some bf \<Rightarrow> if ar_anticheat ar
              then init_heard_persistence hj epoch (path_join (path_parent bf) ''heard.json'') d ac else ac
          | None \<Rightarrow> ac);
          st = state_new x socket (ar_strip_mumble_position ar) (ar_restrict_to_version ar) ac bans
      in (\<lparr>w_state = st, w_disk = d, w_posts = []\<rparr>, create_http_server (ar_http_user ar) (ar_http_password ar)))"

section \<open>The first state\<close>

lemma boot_reachable: "reachable x v (w_state (fst (boot x j hj socket epoch d ar)), [], 0)"
  by (simp add: boot_def Let_def reachable.Init)

lemma boot_bans [simp]: "st_bans (w_state (fst (boot x j hj socket epoch d ar))) = bans_load j (ar_ban_file ar) d"
  by (simp add: boot_def Let_def state_new_def)

section \<open>Bans across a restart\<close>

lemma panel_ban:
  assumes "get_client_by_name user (w_state w) = Some r" and "st_heap (w_state w) r = Some c"
    and "w' = fst (handle_request j now epoch (PostAnticheatUser user ''ban'') w)"
  obtains b d e where "bans_add j epoch ''ban'' (Some (ip_string (cl_peer_ip c))) (Some (name_part (cl_name c))) (cl_name c)
      ''banni via panel'' (st_bans (w_state w), w_disk w) = (b, d)"
    and "st_bans (w_state w') = b" and "w_disk w' = d" and "hi_contains (st_disconnect_queue (w_state w')) (cl_session_id c)"
    and "e \<in> set (bl_bans b)" and "be_kind e = ''ban''" and "be_ip e = Some (ip_string (cl_peer_ip c))"
    and "be_name e = Some (name_part (cl_name c))"
proof -
  obtain b d where add: "bans_add j epoch ''ban'' (Some (ip_string (cl_peer_ip c))) (Some (name_part (cl_name c))) (cl_name c)
      ''banni via panel'' (st_bans (w_state w), w_disk w) = (b, d)" by fastforce
  let ?w = "w\<lparr>w_state := (w_state w)\<lparr>st_bans := b\<rparr>, w_disk := d\<rparr>"
  have w': "w' = set_state (add_client_to_disconnect_queue (cl_session_id c) Anticheat) ?w"
    using assms add by (simp add: status_response_def post_anticheat_user_def ban_add_world_def)
  show thesis
  proof (rule that [OF add])
    let ?e = "\<lparr>be_id = bl_next_id (st_bans (w_state w)), be_kind = ''ban'', be_ip = Some (ip_string (cl_peer_ip c)),
      be_name = Some (name_part (cl_name c)), be_display = cl_name c, be_reason = ''banni via panel'', be_at = hms_now epoch\<rparr>"
    show "?e \<in> set (bl_bans b)" using add by (auto simp: bans_add_def Let_def)
  qed (simp_all add: w' add_client_to_disconnect_queue_def hi_contains_def hi_get_insert)
qed

text \<open>
  C6: A ban through the panel lasts. The banned client is queued for disconnection; and in every state of
  this server with that ban list, and, when the list is kept in a file, in every state with the list that
  the server loads when it is started again, whoever is admitted has another address and another name,
  whatever the capitalisation.
\<close>

theorem panel_ban_lasts:
  assumes "ban_json_ok j" and "get_client_by_name user (w_state w) = Some r" and "st_heap (w_state w) r = Some c"
    and "bl_file (st_bans (w_state w)) = Some f" and "d_writable (w_disk w)" and "ar_ban_file ar = Some f"
    and "w' = fst (handle_request j now epoch (PostAnticheatUser user ''ban'') w)"
    and "w'' = fst (boot x j hj socket epoch' (w_disk w') ar)"
    and "st_bans st = st_bans (w_state w') \<or> st_bans st = st_bans (w_state w'')"
    and "reachable x v (st, pend, n)" and "n + 1 < 2 ^ 32" and "admit x v cn st = (st', Admitted q rest)"
  shows "hi_contains (st_disconnect_queue (w_state w')) (cl_session_id c) \<and>
    (\<exists>d. st_heap st' q = Some d \<and> cl_peer_ip d \<noteq> cl_peer_ip c \<and>
       (name_part (cl_name c) \<noteq> [] \<longrightarrow> \<not> eq_ignore_ascii_case (name_part (cl_name c)) (name_part (cl_name d))))"
proof -
  obtain b d e where add: "bans_add j epoch ''ban'' (Some (ip_string (cl_peer_ip c))) (Some (name_part (cl_name c))) (cl_name c)
      ''banni via panel'' (st_bans (w_state w), w_disk w) = (b, d)"
    and w': "st_bans (w_state w') = b" "w_disk w' = d" "hi_contains (st_disconnect_queue (w_state w')) (cl_session_id c)"
    and e: "e \<in> set (bl_bans b)" "be_kind e = ''ban''" "be_ip e = Some (ip_string (cl_peer_ip c))"
      "be_name e = Some (name_part (cl_name c))"
    by (rule panel_ban [OF assms(2,3,7)])
  have "bl_bans (st_bans st) = bl_bans b"
    using assms(9) load_added [OF assms(1,4,5) add] assms(6,8) w' by auto
  have inv: "server_inv n st" using reachable_server_inv [OF assms(10)] assms(11) by simp
  obtain tw ver auth k where enter: "enter_client cn tw ver auth k rest st = (st', Admitted q rest)"
    "is_banned (st_bans st) (ip_string (cn_peer_ip cn)) (name_part (unwrap_or [] (Authenticate_username auth))) = None"
    using admitD [OF assms(12)] by blast
  then have "\<not> ban_matches e (ip_string (cn_peer_ip cn)) (name_part (unwrap_or [] (Authenticate_username auth)))"
    using e(1,2) \<open>bl_bans (st_bans st) = bl_bans b\<close> by (simp add: is_banned_eq_None_iff)
  with e(3,4) have "cn_peer_ip cn \<noteq> cl_peer_ip c"
    "name_part (cl_name c) \<noteq> [] \<longrightarrow>
       \<not> eq_ignore_ascii_case (name_part (cl_name c)) (name_part (unwrap_or [] (Authenticate_username auth)))"
    by (auto simp: ban_matches_def)
  then show ?thesis using enter_client_new(1) [OF inv assms(11) enter(1)] w'(3) by auto
qed

definition demo_world :: world where
  "demo_world = \<lparr>w_state = demo_state\<lparr>st_bans := \<lparr>bl_bans = [], bl_next_id = 1, bl_file = Some ''/data/bans.json''\<rparr>\<rparr>,
     w_disk = \<lparr>d_files = Map.empty, d_writable = True\<rparr>, w_posts = []\<rparr>"

definition demo_banning :: world where
  "demo_banning = fst (handle_request std_ban_json 0 0 (PostAnticheatUser ''[1] ann'' ''ban'') demo_world)"

definition demo_args :: args where
  "demo_args = args_default\<lparr>ar_anticheat := True, ar_ban_file := Some ''/data/bans.json''\<rparr>"

definition demo_restart :: world where
  "demo_restart = fst (boot std_ext std_ban_json std_heard_json \<lparr>uo_sent = [], uo_result = UdpSent\<rparr> 0
     (w_disk demo_banning) demo_args)"

text \<open>The demonstration connection names no user.\<close>

definition demo_handshake :: "tcp_writer \<times> (mumble_error + (Version \<times> Authenticate \<times> crypt_state) \<times> bytes)" where
  "demo_handshake = client_init std_ext True True (replicate 16 7) 0 Version_new
     \<lparr>tw_sent = [], tw_error = None, tw_cancel_first = True\<rparr>
     (get_mumble_buffer KVersion [] @ get_mumble_buffer KAuthenticate [])"

lemma demo_handshake_auth: "Authenticate_username (fst (snd (fst (projr (snd demo_handshake))))) = None"
  by code_simp

lemma admitted_at_start:
  assumes "is_banned bans (ip_string ip) [] = None"
  shows "\<exists>st r rest. admit std_ext Version_new (demo_connection\<lparr>cn_peer_ip := ip\<rparr>) (state_new std_ext sock pos None ac bans) =
    (st, Admitted r rest)"
proof -
  let ?st = "state_new std_ext sock pos None ac bans" and ?cn = "demo_connection\<lparr>cn_peer_ip := ip\<rparr>"
  obtain st out where admit: "admit std_ext Version_new ?cn ?st = (st, out)" by fastforce
  have "\<not> isl (snd demo_handshake)" using demo_init by (simp add: demo_handshake_def)
  then obtain w ver auth k rest where init: "demo_handshake = (w, Inr ((ver, auth, k), rest))"
    by (metis prod.collapse sum.collapse(2))
  have "name_part [] = []" by code_simp
  with demo_handshake_auth assms have "admit std_ext Version_new ?cn ?st = enter_client ?cn w ver auth k rest ?st"
    using init by (simp add: admit_def demo_connection_def demo_handshake_def unofficial_def state_new_def)
  then have "out \<noteq> Refused e" for e using admit by (auto simp: enter_client_def Let_def split: option.splits prod.splits)
  with inv_admit [OF server_inv_new _ admit refl] admit show ?thesis by auto
qed

lemma demo_ban:
  "get_client_by_name ''[1] ann'' (w_state demo_world) = Some 0" "ip_string (cl_peer_ip (demo_client 1 0)) = ''10.0.0.1''"
  "name_part (cl_name (demo_client 1 0)) = ''ann''"
proof -
  have "Authenticate_username (cl_authenticate (demo_client 1 0)) = Some ''[1] ann''"
    by (simp add: demo_client_def client_new_def Let_def)
  then show "get_client_by_name ''[1] ann'' (w_state demo_world) = Some 0"
    by (simp add: get_client_by_name_def demo_world_def)
  have "cl_peer_ip (demo_client 1 0) = V4 10 0 0 1" "cl_name (demo_client 1 0) = ''[1] ann''"
    by (simp_all add: demo_client_def client_new_def Let_def)
  moreover have "ip_string (V4 10 0 0 1) = ''10.0.0.1''" by code_simp
  moreover have "name_part ''[1] ann'' = ''ann''" by code_simp
  ultimately show "ip_string (cl_peer_ip (demo_client 1 0)) = ''10.0.0.1''" "name_part (cl_name (demo_client 1 0)) = ''ann''"
    by simp_all
qed

theorem panel_ban_lasts_witness:
  "\<exists>st q rest d. admit std_ext Version_new (demo_connection\<lparr>cn_peer_ip := V4 10 0 0 2\<rparr>) (w_state demo_restart) =
       (st, Admitted q rest) \<and> st_heap st q = Some d \<and> cl_peer_ip d \<noteq> V4 10 0 0 1 \<and>
     hi_contains (st_disconnect_queue (w_state demo_banning)) 1"
proof -
  let ?c = "demo_client 1 0" and ?ip = "V4 10 0 0 2"
  have heap: "st_heap (w_state demo_world) 0 = Some ?c" by (simp add: demo_world_def)
  have bans: "bl_bans (st_bans (w_state demo_world)) = []" "bl_file (st_bans (w_state demo_world)) = Some ''/data/bans.json''"
    "d_writable (w_disk demo_world)" by (simp_all add: demo_world_def)
  obtain b d e where add: "bans_add std_ban_json 0 ''ban'' (Some (ip_string (cl_peer_ip ?c))) (Some (name_part (cl_name ?c)))
      (cl_name ?c) ''banni via panel'' (st_bans (w_state demo_world), w_disk demo_world) = (b, d)" and d: "w_disk demo_banning = d"
    by (rule panel_ban [OF demo_ban(1) heap demo_banning_def])
  have load: "st_bans (w_state demo_restart) = bans_load std_ban_json (Some ''/data/bans.json'') d"
    by (simp add: demo_restart_def demo_args_def d)
  have "ip_string ?ip = ''10.0.0.2''" by code_simp
  moreover have "\<not> eq_ignore_ascii_case ''ann'' []" by code_simp
  ultimately have "is_banned b (ip_string ?ip) [] = None"
    using add demo_ban(2,3) bans(1) by (auto simp: is_banned_eq_None_iff bans_add_def ban_matches_def Let_def)
  then have free: "is_banned (st_bans (w_state demo_restart)) (ip_string ?ip) [] = None"
    using load_added [OF std_ban_json_ok bans(2,3) add] by (simp add: load is_banned_def)
  obtain ac where start: "w_state demo_restart = state_new std_ext \<lparr>uo_sent = [], uo_result = UdpSent\<rparr> False None ac
      (st_bans (w_state demo_restart))"
    unfolding load by (auto simp: demo_restart_def boot_def Let_def demo_args_def args_default_def d)
  have "\<exists>st q rest. admit std_ext Version_new (demo_connection\<lparr>cn_peer_ip := ?ip\<rparr>) (w_state demo_restart) = (st, Admitted q rest)"
    by (subst start) (rule admitted_at_start [OF free])
  then obtain st q rest where admit: "admit std_ext Version_new (demo_connection\<lparr>cn_peer_ip := ?ip\<rparr>) (w_state demo_restart) =
      (st, Admitted q rest)" by blast
  have "reachable std_ext Version_new (w_state demo_restart, [], 0)" unfolding demo_restart_def by (rule boot_reachable)
  from panel_ban_lasts [OF std_ban_json_ok demo_ban(1) heap bans(2,3) _ demo_banning_def demo_restart_def disjI2 [OF refl] this _ admit]
  show ?thesis using admit by (auto simp: demo_args_def demo_client_def client_new_def Let_def)
qed

end
