(* ===== verification/Relay.thy ===== *)
theory Relay
  imports Invariant
begin

text \<open>
  The way of a voice packet through the server: from the datagram of the speaker over the speaker's queue,
  the routing and the listener's queue to the datagram for the listener.
\<close>

section \<open>References\<close>

lemma refs_ok_inv:
  assumes "server_inv n st"
  shows "refs_ok st"
proof -
  note inv = dir_invD [OF server_invD(2) [OF assms]]
  note ok = sess_okD [OF inv(1)]
  have os: "obj_session (directory_of st) q = session_of st q" for q
    by (simp add: obj_session_def session_of_def option.map_comp comp_def)
  have "session_of st r = Some sid" if "hi_get (st_clients st) sid = Some r" for sid r
    using members_okD [OF ok(1), of sid r] that by (simp add: os)
  moreover have "session_of st r = Some sid"
    if "hi_get (st_channels st) k = Some ch" "hi_get (ch_clients ch) sid = Some r \<or> hi_get (ch_listeners ch) sid = Some r" for sid r k ch
    using that chan_ok_members [OF inv(2), of k "members_of ch"] members_okD [of "obj_session (directory_of st)" _ sid r]
    by (auto simp: os)
  moreover have "r = r'" if "session_of st r = Some sid" "session_of st r' = Some sid" for r r' sid
    using ok(6) that by (simp add: os)
  ultimately show ?thesis using server_invD(1) [OF assms] unfolding refs_ok_def by blast
qed

section \<open>What routing leaves alone\<close>

definition endpoint :: "client \<Rightarrow> crypt_state \<times> udp_out \<times> socket_addr option" where
  "endpoint c = (cl_crypt_state c, cl_udp c, cl_udp_socket_addr c)"

definition endpoints :: "server_state \<Rightarrow> cref \<Rightarrow> (crypt_state \<times> udp_out \<times> socket_addr option) option" where
  "endpoints st r = map_option endpoint (st_heap st r)"

lemma endpoints_put: "st_heap st r = Some c \<Longrightarrow> endpoint c' = endpoint c \<Longrightarrow> endpoints (put_client r c' st) = endpoints st"
  by (auto simp: endpoints_def frame)

lemma endpoints_modify: "(\<And>c. endpoint (f c) = endpoint c) \<Longrightarrow> endpoints (modify_client r f st) = endpoints st"
  by (auto simp: endpoints_def modify_client_heap option.map_comp comp_def)

lemma endpoint_sel [simp]:
  "endpoint (c\<lparr>cl_ac := a\<rparr>) = endpoint c" "endpoint (c\<lparr>cl_publisher := p\<rparr>) = endpoint c"
  "endpoint (note_heard cfg now sp c) = endpoint c" "endpoint (note_emission cfg n c) = endpoint c"
  by (simp_all add: endpoint_def note_heard_def note_emission_def Let_def split_def)

lemma endpoint_position [simp]: "endpoint (packet_position cfg now p c) = endpoint c"
  by (simp add: endpoint_def packet_position_def note_position_def Let_def split_def split: option.split)

lemma endpoints_queue [simp]: "endpoints (st\<lparr>st_disconnect_queue := q\<rparr>) = endpoints st"
  by (simp add: endpoints_def fun_eq_iff)

lemma endpoints_publish [simp]: "endpoints (publish m r st) = endpoints st"
proof (cases "st_heap st r")
  case (Some c)
  then show ?thesis
    by (auto simp: publish_def try_send_def Let_def add_client_to_disconnect_queue_def endpoints_put [OF Some])
qed (simp add: publish_def)

lemma endpoints_deliver [simp]: "endpoints (snd (deliver now sp rec m q acc)) = endpoints (snd acc)"
  by (auto simp: deliver_def Let_def split_def endpoints_put split: option.split)

lemma endpoints_deliver_all [simp]:
  "endpoints (snd (fold (\<lambda>p. deliver now c rec m (snd p)) qs acc)) = endpoints (snd acc)"
  by (induction qs arbitrary: acc) auto

lemma endpoints_route [simp]: "endpoints (route_packet now p tgt sid r st) = endpoints st"
  by (auto simp: route_packet_def Let_def split_def endpoints_modify endpoints_put split: option.split)

lemma endpoints_voice: "tgt \<noteq> 31 \<Longrightarrow> endpoints (fst (handle_voice_packet x now (Audio tgt sid sq payl pos) r st)) = endpoints st"
  by (simp add: handle_voice_packet_def Let_def endpoints_modify)

lemma put_client_twice: "put_client r c' (put_client r c st) = put_client r c' st"
  by (simp add: put_client_def)

section \<open>In\<close>

text \<open>A datagram that looks like a server list ping, which is not encrypted, is taken for one.\<close>

definition looks_like_ping :: "bytes \<Rightarrow> bool" where
  "looks_like_ping bs \<longleftrightarrow> drop_bit 5 (hd bs) AND 7 = 0 \<and> length bs = 12"

lemma voice_in:
  assumes "server_inv n st" and "hi_get (st_clients st) sid = Some r" and "st_heap st r = Some c"
    and "cl_udp_socket_addr c = Some a" and "aes_ok (x_aes x)" and "key s = key (cl_crypt_state c)"
    and "encrypt_nonce s = decrypt_nonce (cl_crypt_state c) + word_of_nat k" and "k \<le> 126"
    and "wf_packet p" and "p = Audio tgt () sq payl pos" and "encrypt (x_aes x) server_bound s p = (s', bs)"
    and "length bs \<le> 1024" and "\<not> looks_like_ping bs" and "cl_publisher c = \<lparr>pub_queue = [], pub_closed = False\<rparr>"
  shows "\<exists>k'. udp_server_run x now pv bs a st =
    put_client r (c\<lparr>cl_crypt_state := k', cl_publisher := \<lparr>pub_queue =
      [RouteVoicePacket (into_client_bound p sid (st_remove_positional_data st))], pub_closed = False\<rparr>\<rparr>) st"
proof -
  note inv = dir_invD [OF server_invD(2) [OF assms(1)]]
  have "obj_socket (directory_of st) r = Some a" using assms(3,4) by (simp add: obj_socket_def)
  then have socket: "get_client_by_socket a st = Some r"
    using sock_okD(4) [OF inv(3), of sid r a] assms(2) assms(3) by (simp add: get_client_by_socket_def upgrade_def)
  have sid: "cl_session_id c = sid"
    using refs_ok_inv [OF assms(1)] assms(2,3) unfolding refs_ok_def session_of_def by force
  define k' where "k' = accept now (cl_crypt_state c) (encrypt_nonce s + 1) False (int k)"
  have dec: "decrypt (x_aes x) server_bound now (cl_crypt_state c) bs = (k', Inr p)"
    unfolding k'_def by (rule decrypt_encrypted [OF assms(5) _ sb.voice_dst_axioms assms(9,11)
      nonce_step_ahead [OF assms(7,8)]]) (simp add: assms(6))
  have len: "\<not> length bs \<le> Suc 0" "take 1024 bs = bs"
    using assms(11,12) by (auto simp: encrypt_def Let_def split_def)
  have "identify x now bs a st = (put_client r (c\<lparr>cl_crypt_state := k'\<rparr>) st, Some (r, p))"
    by (simp add: identify_def socket assms(3) dec)
  moreover have "receive_packet x now a r p (put_client r (c\<lparr>cl_crypt_state := k'\<rparr>) st) =
      put_client r (c\<lparr>cl_crypt_state := k', cl_publisher := \<lparr>pub_queue =
      [RouteVoicePacket (into_client_bound p sid (st_remove_positional_data st))], pub_closed = False\<rparr>\<rparr>) st"
    using assms(14) by (simp add: receive_packet_def frame assms(10) sid publish_def try_send_def PUBLISHER_CAPACITY_def put_client_def)
  ultimately have "udp_server_run x now pv bs a st = put_client r (c\<lparr>cl_crypt_state := k', cl_publisher := \<lparr>pub_queue =
      [RouteVoicePacket (into_client_bound p sid (st_remove_positional_data st))], pub_closed = False\<rparr>\<rparr>) st"
    using assms(13) unfolding looks_like_ping_def udp_server_run_def handle_packet_def len(2) by (simp only: if_False len One_nat_def prod.case option.case fst_conv)
  then show ?thesis by blast
qed

section \<open>Out\<close>

lemma voice_out:
  assumes "st_heap st q = Some d" and "cl_publisher d = \<lparr>pub_queue = [SendVoicePacket p], pub_closed = cl\<rparr>"
    and "cl_udp_socket_addr d = Some b" and "uo_result (cl_udp d) = UdpSent" and "aes_ok (x_aes x)"
    and "key t = key (cl_crypt_state d)" and "encrypt_nonce (cl_crypt_state d) = decrypt_nonce t + word_of_nat m" and "m \<le> 126"
    and "wf_packet p"
  shows "\<exists>d' bs. st_heap (fst (consume x now q st)) q = Some d' \<and> uo_sent (cl_udp d') = uo_sent (cl_udp d) @ [(b, bs)] \<and>
    snd (decrypt (x_aes x) client_bound now' t bs) = Inr p"
proof -
  obtain k' bs where e: "encrypt (x_aes x) client_bound (cl_crypt_state d) p = (k', bs)" by fastforce
  have "decrypt (x_aes x) client_bound now' t bs =
      (accept now' t (encrypt_nonce (cl_crypt_state d) + 1) False (int m), Inr p)"
    by (rule decrypt_encrypted [OF assms(5,6) cb.voice_dst_axioms assms(9) e nonce_step_ahead [OF assms(7,8)]])
  then show ?thesis
    using assms(1-4) e by (simp add: consume_def handle_queued_def client_io_def send_voice_packet_def count_bad_def frame)
qed

section \<open>From mouth to ear\<close>

text \<open>
  C1: A voice packet arrives. The speaker encrypts it for the server, the server receives the datagram,
  the speaker's task routes it and the listener's task sends it on: the listener gets exactly one
  datagram more, and decrypts it to the same audio, marked with the speaker's session id. This holds
  in every state that satisfies the invariant, hence in every reachable one, for two connected clients
  with known addresses and empty queues when the target of the packet addresses the listener, the speaker
  is not muted, the listener not deafened, and no more than 126 packets in a row were lost on either way.
  The datagram must not look like an unencrypted ping.
\<close>

theorem voice_end_to_end:
  assumes "server_inv n st" and "aes_ok (x_aes x)"
    and "hi_get (st_clients st) sid = Some r" and "st_heap st r = Some c" and "cl_udp_socket_addr c = Some a"
    and "st_heap st q = Some d" and "q \<noteq> r" and "cl_udp_socket_addr d = Some b" and "uo_result (cl_udp d) = UdpSent"
    and "cl_publisher c = \<lparr>pub_queue = [], pub_closed = False\<rparr>" and "cl_publisher d = \<lparr>pub_queue = [], pub_closed = False\<rparr>"
    and "\<not> cl_mute c" and "\<not> cl_deaf d" and "addressed tgt c st (cl_session_id d) q" and "tgt \<noteq> 31"
    and "key s = key (cl_crypt_state c)" and "encrypt_nonce s = decrypt_nonce (cl_crypt_state c) + word_of_nat k" and "k \<le> 126"
    and "key t = key (cl_crypt_state d)" and "encrypt_nonce (cl_crypt_state d) = decrypt_nonce t + word_of_nat m" and "m \<le> 126"
    and "wf_packet (Audio tgt () sq payl pos)" and "encrypt (x_aes x) server_bound s (Audio tgt () sq payl pos) = (s', bs)"
    and "length bs \<le> 1024" and "\<not> looks_like_ping bs"
    and "st' = fst (consume x now q (fst (consume x now r (udp_server_run x now pv bs a st))))"
  shows "\<exists>d' out. st_heap st' q = Some d' \<and> uo_sent (cl_udp d') = uo_sent (cl_udp d) @ [(b, out)] \<and>
    snd (decrypt (x_aes x) client_bound now' t out) =
      Inr (Audio tgt sid sq payl (if st_remove_positional_data st then None else pos))"
proof -
  let ?p = "Audio tgt sid sq payl (if st_remove_positional_data st then None else pos)"
  obtain k' where st1: "udp_server_run x now pv bs a st = put_client r (c\<lparr>cl_crypt_state := k', cl_publisher :=
      \<lparr>pub_queue = [RouteVoicePacket ?p], pub_closed = False\<rparr>\<rparr>) st"
    using voice_in [OF assms(1,3,4,5,2,16,17,18,22) refl assms(23,24,25,10), of now pv] by auto
  define c2 where "c2 = c\<lparr>cl_crypt_state := k'\<rparr>"
  let ?st = "put_client r c2 st"
  have heap: "st_heap ?st r = Some c2" "st_heap ?st q = Some d" using assms(6,7) by (simp_all add: frame)
  have again: "c\<lparr>cl_crypt_state := k', cl_publisher := \<lparr>pub_queue = [], pub_closed = False\<rparr>\<rparr> = c2"
    using assms(10) unfolding c2_def by (cases c) simp
  have "snd (handle_voice_packet x now ?p r ?st) = Inr ()"
    using assms(15) by (simp add: handle_voice_packet_def Let_def)
  then have st2: "fst (consume x now r (udp_server_run x now pv bs a st)) = fst (handle_voice_packet x now ?p r ?st)"
    unfolding st1 consume_def by (auto simp: frame handle_queued_def again put_client_twice count_bad_def split: prod.split)
  have inv: "server_inv n ?st" using assms(4) by (intro inv_put [OF assms(1)]) (simp_all add: c2_def ident_of_def)
  have "session_of st r = Some sid" using refs_ok_inv [OF assms(1)] assms(3) unfolding refs_ok_def by blast
  moreover have "cl_session_id d \<noteq> cl_session_id c"
    using refs_ok_inv [OF assms(1)] assms(4,6,7) unfolding refs_ok_def session_of_def by force
  ultimately have "cl_session_id d \<noteq> sid" using assms(4) by (simp add: session_of_def)
  moreover have "addressed tgt c2 ?st (cl_session_id d) q"
    using assms(14) addressed_cong [of ?st st c2 c tgt] by (simp add: frame c2_def)
  moreover have "\<not> cl_mute c2" using assms(12) by (simp add: c2_def)
  ultimately have "publisher_of (fst (handle_voice_packet x now ?p r ?st)) q =
      Some \<lparr>pub_queue = [SendVoicePacket ?p], pub_closed = False\<rparr>"
    using voice_routed [OF refs_ok_inv [OF inv] heap assms(15) refl, of x now] assms(11,13)
    by (simp add: queued_def PUBLISHER_CAPACITY_def)
  moreover have "endpoints (fst (handle_voice_packet x now ?p r ?st)) q = Some (endpoint d)"
    using assms(15) heap(2) by (simp add: endpoints_voice endpoints_def [of ?st])
  ultimately obtain d1 where d1: "st_heap (fst (handle_voice_packet x now ?p r ?st)) q = Some d1"
    "cl_publisher d1 = \<lparr>pub_queue = [SendVoicePacket ?p], pub_closed = False\<rparr>" "endpoint d1 = endpoint d"
    by (auto simp: publisher_of_def endpoints_def)
  have "wf_packet ?p" using into_client_bound_wf [OF assms(22), of sid "st_remove_positional_data st"] by simp
  from voice_out [OF d1(1,2) _ _ assms(2) _ _ assms(21) this, of b t now now'] d1(3) assms(8,9,19,20)
  show ?thesis unfolding assms(26) st2 by (simp add: endpoint_def)
qed

definition demo_peer :: "u32 \<Rightarrow> u16 \<Rightarrow> client" where
  "demo_peer sid port = (demo_client sid 0)\<lparr>cl_udp_socket_addr := Some (V4 10 0 0 1, port)\<rparr>"

definition demo_call :: server_state where
  "demo_call = demo_state\<lparr>st_clients_without_udp := [],
     st_clients_by_socket := [((V4 10 0 0 1, 5001), 0), ((V4 10 0 0 1, 5002), 1)],
     st_channels := [(0, (channel_new 0 (Some 0) ''Root'' ''Root channel'' False)\<lparr>ch_clients := [(1, 0), (2, 1)]\<rparr>)],
     st_heap := [0 \<mapsto> demo_peer 1 5001, 1 \<mapsto> demo_peer 2 5002]\<rparr>"

lemma demo_call_inv: "server_inv 2 demo_call"
proof -
  have obj: "obj_session (directory_of demo_call) = [0 \<mapsto> 1, 1 \<mapsto> 2]"
    "obj_socket (directory_of demo_call) = [0 \<mapsto> (V4 10 0 0 1, 5001), 1 \<mapsto> (V4 10 0 0 1, 5002)]"
    by (auto simp: obj_session_def obj_socket_def demo_call_def demo_peer_def)
  have sess: "hi_get (st_clients demo_call) = [1 \<mapsto> 0, 2 \<mapsto> 1]" by (auto simp: demo_call_def hi_get_def)
  have "indexes_wf demo_call"
    using demo_state_wf(1) by (simp add: demo_call_def indexes_wf_def channels_wf_def hi_wf_def)
  moreover have "sess_ok 2 [1 \<mapsto> 0, 2 \<mapsto> 1] [0 \<mapsto> 1, 1 \<mapsto> 2] 2 3 2"
    by (auto simp: sess_ok_def members_ok_def split: if_splits)
  moreover have "chan_ok [0 \<mapsto> 1, 1 \<mapsto> 2] (d_channels (directory_of demo_call))"
    by (auto simp: chan_ok_def members_ok_def demo_call_def hi_get_def split: if_splits)
  moreover have "sock_ok [1 \<mapsto> 0, 2 \<mapsto> 1] [0 \<mapsto> 1, 1 \<mapsto> 2] [0 \<mapsto> (V4 10 0 0 1, 5001), 1 \<mapsto> (V4 10 0 0 1, 5002)] Map.empty
      [(V4 10 0 0 1, 5001) \<mapsto> 0, (V4 10 0 0 1, 5002) \<mapsto> 1]"
    by (rule sock_okI) (auto split: if_splits)
  moreover have "hi_get (st_clients_without_udp demo_call) = Map.empty"
    "hi_get (st_clients_by_socket demo_call) = [(V4 10 0 0 1, 5001) \<mapsto> 0, (V4 10 0 0 1, 5002) \<mapsto> 1]"
    by (auto simp: demo_call_def hi_get_def)
  ultimately show ?thesis
    by (simp add: server_inv_def dir_inv_def obj sess) (simp add: demo_call_def demo_state_def)
qed

theorem voice_end_to_end_witness:
  "\<exists>bs d out. st_heap (fst (consume std_ext 5 1 (fst (consume std_ext 5 0
       (udp_server_run std_ext 5 0 bs (V4 10 0 0 1, 5001) demo_call))))) 1 = Some d \<and>
     uo_sent (cl_udp d) = [((V4 10 0 0 1, 5002), out)] \<and>
     snd (decrypt (x_aes std_ext) client_bound 9 ((crypt_default (replicate 16 7) 0)\<lparr>decrypt_nonce := 0\<rparr>) out) =
       Inr (Audio 0 1 7 (Opus [1] False) None)"
proof -
  let ?p = "Audio 0 () 7 (Opus [1] False) None"
  let ?s = "(crypt_default (replicate 16 7) 0)\<lparr>encrypt_nonce := push_bit 127 1\<rparr>"
  obtain s' bs where e: "encrypt (x_aes std_ext) server_bound ?s ?p = (s', bs)" by fastforce
  have "length (encode_voice_packet server_bound ?p) = 4" by code_simp
  with e have "length bs = 8" by (auto simp: encrypt_def Let_def split_def ocb_encrypt_def length_ocb_encrypt_from)
  then have len: "length bs \<le> 1024" "\<not> looks_like_ping bs" by (simp_all add: looks_like_ping_def)
  have aes: "aes_ok (x_aes std_ext)" by (simp add: std_ext_def xor_cipher_ok)
  have udp: "cl_udp (demo_client i j) = \<lparr>uo_sent = [], uo_result = UdpSent\<rparr>" for i j
    by (simp add: demo_client_def client_new_def Let_def)
  note * = voice_end_to_end [OF demo_call_inv aes, of 1 0 "demo_peer 1 5001" "(V4 10 0 0 1, 5001)" 1 "demo_peer 2 5002"
     "(V4 10 0 0 1, 5002)" 0 ?s 0 "(crypt_default (replicate 16 7) 0)\<lparr>decrypt_nonce := 0\<rparr>" 0 7 "Opus [1] False" None s' bs _ 5 0 9,
     OF _ _ _ _ _ _ _ _ _ _ _ _ _ _ _ _ _ _ _ _ e len refl]
  show ?thesis
    by (rule exI [of _ bs])
      (use * in \<open>simp add: demo_call_def demo_peer_def hi_get_def addressed_def crypt_default_def udp\<close>)
qed

section \<open>Taken for a ping\<close>

text \<open>
  C39: An encrypted packet of eight bytes is lost whenever the low byte of its nonce is below 32, once in
  eight times: the datagram then has the length and the first bits of an unencrypted ping. It is answered
  or dropped as one; no client, queue or encryption state changes.
\<close>

theorem encrypted_packet_taken_for_ping:
  assumes "encrypt (x_aes x) server_bound s p = (s', bs)" and "length (encode_voice_packet server_bound p) = 8"
    and "(ucast (encrypt_nonce s + 1) :: u8) < 32"
  shows "\<exists>sock. udp_server_run x now pv bs a st = st\<lparr>st_socket := sock\<rparr>"
proof -
  have bs: "length bs = 12" "hd bs = ucast (encrypt_nonce s + 1)"
    using assms(1,2) by (auto simp: encrypt_def Let_def split_def ocb_encrypt_def length_ocb_encrypt_from)
  have "drop_bit 5 (ucast (encrypt_nonce s + 1) :: u8) = 0"
    using assms(3) by (simp add: word_less_nat_alt drop_bit_eq_div unat_div flip: unat_eq_zero)
  moreover have "\<exists>sock. st = st\<lparr>st_socket := sock\<rparr>" by (rule exI [of _ "st_socket st"]) simp
  ultimately show ?thesis
    by (auto simp: udp_server_run_def handle_packet_def bs socket_send_def split: sum.split udp_result.split)
qed

theorem encrypted_packet_taken_for_ping_witness:
  "\<exists>bs sock. encrypt (x_aes std_ext) server_bound (crypt_default (replicate 16 7) 0)
       (Audio 0 () 7 (Opus [1, 2, 3, 4, 5] False) None) = ((crypt_default (replicate 16 7) 0)\<lparr>encrypt_nonce := 1\<rparr>, bs) \<and>
     udp_server_run std_ext 5 0 bs (V4 10 0 0 1, 5001) demo_call = demo_call\<lparr>st_socket := sock\<rparr>"
proof -
  let ?s = "crypt_default (replicate 16 7) 0"
  let ?p = "Audio 0 () 7 (Opus [1, 2, 3, 4, 5] False) None"
  obtain s' bs where e: "encrypt (x_aes std_ext) server_bound ?s ?p = (s', bs)" by fastforce
  then have "s' = ?s\<lparr>encrypt_nonce := 1\<rparr>" using encrypt_state [of "x_aes std_ext" server_bound ?s ?p] by (simp add: crypt_default_def)
  moreover have "length (encode_voice_packet server_bound ?p) = 8" by code_simp
  ultimately show ?thesis
    using encrypted_packet_taken_for_ping [OF e, of 5 0 "(V4 10 0 0 1, 5001)" demo_call] e by (auto simp: crypt_default_def)
qed

end
