(* ===== verification/Calendar.thy ===== *)
theory Calendar
  imports Anticheat
begin

text \<open>
  The dates in the notifications: \<open>civil_from_days\<close> computes the Gregorian calendar.
\<close>

section \<open>The calendar\<close>

definition is_leap :: "int \<Rightarrow> bool" where
  "is_leap y \<longleftrightarrow> y mod 4 = 0 \<and> (y mod 100 \<noteq> 0 \<or> y mod 400 = 0)"

definition month_length :: "int \<Rightarrow> nat \<Rightarrow> nat" where
  "month_length y m = (if m = 2 then if is_leap y then 29 else 28 else if m \<in> {4, 6, 9, 11} then 30 else 31)"

fun next_day :: "int \<times> nat \<times> nat \<Rightarrow> int \<times> nat \<times> nat" where
  "next_day (y, m, d) =
     (if d < month_length y m then (y, m, d + 1) else if m < 12 then (y, m + 1, 1) else (y + 1, 1, 1))"

section \<open>Days of a year that starts in March\<close>

lemma div_bounds: "0 < (m :: int) \<Longrightarrow> m * (x div m) \<le> x \<and> x < m * (x div m) + m"
  using mult_div_mod_eq [of m x] pos_mod_bound [of m x] pos_mod_sign [of m x] by linarith

lemma div_eqI: "m * k \<le> x \<Longrightarrow> x < m * k + m \<Longrightarrow> x div m = (k :: int)"
  by (rule int_div_pos_eq [of x m k "x - m * k"]) simp_all

definition month_day :: "int \<Rightarrow> nat \<times> nat" where
  "month_day r = (let mp = (5 * r + 2) div 153
     in (nat (if mp < 10 then mp + 3 else mp - 9), nat (r - (153 * mp + 2) div 5 + 1)))"

lemma month_day_eq:
  assumes "153 * k \<le> 5 * r + 2" and "5 * r + 2 < 153 * k + 153"
  shows "month_day r = (nat (if k < 10 then k + 3 else k - 9), nat (r - (153 * k + 2) div 5 + 1))"
  unfolding month_day_def Let_def div_eqI [OF assms] by (rule refl)

lemma month_day_table:
  "0 \<le> r \<Longrightarrow> r < 31 \<Longrightarrow> month_day r = (3, nat (r - 0 + 1))"
  "31 \<le> r \<Longrightarrow> r < 61 \<Longrightarrow> month_day r = (4, nat (r - 31 + 1))"
  "61 \<le> r \<Longrightarrow> r < 92 \<Longrightarrow> month_day r = (5, nat (r - 61 + 1))"
  "92 \<le> r \<Longrightarrow> r < 122 \<Longrightarrow> month_day r = (6, nat (r - 92 + 1))"
  "122 \<le> r \<Longrightarrow> r < 153 \<Longrightarrow> month_day r = (7, nat (r - 122 + 1))"
  "153 \<le> r \<Longrightarrow> r < 184 \<Longrightarrow> month_day r = (8, nat (r - 153 + 1))"
  "184 \<le> r \<Longrightarrow> r < 214 \<Longrightarrow> month_day r = (9, nat (r - 184 + 1))"
  "214 \<le> r \<Longrightarrow> r < 245 \<Longrightarrow> month_day r = (10, nat (r - 214 + 1))"
  "245 \<le> r \<Longrightarrow> r < 275 \<Longrightarrow> month_day r = (11, nat (r - 245 + 1))"
  "275 \<le> r \<Longrightarrow> r < 306 \<Longrightarrow> month_day r = (12, nat (r - 275 + 1))"
  "306 \<le> r \<Longrightarrow> r < 337 \<Longrightarrow> month_day r = (1, nat (r - 306 + 1))"
  "337 \<le> r \<Longrightarrow> r < 367 \<Longrightarrow> month_day r = (2, nat (r - 337 + 1))"
  by (use month_day_eq [of 0 r] in simp,
      use month_day_eq [of 1 r] in simp,
      use month_day_eq [of 2 r] in simp,
      use month_day_eq [of 3 r] in simp,
      use month_day_eq [of 4 r] in simp,
      use month_day_eq [of 5 r] in simp,
      use month_day_eq [of 6 r] in simp,
      use month_day_eq [of 7 r] in simp,
      use month_day_eq [of 8 r] in simp,
      use month_day_eq [of 9 r] in simp,
      use month_day_eq [of 10 r] in simp,
      use month_day_eq [of 11 r] in simp)

text \<open>The date of day \<open>r\<close> of the year that starts in March of \<open>y\<close>.\<close>

definition march_date :: "int \<Rightarrow> int \<Rightarrow> int \<times> nat \<times> nat" where
  "march_date y r = (if fst (month_day r) \<le> 2 then y + 1 else y, month_day r)"

lemma within_month:
  assumes "month_day r = (m, nat (r - s + 1))" and "month_day (r + 1) = (m, nat (r + 1 - s + 1))" and "s \<le> r"
    and "r - s + 1 < int (month_length (if m \<le> 2 then y + 1 else y) m)"
  shows "march_date y (r + 1) = next_day (march_date y r)"
proof -
  have "nat (r - s + 1) < month_length (if m \<le> 2 then y + 1 else y) m" using assms(3,4) by linarith
  moreover have "nat (r + 1 - s + 1) = nat (r - s + 1) + 1" using assms(3) by linarith
  ultimately show ?thesis by (simp add: march_date_def assms(1,2))
qed

lemma whole_month:
  assumes "\<And>q. s \<le> q \<Longrightarrow> q < e \<Longrightarrow> month_day q = (m, nat (q - s + 1))" and "month_day e = (if m < 12 then m + 1 else 1, 1)"
    and "s \<le> r" and "r < e" and "\<And>y. int (month_length y m) = e - s" and "m \<noteq> 2"
  shows "march_date y (r + 1) = next_day (march_date y r)"
proof (cases "r + 1 < e")
  case True
  then show ?thesis using assms(3,5) by (intro within_month [of r m s] assms(1)) simp_all
next
  case False
  with assms(4) have e: "e = r + 1" by simp
  have r: "month_day r = (m, nat (r - s + 1))" using assms(1,3,4) by simp
  have "month_length y' m = nat (r - s + 1)" for y' using assms(5) [of y'] by (simp add: e)
  with assms(2,6) show ?thesis unfolding e by (auto simp: march_date_def r)
qed

lemma march_date_step:
  assumes "0 \<le> r" and "r < (if is_leap (y + 1) then 365 else 364)"
  shows "march_date y (r + 1) = next_day (march_date y r)"
proof -
  consider "r < 31" | "\<not> r < 31" "r < 61" | "\<not> r < 61" "r < 92" | "\<not> r < 92" "r < 122"
    | "\<not> r < 122" "r < 153" | "\<not> r < 153" "r < 184" | "\<not> r < 184" "r < 214"
    | "\<not> r < 214" "r < 245" | "\<not> r < 245" "r < 275" | "\<not> r < 275" "r < 306"
    | "\<not> r < 306" "r < 337" | "\<not> r < 337"
    by blast
  then show ?thesis
  proof cases
    case 1
    show ?thesis by (rule whole_month [OF month_day_table(1)]) (use assms(1) 1 in \<open>simp_all add: month_length_def month_day_table\<close>)
  next
    case 2
    show ?thesis by (rule whole_month [OF month_day_table(2)]) (use assms(1) 2 in \<open>simp_all add: month_length_def month_day_table\<close>)
  next
    case 3
    show ?thesis by (rule whole_month [OF month_day_table(3)]) (use assms(1) 3 in \<open>simp_all add: month_length_def month_day_table\<close>)
  next
    case 4
    show ?thesis by (rule whole_month [OF month_day_table(4)]) (use assms(1) 4 in \<open>simp_all add: month_length_def month_day_table\<close>)
  next
    case 5
    show ?thesis by (rule whole_month [OF month_day_table(5)]) (use assms(1) 5 in \<open>simp_all add: month_length_def month_day_table\<close>)
  next
    case 6
    show ?thesis by (rule whole_month [OF month_day_table(6)]) (use assms(1) 6 in \<open>simp_all add: month_length_def month_day_table\<close>)
  next
    case 7
    show ?thesis by (rule whole_month [OF month_day_table(7)]) (use assms(1) 7 in \<open>simp_all add: month_length_def month_day_table\<close>)
  next
    case 8
    show ?thesis by (rule whole_month [OF month_day_table(8)]) (use assms(1) 8 in \<open>simp_all add: month_length_def month_day_table\<close>)
  next
    case 9
    show ?thesis by (rule whole_month [OF month_day_table(9)]) (use assms(1) 9 in \<open>simp_all add: month_length_def month_day_table\<close>)
  next
    case 10
    show ?thesis by (rule whole_month [OF month_day_table(10)]) (use assms(1) 10 in \<open>simp_all add: month_length_def month_day_table\<close>)
  next
    case 11
    show ?thesis by (rule whole_month [OF month_day_table(11)]) (use assms(1) 11 in \<open>simp_all add: month_length_def month_day_table\<close>)
  next
    case 12
    then show ?thesis
      using assms(2) by (intro within_month [of r 2 337] month_day_table) (auto simp: month_length_def split: if_splits)
  qed
qed

lemma march_date_end:
  "march_date (y + 1) 0 = next_day (march_date y (if is_leap (y + 1) then 365 else 364))"
  by (simp add: march_date_def month_day_table month_length_def)

section \<open>Years of a cycle\<close>

lemma capped_div:
  assumes "0 < (m :: int)" and "0 \<le> k" and "0 \<le> x"
  obtains v where "0 \<le> v" "v \<le> k" "0 \<le> x - m * v" "x - m * v < m \<or> v = k"
proof (cases "x div m \<le> k")
  case True
  with that [of "x div m"] div_bounds [OF assms(1), of x] assms show thesis by (simp add: pos_imp_zdiv_nonneg_iff)
next
  case False
  then have "m * k \<le> m * (x div m)" using assms(1) by simp
  then have "0 \<le> x - m * k" using div_bounds [OF assms(1), of x] by linarith
  with that [of k] assms(2) show thesis by simp
qed

lemma cycle_parts:
  fixes doe :: int
  assumes "0 \<le> doe" and "doe < 146097"
  obtains a b c r where "doe = 36524 * a + 1461 * b + 365 * c + r" and "0 \<le> a" "a \<le> 3" "0 \<le> b" "b \<le> 24" "0 \<le> c" "c \<le> 3"
    and "0 \<le> r" "r \<le> 365" and "r = 365 \<Longrightarrow> c = 3" and "r = 365 \<Longrightarrow> b = 24 \<Longrightarrow> a = 3"
proof -
  obtain a where a: "0 \<le> a" "a \<le> 3" "0 \<le> doe - 36524 * a" "doe - 36524 * a < 36524 \<or> a = 3"
    by (rule capped_div [of 36524 3 doe]) (use assms(1) in simp_all)
  define q where "q = doe - 36524 * a"
  obtain b where b: "0 \<le> b" "b \<le> 24" "0 \<le> q - 1461 * b" "q - 1461 * b < 1461 \<or> b = 24"
    by (rule capped_div [of 1461 24 q]) (use a(3) in \<open>simp_all add: q_def\<close>)
  define p where "p = q - 1461 * b"
  obtain c where c: "0 \<le> c" "c \<le> 3" "0 \<le> p - 365 * c" "p - 365 * c < 365 \<or> c = 3"
    by (rule capped_div [of 365 3 p]) (use b(3) in \<open>simp_all add: p_def\<close>)
  have q: "q \<le> 36524" "q = 36524 \<Longrightarrow> a = 3" using a assms(2) unfolding q_def by linarith+
  have p: "p \<le> 1460" "b = 24 \<Longrightarrow> p = 1460 \<Longrightarrow> q = 36524" using b q(1) unfolding p_def by linarith+
  have r: "p - 365 * c \<le> 365" "p - 365 * c = 365 \<Longrightarrow> c = 3" "p - 365 * c = 365 \<Longrightarrow> p = 1460" using c p(1) by linarith+
  have "p - 365 * c = 365 \<Longrightarrow> b = 24 \<Longrightarrow> a = 3" using r(3) p(2) q(2) by blast
  moreover have "doe = 36524 * a + 1461 * b + 365 * c + (p - 365 * c)" by (simp add: q_def p_def)
  ultimately show thesis using that [of a b c "p - 365 * c"] a(1,2) b(1,2) c(1-3) r(1,2) by blast
qed

lemma civil_parts:
  assumes "z + 719468 = 146097 * era + doe" and "doe = 36524 * a + 1461 * b + 365 * c + r"
    and "0 \<le> a" "a \<le> 3" "0 \<le> b" "b \<le> 24" "0 \<le> c" "c \<le> 3" "0 \<le> r" "r \<le> 365"
    and "r = 365 \<Longrightarrow> c = 3" and "r = 365 \<Longrightarrow> b = 24 \<Longrightarrow> a = 3"
  shows "civil_from_days z = march_date (400 * era + 100 * a + 4 * b + c) r"
proof -
  let ?y = "100 * a + 4 * b + c"
  have doe: "0 \<le> doe" "doe < 146097" using assms(2-12) by linarith+
  have era: "(if z + 719468 \<ge> 0 then (z + 719468) div 146097 else - ((146096 - (z + 719468)) div 146097)) = era"
  proof (cases "z + 719468 \<ge> 0")
    case True
    then show ?thesis using assms(1) doe by (simp add: div_eqI)
  next
    case False
    have "(146096 - (z + 719468)) div 146097 = - era" using assms(1) doe by (intro div_eqI) linarith+
    with False show ?thesis by simp
  qed
  have "doe - doe div 1460 + doe div 36524 - doe div 146096 = 365 * ?y + r - (if 24 * a + b + 365 * c + r \<ge> 1460 then 1 else 0)"
  proof -
    have "doe div 36524 - doe div 146096 = a"
    proof (cases "doe = 146096")
      case False
      with doe have "doe div 146096 = 0" by (intro div_eqI) linarith+
      moreover have "1461 * b + 365 * c + r < 36524" using False assms(2-12) by linarith
      then have "doe div 36524 = a" using assms(2-10) by (intro div_eqI) linarith+
      ultimately show ?thesis by simp
    next
      case True
      then have "a = 3" using assms(2-12) by linarith
      with True show ?thesis by simp
    qed
    moreover have "doe div 1460 = 25 * a + b + (if 24 * a + b + 365 * c + r \<ge> 1460 then 1 else 0)"
      using assms(2-10) by (intro div_eqI) (simp_all split: if_splits)
    ultimately show ?thesis using assms(2) by simp
  qed
  moreover have "r < 365 \<or> 24 * a + b + 365 * c + r \<ge> 1460" using assms(3-11) by (cases "r = 365") auto
  then have "(365 * ?y + r - (if 24 * a + b + 365 * c + r \<ge> 1460 then 1 else 0)) div 365 = ?y"
    using assms(3-10) by (intro div_eqI) (auto split: if_splits)
  ultimately have yoe: "(doe - doe div 1460 + doe div 36524 - doe div 146096) div 365 = ?y" by simp
  have "?y div 4 = 25 * a + b" using assms(3-8) by (intro div_eqI) simp_all
  moreover have "?y div 100 = a" using assms(3-8) by (intro div_eqI) simp_all
  ultimately have doy: "doe - (365 * ?y + ?y div 4 - ?y div 100) = r" using assms(2) by simp
  have rest: "z + 719468 - era * 146097 = doe" using assms(1) by simp
  show ?thesis
    unfolding civil_from_days_def Let_def era rest yoe doy by (auto simp: march_date_def month_day_def Let_def nat_le_iff)
qed

lemma leap_parts:
  assumes "0 \<le> a" "a \<le> 3" "0 \<le> b" "b \<le> 24" "0 \<le> c" "c \<le> 3"
  shows "is_leap (400 * era + 100 * a + 4 * b + c + 1) \<longleftrightarrow> c = 3 \<and> (b = 24 \<longrightarrow> a = 3)"
proof -
  let ?y = "400 * era + 100 * a + 4 * b + c + 1"
  have "?y mod 4 = (if c = 3 then 0 else c + 1)"
    using assms(5,6) by (intro int_mod_pos_eq [where q = "100 * era + 25 * a + b + (if c = 3 then 1 else 0)"]) auto
  moreover have "?y mod 100 = (if b = 24 then 0 else 4 * (b + 1))" if "c = 3"
    using assms(3,4) that by (intro int_mod_pos_eq [where q = "4 * era + a + (if b = 24 then 1 else 0)"]) auto
  moreover have "?y mod 400 = (if a = 3 then 0 else 100 * (a + 1))" if "c = 3" "b = 24"
    using assms(1,2) that by (intro int_mod_pos_eq [where q = "era + (if a = 3 then 1 else 0)"]) auto
  ultimately show ?thesis using assms(1-6) by (auto simp: is_leap_def)
qed

text \<open>The first day of the next year: the next in its group of four, of its century, of its cycle, or of the next cycle.\<close>

lemma civil_new_year:
  assumes "z + 719468 = 146097 * era + doe" and "doe = 36524 * a + 1461 * b + 365 * c + r"
    and "0 \<le> a" "a \<le> 3" "0 \<le> b" "b \<le> 24" "0 \<le> c" "c \<le> 3" and "r = (if c = 3 \<and> (b = 24 \<longrightarrow> a = 3) then 365 else 364)"
  shows "civil_from_days (z + 1) = march_date (400 * era + 100 * a + 4 * b + c + 1) 0"
proof -
  consider "c < 3" | "c = 3" "b < 24" | "c = 3" "b = 24" "a < 3" | "c = 3" "b = 24" "a = 3"
    using assms(4,6,8) by linarith
  then show ?thesis
  proof cases
    case 1
    then show ?thesis using civil_parts [of "z + 1" era "doe + 1" a b "c + 1" 0] assms by (simp add: algebra_simps)
  next
    case 2
    then show ?thesis using civil_parts [of "z + 1" era "doe + 1" a "b + 1" 0 0] assms by (simp add: algebra_simps)
  next
    case 3
    then show ?thesis using civil_parts [of "z + 1" era "doe + 1" "a + 1" 0 0 0] assms by (simp add: algebra_simps)
  next
    case 4
    then show ?thesis using civil_parts [of "z + 1" "era + 1" 0 0 0 0 0] assms by (simp add: algebra_simps)
  qed
qed

lemma civil_step: "civil_from_days (z + 1) = next_day (civil_from_days z)"
proof -
  define era doe where "era = (z + 719468) div 146097" and "doe = (z + 719468) mod 146097"
  have z: "z + 719468 = 146097 * era + doe" unfolding era_def doe_def by simp
  obtain a b c r where doe: "doe = 36524 * a + 1461 * b + 365 * c + r"
    and ranges: "0 \<le> a" "a \<le> 3" "0 \<le> b" "b \<le> 24" "0 \<le> c" "c \<le> 3" "0 \<le> r" "r \<le> 365" and full: "r = 365 \<Longrightarrow> c = 3" "r = 365 \<Longrightarrow> b = 24 \<Longrightarrow> a = 3"
    by (rule cycle_parts [of doe]) (simp_all add: doe_def)
  let ?y = "400 * era + 100 * a + 4 * b + c"
  have today: "civil_from_days z = march_date ?y r" by (rule civil_parts [OF z doe ranges full])
  have leap: "is_leap (?y + 1) \<longleftrightarrow> c = 3 \<and> (b = 24 \<longrightarrow> a = 3)"
    by (rule leap_parts [OF ranges(1-6)])
  show ?thesis
  proof (cases "r < (if is_leap (?y + 1) then 365 else 364)")
    case True
    have "civil_from_days (z + 1) = march_date ?y (r + 1)"
      by (rule civil_parts [of _ era "doe + 1"]) (use z doe ranges True leap in \<open>auto split: if_splits\<close>)
    then show ?thesis using march_date_step [OF ranges(7) True] today by simp
  next
    case False
    have "r \<noteq> 365" if "\<not> is_leap (?y + 1)" using that full unfolding leap by blast
    with False ranges(8) have r: "r = (if is_leap (?y + 1) then 365 else 364)"
      by (cases "is_leap (?y + 1)") simp_all
    have "civil_from_days (z + 1) = march_date (?y + 1) 0"
      by (rule civil_new_year [OF z doe ranges(1-6)]) (use r in \<open>simp only: leap\<close>)
    then show ?thesis using march_date_end [of ?y] today r by simp
  qed
qed

section \<open>Property\<close>

text \<open>
  C40: The date in the notifications is the calendar's: \<open>civil_from_days n\<close>, which computes with eras of 400
  years that start in March, is the date reached from 1 January 1970 by going \<open>n\<close> days forward in the
  Gregorian calendar.
\<close>

theorem civil_from_days_is_calendar: "civil_from_days (int n) = (next_day ^^ n) (1970, 1, 1)"
proof (induction n)
  case 0
  show ?case by code_simp
next
  case (Suc n)
  then show ?case using civil_step [of "int n"] by (simp add: algebra_simps)
qed

end
