(* ===== verification/Spec2Isabelle.thy ===== *)
theory Spec2Isabelle
  imports Startup Relay Calendar
begin

text \<open>
  A verification development for rust-mumble, a Mumble voice server for game servers written in Rust.

  \<^bold>\<open>The program.\<close> A client connects over TLS (\<open>src/src/server/tcp.rs\<close>) and exchanges length-prefixed
  protobuf messages with the server (\<open>src/src/proto\<close>); after the handshake of \<open>src/src/client.rs\<close> and
  the ban check it is entered into the shared state (\<open>src/src/state.rs\<close>) and two tasks serve it
  (\<open>src/src/handler/mod.rs\<close>): one reads frames and calls the handler of each message, the other takes
  messages from the client's queue. Voice packets (\<open>src/src/voice.rs\<close>, \<open>src/src/varint.rs\<close>) arrive as
  datagrams (\<open>src/src/server/udp.rs\<close>) encrypted with AES-OCB (\<open>src/src/crypt.rs\<close>); the sender is found by
  its address or by trying the keys of the clients without one, and the packet is routed to the
  listeners of its target (\<open>src/src/handler/voice_packet.rs\<close>), who get it encrypted with their own keys. A
  clean-up task (\<open>src/src/clean.rs\<close>) disconnects silent clients and resets lost UDP channels; an
  anticheat task (\<open>src/src/anticheat.rs\<close>) evaluates what the voice path records and mutes, kicks or bans;
  an administration interface (\<open>src/src/http\<close>) shows and changes all of this; \<open>src/src/main.rs\<close> builds
  everything from the command line and the files of an earlier run.

  \<^bold>\<open>How it is modelled.\<close> Structs are records, enums are datatypes, machine integers are words that wrap
  as in the release profile, a \<open>Result\<close> is a sum with the error on the left, and a panic is a value.
  Strings are lists of UTF-8 bytes. An instant is a number of nanoseconds. The concurrent maps of the
  \<open>scc\<close> crate are association lists under the contract \<open>hash_index\<close>. An \<open>Arc\<close> or \<open>Weak\<close> of a client is an
  address in a heap of client objects, so two indexes that hold the same client share it. Output is
  recorded: the bytes written to a client, the datagrams sent to it, the files and the notifications.
  What is not source of the repository is a parameter: the block cipher (\<open>aes128\<close>, with the law
  \<open>aes_ok\<close> that decryption inverts encryption), the protobuf wire format (\<open>pb_runtime\<close>, \<open>pb_ok\<close>), the JSON
  codecs of the two files (\<open>ban_json\<close>, \<open>heard_json\<close>), the matching of regular expressions (the pattern for
  user names is \<open>USERNAME_REGEX\<close>) and the conversion to lower case (both in \<open>ext\<close>). For each of them a concrete instance (\<open>xor_cipher\<close>, \<open>std_runtime\<close>, \<open>std_ban_json\<close>,
  \<open>std_heard_json\<close>, \<open>std_ext\<close>) shows that the laws can hold.
\<close>

text \<open>
  \<^bold>\<open>The theories.\<close>

  \<^item> \<open>Prelude\<close>: byte strings, results, and the hash index with its contract \<open>hash_index\<close>.
  \<^item> \<open>Varint\<close> (\<open>varint.rs\<close>) and \<open>Voice\<close> (\<open>voice.rs\<close>): the codec of voice packets, for both directions
    under the contract \<open>voice_dst\<close>. Round trips (C14, C15), and that a relayed packet carries the same
    audio (C16).
  \<^item> \<open>Crypt\<close> (\<open>crypt.rs\<close>): AES-OCB and the nonce window. No nonce is accepted twice (C3), a channel that
    loses packets delivers the others (C4), the OCB round trip (C13), every outcome of \<open>decrypt\<close> (C17),
    what becomes of a packet that is overtaken (C18), resynchronisation (C19), and the early packets of a
    connection that are refused without cause when they are overtaken (C20).
  \<^item> \<open>Wire\<close>, \<open>Mumble_Session\<close>, \<open>Mumble_State\<close>, \<open>Mumble_Admin\<close> (\<open>proto/mumble.rs\<close>): the readers and writers of
    fields, and every message type with its fields, \<open>merge_from\<close>, \<open>compute_size\<close>, \<open>write_to\<close> and required
    fields. Each message type interprets the contract \<open>pb_message\<close>: what is written is read back, and the
    computed size is the number of bytes written.
  \<^item> \<open>Proto\<close> (\<open>proto/mod.rs\<close>, \<open>error.rs\<close>, \<open>message/mod.rs\<close>): kinds, frames and the reader of the handshake.
    A framed message of any kind is read back from the stream (C21); the eleventh frame of the handshake is parsed whatever its kind
    (C23).
  \<^item> \<open>Text\<close> and \<open>F32\<close>: what the program uses of Rust's strings and of single precision numbers; integers of
    up to 24 bits are converted exactly.
  \<^item> \<open>Client\<close> (\<open>client.rs\<close>, \<open>target.rs\<close>, \<open>channel.rs\<close>): the client object. The handshake succeeds with a
    well-behaved client (C22), and the frame of a crypt setup, with or without reset, synchronises the
    two ends (C24).
  \<^item> \<open>Bans\<close> (\<open>BanList\<close> of \<open>anticheat.rs\<close>): bans outlive session ids (C25) and restarts (C26).
  \<^item> \<open>Anticheat\<close> (\<open>anticheat.rs\<close>): configuration, log, and what the voice path records of a client, with its
    bounds (C27, C28).
  \<^item> \<open>State\<close> (\<open>state.rs\<close>): the shared state and its operations. The abstraction \<open>directory_of\<close> keeps who is
    connected, where, and under which address; changing the channel and disconnecting refine operations
    on it (C11, C12). Also the search for a session id (C29), broadcasts (C30), and what happens to the
    members of a channel that does not exist (C31).
  \<^item> \<open>Handlers\<close> (\<open>handler\<close>): all handlers, routing, and the two tasks. The reading task ends, also with
    other tasks at work between its turns (C32); a client can lift its mute (C33); a nonce of the wrong length aborts the server (C34).
  \<^item> \<open>Server\<close> (\<open>server/tcp.rs\<close>, \<open>server/udp.rs\<close>, \<open>clean.rs\<close>): admission, datagrams and clean-up.
  \<^item> \<open>Sample\<close> (\<open>sample\<close>, \<open>flag\<close>, \<open>flush_heard\<close>, \<open>run_sampler\<close> of \<open>anticheat.rs\<close>): whom a round punishes (C8);
    the list of speakers survives a restart (C36).
  \<^item> \<open>Http\<close> (\<open>http\<close>): authentication, routing and handlers. No state is changed or shown without the
    password (C37), hidden addresses, of TCP and UDP, stay hidden (C9), the configuration stays in range (C38).
  \<^item> \<open>Invariant\<close> and \<open>Quiet\<close>: the invariant \<open>server_inv\<close>, and that every operation keeps it.
  \<^item> \<open>Reach\<close>: the server as the transition relation \<open>step\<close>. In every reachable state the number of active
    clients is exact (C2) and so are the UDP addresses (C5); whom a clean-up run removes (C10) and whom
    it never removes (C35); who is admitted (C7).
  \<^item> \<open>Startup\<close> (\<open>main.rs\<close>): the command line and the initial state; a ban from the panel disconnects the
    player and keeps it out, also after a restart (C6).
  \<^item> \<open>Relay\<close>: a voice packet from the speaker's encryption to the listener's decryption (C1), and the
    encrypted packets that are taken for pings (C39).
  \<^item> \<open>Calendar\<close>: \<open>civil_from_days\<close> is the Gregorian calendar (C40).
\<close>

text \<open>
  \<^bold>\<open>Steps and interleaving.\<close> In \<open>Reach\<close> the tasks interleave between operations: one connection, one
  frame, one queued message, one datagram, one clean-up run, one anticheat round or one request is one
  step, with one reading of the clock. \<open>disconnect\<close> alone is split, after its lookup of the client and
  before its removal from the index, because several tasks call it for the same session and the removal
  decides which of them counts the client off. An object is freed when nothing holds it any more. Interleavings
  inside the other operations are not modelled. The reading task of \<open>Handlers\<close> is a loop of its own, with an
  arbitrary change of the state by the other tasks before each of its turns.

  \<^bold>\<open>Bounds and fuel.\<close> No definition has fuel. Loops over data are recursive functions with a termination
  proof; the two loops whose end depends on the state or the peer, the search for a session id and the
  reading task, are partial functions whose end is proved (C29, C32). A handler that loops
  forever has the outcome \<open>Hangs\<close> in \<open>Handlers\<close>. The theorems on reachable states assume fewer than \<open>2\<^sup>3\<^sup>2\<close>
  admissions, after which session ids would be used again. The theorems on loss allow up to 126 lost
  packets in a row, as many as the signed difference of the nonce bytes can express. The dates of
  \<open>civil_from_days\<close> are computed in unbounded integers, which agree with the \<open>i64\<close> of the source on every
  argument from 0, the only ones it is called with, to below \<open>2\<^sup>6\<^sup>3 - 719468\<close>.

  \<^bold>\<open>Not modelled.\<close> Sockets, TLS, the accept loop and the socket options of \<open>server/tcp.rs\<close>; the certificate
  that \<open>main.rs\<close> generates, and its spawning of the tasks: calls of libraries without a result that the
  program examines. The counters of \<open>metrics.rs\<close> and \<open>http/metrics.rs\<close>, which are only incremented and
  exported, and the log output. The page \<open>PANEL_HTML\<close>, a constant. The HTTP and JSON encodings of the
  administration interface, which belong to \<open>axum\<close> and \<open>serde\<close>. In \<open>proto/mumble.rs\<close> the accessors (which
  are the selectors and updates of the records), the reflection descriptors and the cached sizes.
\<close>

end
